theory Spec2Isabelle
  imports Complex_Main "HOL-Library.AList" "HOL-Library.List_Lexorder" "HOL-Library.Product_Lexorder"
    "HOL-Library.Multiset"
begin

section \<open>Values of the Python program\<close>

text \<open>
  A Python \<open>str\<close> is a sequence of Unicode code points: \<open>len\<close> counts code points and
  comparison is lexicographic on them. It is modelled as a list of naturals; \<open>ascii\<close>
  embeds an ASCII literal. A Python \<open>float\<close> is modelled as an exact real number, an
  \<open>int\<close> as an integer, a \<open>datetime\<close> as a number of microseconds, and each call of
  \<open>datetime.now()\<close> inside one operation reads the same instant \<open>now\<close>, passed as an
  argument. Identifiers drawn from \<open>uuid.uuid4()\<close> are arguments too.
\<close>

type_synonym str = "nat list"
type_synonym datetime = int

definition ascii :: "string \<Rightarrow> str" where
  "ascii cs = map of_char cs"

definition days :: "int \<Rightarrow> int" where
  \<comment> \<open>\<open>timedelta.days\<close> of a difference of two instants (floor division)\<close>
  "days d = d div 86400000000"

definition timedelta_days :: "int \<Rightarrow> int" where
  "timedelta_days n = n * 86400000000"

definition timedelta_hours :: "int \<Rightarrow> int" where
  "timedelta_hours n = n * 3600000000"

text \<open>
  A \<open>dict\<close> keeps its keys in insertion order: an association list with distinct keys.
  \<open>d[k] = v\<close> is \<open>AList.update k v d\<close> (in place for a known key, appended for a new
  one), \<open>d.get(k, default)\<close> is \<open>dict_get\<close>.
\<close>

type_synonym 'v dict = "(str \<times> 'v) list"

definition dict_get :: "'v dict \<Rightarrow> str \<Rightarrow> 'v \<Rightarrow> 'v" where
  "dict_get d k dflt = (case map_of d k of None \<Rightarrow> dflt | Some v \<Rightarrow> v)"

definition keys :: "'v dict \<Rightarrow> str list" where
  "keys d = map fst d"

definition dict_values :: "'v dict \<Rightarrow> 'v list" where
  "dict_values d = map snd d"

fun max_values :: "real list \<Rightarrow> real" where
  \<comment> \<open>Python \<open>max\<close> of a non-empty sequence; every call is guarded by a non-empty test\<close>
  "max_values [] = 0"
| "max_values (x # xs) = fold max xs x"

definition dedup :: "'a list \<Rightarrow> 'a list" where
  \<comment> \<open>each element once, in the order of first occurrence (the keys of a \<open>dict\<close>, the
      elements of a \<open>set\<close> built from a sequence)\<close>
  "dedup xs = rev (remdups (rev xs))"

definition mean_values :: "real list \<Rightarrow> real" where
  \<comment> \<open>\<open>sum(vs) / len(vs)\<close>\<close>
  "mean_values vs = sum_list vs / real (length vs)"

function str_replace_from :: "str \<Rightarrow> str \<Rightarrow> str \<Rightarrow> str" where
  \<comment> \<open>the scan of \<open>s.replace(old, new)\<close> for a non-empty \<open>old\<close>: left to right, the
      occurrences do not overlap\<close>
  "str_replace_from old new [] = []"
| "str_replace_from old new (c # cs) =
     (if old \<noteq> [] \<and> take (length old) (c # cs) = old
      then new @ str_replace_from old new (drop (length old) (c # cs))
      else c # str_replace_from old new cs)"
  by pat_completeness auto
termination
  by (relation "measure (\<lambda>(old, new, s). length s)") auto

definition str_replace :: "str \<Rightarrow> str \<Rightarrow> str \<Rightarrow> str" where
  \<comment> \<open>\<open>s.replace(old, new)\<close>; an empty \<open>old\<close> matches before every character and at the end\<close>
  "str_replace old new s =
     (if old = [] then new @ concat (map (\<lambda>c. c # new) s) else str_replace_from old new s)"

fun str_of_nat :: "nat \<Rightarrow> str" where
  \<comment> \<open>\<open>str(n)\<close> of a non-negative integer: its decimal digits\<close>
  "str_of_nat n = (if n < 10 then [48 + n] else str_of_nat (n div 10) @ [48 + n mod 10])"

declare str_of_nat.simps [simp del]

definition py_slice_to :: "int \<Rightarrow> 'a list \<Rightarrow> 'a list" where
  \<comment> \<open>the slice \<open>xs[:n]\<close>; a negative \<open>n\<close> counts from the end\<close>
  "py_slice_to n xs = (if 0 \<le> n then take (nat n) xs else take (length xs - nat (- n)) xs)"

section \<open>relations.py: the RelationTensor\<close>

text \<open>
  The dataclass \<open>RelationTensor\<close>. The constant dictionary \<open>fair_care_metadata\<close> is
  left out: no operation below reads it.
\<close>

record RelationTensor =
  source :: str
  target :: str
  rtype :: str
  meaning :: str
  intention :: str
  certainty :: real
  tension :: real
  coherence_contribution :: real
  certainty_by_context :: "real dict"
  tension_by_context :: "real dict"
  habeas_weight_id :: str
  ethical_status :: str
  lifespan :: datetime
  activation_count :: int
  last_activated :: "datetime option"
  created_at :: datetime
  updated_at :: datetime
  parent_tensors :: "str list"
  child_tensors :: "str list"
  suggested :: bool

definition lambda_type :: str where
  \<comment> \<open>the default relation type, the one-letter string GREEK CAPITAL LETTER LAMDA\<close>
  "lambda_type = [923]"

definition recalculate_metrics :: "datetime \<Rightarrow> RelationTensor \<Rightarrow> RelationTensor" where
  "recalculate_metrics now t =
    (let c = (if certainty_by_context t \<noteq> []
              then mean_values (dict_values (certainty_by_context t)) else certainty t);
         tn = (if tension_by_context t \<noteq> []
               then max_values (dict_values (tension_by_context t)) else tension t)
     in t\<lparr>certainty := c, tension := tn, coherence_contribution := c * (1 - tn),
          ethical_status :=
            (if tn > 0.8 then ascii ''conflicted''
             else if activation_count t = 0 \<and> days (now - created_at t) > 30
               then ascii ''sleeping''
             else ascii ''active'')\<rparr>)"

definition post_init :: "datetime \<Rightarrow> RelationTensor \<Rightarrow> RelationTensor" where
  \<comment> \<open>\<open>__post_init__\<close>, run by the constructor on the fields it was given\<close>
  "post_init now t =
    (let t1 = (if certainty_by_context t = []
               then t\<lparr>certainty_by_context := [(ascii ''genesis'', certainty t)]\<rparr> else t);
         t2 = (if last_activated t1 = None
               then t1\<lparr>last_activated := Some (created_at t1)\<rparr> else t1)
     in recalculate_metrics now t2)"

definition tensor_fields ::
  "str \<Rightarrow> datetime \<Rightarrow> str \<Rightarrow> str \<Rightarrow> str \<Rightarrow> str \<Rightarrow> str \<Rightarrow> real \<Rightarrow> real \<Rightarrow> RelationTensor" where
  \<comment> \<open>the fields of a constructor call naming source, target, type, meaning, intention,
      certainty and tension, every other field at its dataclass default; \<open>hw\<close> is the
      generated \<open>HW_...\<close> identifier\<close>
  "tensor_fields hw now src tgt ty mng intent c tn =
    \<lparr>source = src, target = tgt, rtype = ty, meaning = mng, intention = intent,
     certainty = c, tension = tn, coherence_contribution = 0,
     certainty_by_context = [], tension_by_context = [],
     habeas_weight_id = hw, ethical_status = ascii ''active'',
     lifespan = now + timedelta_days 365, activation_count = 0,
     last_activated = None, created_at = now, updated_at = now,
     parent_tensors = [], child_tensors = [], suggested = False\<rparr>"

definition new_tensor ::
  "str \<Rightarrow> datetime \<Rightarrow> str \<Rightarrow> str \<Rightarrow> str \<Rightarrow> str \<Rightarrow> str \<Rightarrow> real \<Rightarrow> real \<Rightarrow> RelationTensor" where
  "new_tensor hw now src tgt ty mng intent c tn =
    post_init now (tensor_fields hw now src tgt ty mng intent c tn)"

definition activate :: "datetime \<Rightarrow> str \<Rightarrow> RelationTensor \<Rightarrow> RelationTensor" where
  "activate now context_id t =
    (let c = (if certainty t < 0.95 then min 0.95 (certainty t * 1.02) else certainty t);
         cbc = (if context_id \<notin> set (keys (certainty_by_context t))
                then AList.update context_id c (certainty_by_context t)
                else AList.update context_id
                       ((dict_get (certainty_by_context t) context_id 0 + c) / 2)
                       (certainty_by_context t))
     in recalculate_metrics now
          (t\<lparr>activation_count := activation_count t + 1, last_activated := Some now,
             certainty := c, certainty_by_context := cbc, updated_at := now\<rparr>))"

definition update_from_context ::
  "datetime \<Rightarrow> str \<Rightarrow> real \<Rightarrow> real \<Rightarrow> RelationTensor \<Rightarrow> RelationTensor" where
  "update_from_context now context_id new_certainty new_tension t =
    (let current = dict_get (certainty_by_context t) context_id new_certainty;
         cbc = AList.update context_id ((current + new_certainty) / 2) (certainty_by_context t);
         current_tension = dict_get (tension_by_context t) context_id 0;
         tbc = AList.update context_id (max current_tension new_tension) (tension_by_context t)
     in activate now context_id
          (recalculate_metrics now
             (t\<lparr>certainty_by_context := cbc, tension_by_context := tbc\<rparr>)))"

definition variant_prefix :: str where
  \<comment> \<open>the f-string prefix of \<open>split\<close>: the Russian word for "Variant", a colon, a space\<close>
  "variant_prefix = [1042, 1072, 1088, 1080, 1072, 1085, 1090, 58, 32]"

definition split_intention_prefix :: str where
  \<comment> \<open>the f-string prefix of the child's intention ("Split from", in Russian), with its
      trailing space\<close>
  "split_intention_prefix =
     [1056, 1072, 1079, 1076, 1077, 1083, 1077, 1085, 1080, 1077, 32, 1086, 1090, 32]"

definition split ::
  "str \<Rightarrow> datetime \<Rightarrow> str \<Rightarrow> str option \<Rightarrow> RelationTensor \<Rightarrow> RelationTensor \<times> RelationTensor" where
  \<comment> \<open>returns the child and the parent with the child's id appended; \<open>hw\<close> is the child's
      generated id; \<open>new_type or self.type\<close> takes \<open>self.type\<close> for \<open>None\<close> and for the
      empty string\<close>
  "split hw now variant_meaning new_type t =
    (let child = new_tensor hw now (source t) (target t)
                   (case new_type of None \<Rightarrow> rtype t
                    | Some ty \<Rightarrow> if ty = [] then rtype t else ty)
                   (variant_prefix @ variant_meaning)
                   (split_intention_prefix @ habeas_weight_id t)
                   (certainty t * 0.8) (tension t);
         cbc = fold (\<lambda>(ctx, cert). AList.update ctx (cert * 0.8))
                 (certainty_by_context t) (certainty_by_context child)
     in (child\<lparr>certainty_by_context := cbc, parent_tensors := [habeas_weight_id t]\<rparr>,
         t\<lparr>child_tensors := child_tensors t @ [habeas_weight_id child]\<rparr>))"

datatype error =
    ValueError
  | AttributeError
  | NetworkXError
  | IndexError

definition merged_meaning :: "str \<Rightarrow> str \<Rightarrow> str" where
  \<comment> \<open>the f-string of \<open>merge_with\<close>: GREEK CAPITAL LETTER SIGMA, "(", m1, ", ", m2, ")"\<close>
  "merged_meaning m1 m2 = [931, 40] @ m1 @ [44, 32] @ m2 @ [41]"

definition all_ctx :: "RelationTensor \<Rightarrow> RelationTensor \<Rightarrow> str list" where
  \<comment> \<open>the keys of the set union, each once; Python iterates a set in an order of its own,
      here the order of first occurrence\<close>
  "all_ctx t other =
     dedup (keys (certainty_by_context t) @ keys (certainty_by_context other))"

definition merge_with ::
  "str \<Rightarrow> datetime \<Rightarrow> RelationTensor \<Rightarrow> RelationTensor \<Rightarrow> error + RelationTensor" where
  "merge_with hw now t other =
    (if \<not> (source t = source other \<and> target t = target other \<and> rtype t = rtype other)
     then Inl ValueError
     else
       (let merged = new_tensor hw now (source t) (target t) (rtype t)
                       (merged_meaning (meaning t) (meaning other)) []
                       ((certainty t + certainty other) / 2)
                       (max (tension t) (tension other));
            cbc = fold (\<lambda>ctx d. AList.update ctx
                          ((dict_get (certainty_by_context t) ctx 0
                            + dict_get (certainty_by_context other) ctx 0) / 2) d)
                    (all_ctx t other) (certainty_by_context merged)
        in Inr (merged\<lparr>certainty_by_context := cbc,
                        parent_tensors := [habeas_weight_id t, habeas_weight_id other]\<rparr>)))"

section \<open>graph.py: the TensorSemanticGraph\<close>

text \<open>
  A \<open>RelationTensor\<close> is a mutable object that the caller, the edge attributes and the
  tensor registry share by reference: the objects live in a store, a function from
  addresses to tensors, and every other structure holds addresses.

  The networkx \<open>MultiDiGraph\<close> is the list of its nodes and the list of its edges, both
  in insertion order. An edge carries its endpoints, its key and the attributes
  \<open>tensor\<close>, \<open>created_at\<close> and \<open>context_id\<close> that \<open>add_tensor\<close> gives it. The attribute
  dictionaries of the nodes are left out (no operation below reads them), and so are the
  graph's name, version and the two history lists of \<open>stats\<close>.
\<close>

type_synonym addr = nat
type_synonym store = "addr \<Rightarrow> RelationTensor"

record edge =
  e_src :: str
  e_dst :: str
  e_key :: str
  e_tensor :: addr
  e_created_at :: datetime
  e_context_id :: str

record context_meta =
  cm_created_at :: datetime
  tensor_count :: int
  registry_avg_certainty :: real

record TensorSemanticGraph =
  nodes :: "str list"
  edges :: "edge list"
  context_registry :: "context_meta dict"
  tensor_registry :: "addr dict"
  conflict_zones :: "str set"
  dreaming_queue :: "(real \<times> str \<times> str) list"
  total_activations :: int
  last_dreaming :: "datetime option"

definition empty_graph :: TensorSemanticGraph where
  \<comment> \<open>\<open>TensorSemanticGraph()\<close>\<close>
  "empty_graph =
     \<lparr>nodes = [], edges = [], context_registry = [], tensor_registry = [],
      conflict_zones = {}, dreaming_queue = [], total_activations = 0,
      last_dreaming = None\<rparr>"

subsection \<open>The networkx operations the code calls\<close>

definition has_node :: "TensorSemanticGraph \<Rightarrow> str \<Rightarrow> bool" where
  "has_node g n = (n \<in> set (nodes g))"

definition has_edge :: "TensorSemanticGraph \<Rightarrow> str \<Rightarrow> str \<Rightarrow> bool" where
  "has_edge g u v = list_ex (\<lambda>e. e_src e = u \<and> e_dst e = v) (edges g)"

definition edges_between :: "TensorSemanticGraph \<Rightarrow> str \<Rightarrow> str \<Rightarrow> edge list" where
  \<comment> \<open>\<open>graph[u][v].items()\<close>: the parallel edges from u to v, in insertion order\<close>
  "edges_between g u v = filter (\<lambda>e. e_src e = u \<and> e_dst e = v) (edges g)"

definition successors :: "TensorSemanticGraph \<Rightarrow> str \<Rightarrow> str list" where
  "successors g n = dedup (map e_dst (filter (\<lambda>e. e_src e = n) (edges g)))"

definition predecessors :: "TensorSemanticGraph \<Rightarrow> str \<Rightarrow> str list" where
  "predecessors g n = dedup (map e_src (filter (\<lambda>e. e_dst e = n) (edges g)))"

definition degree :: "TensorSemanticGraph \<Rightarrow> str \<Rightarrow> int" where
  \<comment> \<open>in-degree plus out-degree, parallel edges counted\<close>
  "degree g n = int (length (filter (\<lambda>e. e_src e = n) (edges g)))
              + int (length (filter (\<lambda>e. e_dst e = n) (edges g)))"

definition nx_add_node :: "str \<Rightarrow> TensorSemanticGraph \<Rightarrow> TensorSemanticGraph" where
  "nx_add_node n g = (if n \<in> set (nodes g) then g else g\<lparr>nodes := nodes g @ [n]\<rparr>)"

definition nx_add_edge ::
  "str \<Rightarrow> str \<Rightarrow> str \<Rightarrow> addr \<Rightarrow> datetime \<Rightarrow> str \<Rightarrow> TensorSemanticGraph \<Rightarrow> TensorSemanticGraph" where
  \<comment> \<open>\<open>add_edge(u, v, key=..., tensor=..., created_at=..., context_id=...)\<close>: an edge whose
      key is already used between u and v has its attributes overwritten\<close>
  "nx_add_edge u v k a now context_id g =
    (let g1 = nx_add_node v (nx_add_node u g)
     in if list_ex (\<lambda>e. e_key e = k) (edges_between g1 u v)
        then g1\<lparr>edges := map (\<lambda>e. if e_src e = u \<and> e_dst e = v \<and> e_key e = k
                                    then e\<lparr>e_tensor := a, e_created_at := now,
                                           e_context_id := context_id\<rparr>
                                    else e) (edges g1)\<rparr>
        else g1\<lparr>edges := edges g1 @
                 [\<lparr>e_src = u, e_dst = v, e_key = k, e_tensor = a, e_created_at = now,
                   e_context_id = context_id\<rparr>]\<rparr>)"

subsection \<open>The heapq operations the code calls\<close>

text \<open>
  \<open>heapq\<close> keeps a heap in a plain list. \<open>heappush\<close> appends the item and lets it rise
  towards the root (\<open>_siftdown\<close>); \<open>heappop\<close> removes the last item, puts it at the root
  in place of the returned one, lets the smaller children rise to a leaf (\<open>_siftup\<close>) and
  the item rise again from there. The entries are tuples, which Python compares
  lexicographically, strings by their code points.
\<close>

function siftdown_loop :: "'a::linorder list \<Rightarrow> nat \<Rightarrow> nat \<Rightarrow> 'a \<Rightarrow> 'a list" where
  \<comment> \<open>the \<open>while pos > startpos\<close> loop of \<open>_siftdown\<close> and the assignment that ends it\<close>
  "siftdown_loop heap startpos pos newitem =
     (if pos > startpos
      then (let parentpos = (pos - 1) div 2; parent = heap ! parentpos
            in if newitem < parent
               then siftdown_loop (heap[pos := parent]) startpos parentpos newitem
               else heap[pos := newitem])
      else heap[pos := newitem])"
  by pat_completeness auto
termination
  by (relation "measure (\<lambda>(heap, startpos, pos, newitem). pos)") auto

declare siftdown_loop.simps [simp del]

definition siftdown :: "'a::linorder list \<Rightarrow> nat \<Rightarrow> nat \<Rightarrow> 'a list" where
  "siftdown heap startpos pos = siftdown_loop heap startpos pos (heap ! pos)"

function siftup_loop :: "'a::linorder list \<Rightarrow> nat \<Rightarrow> 'a list \<times> nat" where
  \<comment> \<open>the \<open>while childpos < endpos\<close> loop of \<open>_siftup\<close>; returns the heap and the position\<close>
  "siftup_loop heap pos =
     (let childpos = 2 * pos + 1
      in if childpos < length heap
         then (let rightpos = childpos + 1;
                   childpos = (if rightpos < length heap \<and> \<not> heap ! childpos < heap ! rightpos
                               then rightpos else childpos)
               in siftup_loop (heap[pos := heap ! childpos]) childpos)
         else (heap, pos))"
  by pat_completeness auto
termination
  by (relation "measure (\<lambda>(heap, pos). length heap - pos)") auto

declare siftup_loop.simps [simp del]

definition siftup :: "'a::linorder list \<Rightarrow> nat \<Rightarrow> 'a list" where
  "siftup heap pos =
     (let newitem = heap ! pos
      in case siftup_loop heap pos of
           (heap', pos') \<Rightarrow> siftdown (heap'[pos' := newitem]) pos pos')"

definition heappush :: "'a::linorder list \<Rightarrow> 'a \<Rightarrow> 'a list" where
  "heappush heap item = siftdown (heap @ [item]) 0 (length heap)"

definition heappop :: "'a::linorder list \<Rightarrow> error + 'a \<times> 'a list" where
  \<comment> \<open>returns the item and the heap that is left; \<open>pop\<close> from an empty list raises\<close>
  "heappop heap =
     (if heap = [] then Inl IndexError
      else (let lastelt = last heap; heap' = butlast heap
            in if heap' \<noteq> [] then Inr (heap' ! 0, siftup (heap'[0 := lastelt]) 0)
               else Inr (lastelt, heap')))"

function heap_order :: "'a::linorder list \<Rightarrow> 'a list" where
  \<comment> \<open>the items that \<open>heappop\<close> takes from a list, one call after the other, until the
      list is empty\<close>
  "heap_order heap =
     (case heappop heap of Inl e \<Rightarrow> [] | Inr (item, rest) \<Rightarrow> item # heap_order rest)"
  by pat_completeness auto
termination
proof (relation "measure length")
  show "wf (measure length)" by simp
  fix heap :: "'a list" and popped item rest
  assume a: "heappop heap = Inr popped" "(item, rest) = popped"
  have len_down: "length (siftdown_loop h s p v) = length h" for h :: "'a list" and s p v
    by (induction h s p v rule: siftdown_loop.induct)
       (subst siftdown_loop.simps, simp add: Let_def)
  have len_up: "length (fst (siftup_loop h p)) = length h" for h :: "'a list" and p
    by (induction h p rule: siftup_loop.induct)
       (subst siftup_loop.simps, simp add: Let_def)
  have "length (siftup h p) = length h" for h :: "'a list" and p
  proof -
    obtain h' p' where r: "siftup_loop h p = (h', p')" by (cases "siftup_loop h p")
    have "length h' = length h" using len_up[of h p] r by simp
    then show ?thesis by (simp add: siftup_def siftdown_def len_down Let_def r)
  qed
  then have "length rest < length heap"
    using a by (auto simp: heappop_def Let_def split: if_splits)
  then show "(rest, heap) \<in> measure length" by simp
qed

declare heap_order.simps [simp del]

subsection \<open>add_node and add_tensor\<close>

definition add_node :: "str \<Rightarrow> TensorSemanticGraph \<Rightarrow> TensorSemanticGraph" where
  "add_node name g = nx_add_node name g"

definition edge_key :: "str \<Rightarrow> str \<Rightarrow> str \<Rightarrow> str \<Rightarrow> str" where
  \<comment> \<open>the f-string u, RIGHTWARDS ARROW, v, ":", type, ":", the first 8 characters of a uuid\<close>
  "edge_key u v ty uid = u @ [8594] @ v @ [58] @ ty @ [58] @ uid"

definition detect_conflicts ::
  "store \<Rightarrow> addr \<Rightarrow> edge list \<Rightarrow> str set \<Rightarrow> str set" where
  \<comment> \<open>the first loop of \<open>add_tensor\<close> over the parallel edges\<close>
  "detect_conflicts h a es cz =
     fold (\<lambda>e cz. if rtype (h (e_tensor e)) = rtype (h a)
                      \<and> meaning (h (e_tensor e)) \<noteq> meaning (h a) \<and> certainty (h a) > 0.5
                   then insert (habeas_weight_id (h a))
                          (insert (habeas_weight_id (h (e_tensor e))) cz)
                   else cz) es cz"

definition register_context :: "datetime \<Rightarrow> str \<Rightarrow> TensorSemanticGraph \<Rightarrow> TensorSemanticGraph" where
  "register_context now context_id g =
     (if context_id \<notin> set (keys (context_registry g))
      then g\<lparr>context_registry := AList.update context_id
               \<lparr>cm_created_at = now, tensor_count = 0, registry_avg_certainty = 0\<rparr>
               (context_registry g)\<rparr>
      else g)"

definition insert_new_tensor ::
  "datetime \<Rightarrow> str \<Rightarrow> addr \<Rightarrow> str \<Rightarrow> str \<Rightarrow> str \<Rightarrow> store \<Rightarrow> TensorSemanticGraph \<Rightarrow> TensorSemanticGraph" where
  \<comment> \<open>the last block of \<open>add_tensor\<close>\<close>
  "insert_new_tensor now uid a context_id u v h g =
    (let g1 = nx_add_edge u v (edge_key u v (rtype (h a)) uid) a now context_id g;
         g2 = g1\<lparr>tensor_registry := AList.update (habeas_weight_id (h a)) a (tensor_registry g1)\<rparr>;
         priority = certainty (h a) * (1 - tension (h a));
         g3 = g2\<lparr>dreaming_queue := heappush (dreaming_queue g2) (- priority, u, v),
                  total_activations := total_activations g2 + 1\<rparr>
     in g3\<lparr>context_registry :=
              map (\<lambda>(c, m). if c = context_id then (c, m\<lparr>tensor_count := tensor_count m + 1\<rparr>)
                             else (c, m)) (context_registry g3)\<rparr>)"

definition prepare ::
  "datetime \<Rightarrow> addr \<Rightarrow> str \<Rightarrow> store \<Rightarrow> TensorSemanticGraph \<Rightarrow> TensorSemanticGraph" where
  \<comment> \<open>the first part of \<open>add_tensor\<close>: the endpoints exist, the conflicts are recorded,
      the context is registered\<close>
  "prepare now a context_id h g =
    (let u = source (h a); v = target (h a);
         g1 = (if \<not> has_node g u then add_node u g else g);
         g2 = (if \<not> has_node g1 v then add_node v g1 else g1);
         g3 = g2\<lparr>conflict_zones :=
                   detect_conflicts h a (edges_between g2 u v) (conflict_zones g2)\<rparr>
     in register_context now context_id g3)"

definition add_tensor ::
  "datetime \<Rightarrow> str \<Rightarrow> addr \<Rightarrow> str \<Rightarrow> bool \<Rightarrow> store \<times> TensorSemanticGraph
     \<Rightarrow> store \<times> TensorSemanticGraph \<times> str" where
  \<comment> \<open>\<open>add_tensor(relation, context_id, auto_merge)\<close> with \<open>relation\<close> the object at address
      \<open>a\<close>; \<open>uid\<close> is the uuid fragment of a new edge key. Returns the store, the graph
      and the returned id.\<close>
  "add_tensor now uid a context_id auto_merge hg =
    (case hg of (h, g) \<Rightarrow>
      let u = source (h a); v = target (h a);
          g4 = prepare now a context_id h g;
          h1 = h(a := update_from_context now context_id (certainty (h a)) 0 (h a))
      in case (if auto_merge
               then find (\<lambda>e. rtype (h1 (e_tensor e)) = rtype (h1 a)
                              \<and> meaning (h1 (e_tensor e)) = meaning (h1 a))
                      (edges_between g4 u v)
               else None) of
           Some e \<Rightarrow>
             let x = e_tensor e;
                 h2 = h1(x := update_from_context now context_id (certainty (h1 a)) 0 (h1 x));
                 h3 = (if length (meaning (h2 a)) > length (meaning (h2 x))
                       then h2(x := (h2 x)\<lparr>meaning := meaning (h2 a)\<rparr>) else h2)
             in (h3, g4, habeas_weight_id (h3 x))
         | None \<Rightarrow>
             (h1, insert_new_tensor now uid a context_id u v h1 g4, habeas_weight_id (h1 a)))"

subsection \<open>dreaming_cycle\<close>

text \<open>
  A Python \<open>set\<close> of node names is a list without repetitions; only its elements and
  its size are read.
\<close>

definition neighbor_set :: "TensorSemanticGraph \<Rightarrow> str \<Rightarrow> str list" where
  \<comment> \<open>\<open>set(graph.successors(n)) | set(graph.predecessors(n))\<close>\<close>
  "neighbor_set g n = dedup (successors g n @ predecessors g n)"

definition set_inter :: "str list \<Rightarrow> str list \<Rightarrow> str list" where
  "set_inter xs ys = filter (\<lambda>x. x \<in> set ys) xs"

definition set_union :: "str list \<Rightarrow> str list \<Rightarrow> str list" where
  "set_union xs ys = dedup (xs @ ys)"

definition dream_prefix :: str where
  \<comment> \<open>the Russian word for "Dreaming" and a colon, the prefix of every hypothesis\<close>
  "dream_prefix = [1057, 1085, 1086, 1074, 1080, 1076, 1077, 1085, 1080, 1077, 58]"

definition accepted_prefix :: str where
  \<comment> \<open>"Accepted hypothesis:", in Russian\<close>
  "accepted_prefix =
     [1055, 1088, 1080, 1085, 1103, 1090, 1072, 1103, 32, 1075, 1080, 1087, 1086, 1090, 1077,
      1079, 1072, 58]"

definition common_neighbors_meaning :: "nat \<Rightarrow> str" where
  \<comment> \<open>the f-string of \<open>dreaming_cycle\<close>: "Dreaming: common neighbours (", the count, ")"\<close>
  "common_neighbors_meaning k =
     dream_prefix @ [32, 1086, 1073, 1097, 1080, 1077, 32, 1089, 1086, 1089, 1077, 1076, 1080,
                     32, 40] @ str_of_nat k @ [41]"

definition cycle_suggestion ::
  "datetime \<Rightarrow> str \<Rightarrow> str \<Rightarrow> str \<Rightarrow> nat \<Rightarrow> real \<Rightarrow> RelationTensor" where
  \<comment> \<open>the hypothetical tensor of \<open>dreaming_cycle\<close>, marked after its construction\<close>
  "cycle_suggestion now hw u v k similarity =
     (new_tensor hw now u v lambda_type (common_neighbors_meaning k) [] similarity 0.1)
       \<lparr>ethical_status := ascii ''dreaming''\<rparr>"

fun dreaming_loop ::
  "TensorSemanticGraph \<Rightarrow> datetime \<Rightarrow> (nat \<Rightarrow> str) \<Rightarrow> int \<Rightarrow> (real \<times> str \<times> str) list
     \<Rightarrow> RelationTensor list \<Rightarrow> (str \<times> str) set \<Rightarrow> error + RelationTensor list" where
  \<comment> \<open>the \<open>while\<close> loop over the popped queue entries; \<open>successors\<close> of a name that is
      not a node raises \<open>NetworkXError\<close>; \<open>ids k\<close> is the id generated for the k-th
      suggestion\<close>
  "dreaming_loop g now ids max_suggestions [] suggestions processed_pairs = Inr suggestions"
| "dreaming_loop g now ids max_suggestions (entry # temp_queue) suggestions processed_pairs =
    (case entry of (priority, u, v) \<Rightarrow>
      if \<not> int (length suggestions) < max_suggestions then Inr suggestions
      else if (u, v) \<in> processed_pairs
        then dreaming_loop g now ids max_suggestions temp_queue suggestions processed_pairs
      else if has_edge g u v \<or> has_edge g v u
        then dreaming_loop g now ids max_suggestions temp_queue suggestions
               (insert (u, v) processed_pairs)
      else if \<not> has_node g u \<or> \<not> has_node g v then Inl NetworkXError
      else
        (let u_neighbors = neighbor_set g u; v_neighbors = neighbor_set g v
         in if u_neighbors = [] \<or> v_neighbors = []
            then dreaming_loop g now ids max_suggestions temp_queue suggestions
                   (insert (u, v) processed_pairs)
            else
              (let intersection = length (set_inter u_neighbors v_neighbors);
                   union = length (set_union u_neighbors v_neighbors);
                   similarity = (if union > 0 then real intersection / real union else 0)
               in if similarity > 0.3
                  then dreaming_loop g now ids max_suggestions temp_queue
                         (suggestions @
                            [cycle_suggestion now (ids (length suggestions)) u v intersection
                               similarity])
                         (insert (u, v) processed_pairs)
                  else dreaming_loop g now ids max_suggestions temp_queue suggestions
                         (insert (u, v) processed_pairs))))"

definition dreaming_cycle ::
  "datetime \<Rightarrow> (nat \<Rightarrow> str) \<Rightarrow> int \<Rightarrow> TensorSemanticGraph
     \<Rightarrow> error + RelationTensor list \<times> TensorSemanticGraph" where
  \<comment> \<open>the loop runs over the entries that \<open>heappop\<close> takes from the copy of the queue;
      the queue itself is left as it is\<close>
  "dreaming_cycle now ids max_suggestions g =
    (if length (nodes g) < 3 then Inr ([], g)
     else case dreaming_loop g now ids max_suggestions (heap_order (dreaming_queue g)) [] {} of
            Inl e \<Rightarrow> Inl e
          | Inr suggestions \<Rightarrow> Inr (suggestions, g\<lparr>last_dreaming := Some now\<rparr>))"

subsection \<open>load_from_yaml\<close>

text \<open>
  The parsed document: the names of its \<open>nodes\<close> mapping, in order, and its \<open>edges\<close>
  list, each entry a dictionary with the keys that \<open>to_dict\<close> writes, held as a record
  of those fields.
\<close>

record document =
  doc_nodes :: "str list"
  doc_edges :: "RelationTensor list"

definition from_dict :: "datetime \<Rightarrow> str \<Rightarrow> RelationTensor \<Rightarrow> RelationTensor" where
  \<comment> \<open>the constructor call on seven of the fields, then \<open>setattr\<close> for every other key\<close>
  "from_dict now hw data =
    (let tensor = new_tensor hw now (source data) (target data) (rtype data) (meaning data)
                    (intention data) (certainty data) (tension data)
     in tensor\<lparr>intention := intention data,
               coherence_contribution := coherence_contribution data,
               certainty_by_context := certainty_by_context data,
               tension_by_context := tension_by_context data,
               habeas_weight_id := habeas_weight_id data,
               ethical_status := ethical_status data,
               lifespan := lifespan data,
               activation_count := activation_count data,
               last_activated := last_activated data,
               created_at := created_at data,
               updated_at := updated_at data,
               parent_tensors := parent_tensors data,
               child_tensors := child_tensors data,
               suggested := suggested data\<rparr>)"

definition restored_context :: str where
  "restored_context = ascii ''restored_from_yaml''"

fun replay_edges ::
  "datetime \<Rightarrow> (nat \<Rightarrow> str) \<Rightarrow> (nat \<Rightarrow> str) \<Rightarrow> (nat \<Rightarrow> addr) \<Rightarrow> nat \<Rightarrow> RelationTensor list
     \<Rightarrow> store \<times> TensorSemanticGraph \<Rightarrow> store \<times> TensorSemanticGraph" where
  \<comment> \<open>the loop over \<open>data["edges"]\<close>: the k-th entry becomes a new object at the address
      \<open>fresh k\<close>, with generated id \<open>hws k\<close> and edge-key fragment \<open>uids k\<close>\<close>
  "replay_edges now hws uids fresh k [] hg = hg"
| "replay_edges now hws uids fresh k (edge_data # rest) hg =
    (case hg of (h, g) \<Rightarrow>
      (case add_tensor now (uids k) (fresh k) restored_context True
              (h(fresh k := from_dict now (hws k) edge_data), g) of
         (h', g', rid) \<Rightarrow> replay_edges now hws uids fresh (Suc k) rest (h', g')))"

definition load_from_yaml ::
  "datetime \<Rightarrow> (nat \<Rightarrow> str) \<Rightarrow> (nat \<Rightarrow> str) \<Rightarrow> (nat \<Rightarrow> addr) \<Rightarrow> document
     \<Rightarrow> store \<times> TensorSemanticGraph \<Rightarrow> store \<times> TensorSemanticGraph" where
  "load_from_yaml now hws uids fresh doc hg =
    (case hg of (h, g) \<Rightarrow>
       replay_edges now hws uids fresh 0 (doc_edges doc)
         (h, fold nx_add_node (doc_nodes doc) (g\<lparr>nodes := [], edges := []\<rparr>)))"

section \<open>dreaming.py: the DreamingEngine\<close>

record DreamingEngine =
  total_suggestions :: int
  engine_last_dreaming :: "datetime option"

fun all_pairs :: "'a list \<Rightarrow> ('a \<times> 'a) list" where
  \<comment> \<open>the pairs \<open>(xs[i], xs[j])\<close> with \<open>i < j\<close>, in the order of the two nested loops\<close>
  "all_pairs [] = []"
| "all_pairs (x # xs) = map (Pair x) xs @ all_pairs xs"

definition calculate_structural_hole ::
  "TensorSemanticGraph \<Rightarrow> str \<Rightarrow> str \<Rightarrow> str \<Rightarrow> real" where
  \<comment> \<open>the degree of a name that is not a node raises, and the \<open>except\<close> returns 0.0\<close>
  "calculate_structural_hole g broker node_a node_b =
    (if \<not> has_node g broker then 0
     else if degree g broker < 2 then 0
     else
       (let neighbors = successors g broker;
            total_pairs = length (all_pairs neighbors);
            connected_pairs =
              length (filter (\<lambda>(n1, n2). has_edge g n1 n2 \<or> has_edge g n2 n1)
                        (all_pairs neighbors));
            constraint = (if total_pairs = 0 then 0
                          else real connected_pairs / real total_pairs)
        in 1 - constraint))"

definition jaccard_similarity :: "TensorSemanticGraph \<Rightarrow> str \<Rightarrow> str \<Rightarrow> real" where
  "jaccard_similarity g node_a node_b =
    (if \<not> has_node g node_a \<or> \<not> has_node g node_b then 0
     else
       (let neighbors_a = neighbor_set g node_a; neighbors_b = neighbor_set g node_b
        in if neighbors_a = [] \<and> neighbors_b = [] then 0
           else
             (let intersection = length (set_inter neighbors_a neighbors_b);
                  union = length (set_union neighbors_a neighbors_b)
              in if union > 0 then real intersection / real union else 0)))"

fun collect :: "('a \<Rightarrow> error + 'b list) \<Rightarrow> 'a list \<Rightarrow> error + 'b list" where
  \<comment> \<open>a \<open>for\<close> loop that appends to one list and stops at the first exception\<close>
  "collect f [] = Inr []"
| "collect f (x # xs) =
     (case f x of Inl e \<Rightarrow> Inl e
      | Inr ys \<Rightarrow> (case collect f xs of Inl e \<Rightarrow> Inl e | Inr zs \<Rightarrow> Inr (ys @ zs)))"

definition hop_certainty :: "TensorSemanticGraph \<Rightarrow> str \<Rightarrow> str \<Rightarrow> error + real" where
  \<comment> \<open>\<open>graph[u][v]\<close> of the multigraph maps edge keys to attribute dictionaries, so
      \<open>.get('tensor')\<close> looks for an edge whose key is the string "tensor": without one the
      default 0.7 stands; with one, \<open>.certainty\<close> of its attribute dictionary raises\<close>
  "hop_certainty g u v =
    (if has_edge g u v \<and> list_ex (\<lambda>e. e_key e = ascii ''tensor'') (edges_between g u v)
     then Inl AttributeError else Inr 0.7)"

definition path_candidate ::
  "TensorSemanticGraph \<Rightarrow> str \<Rightarrow> str \<Rightarrow> str \<Rightarrow> error + (str \<times> str \<times> real) list" where
  "path_candidate g start mid end =
    (if start \<noteq> end \<and> \<not> has_edge g start end
     then (case hop_certainty g start mid of Inl e \<Rightarrow> Inl e
           | Inr cert1 \<Rightarrow>
              (case hop_certainty g mid end of Inl e \<Rightarrow> Inl e
               | Inr cert2 \<Rightarrow>
                  (let confidence = (cert1 + cert2) / 2
                   in if confidence > 0.5 then Inr [(start, end, confidence)] else Inr [])))
     else Inr [])"

definition find_incomplete_paths ::
  "TensorSemanticGraph \<Rightarrow> error + (str \<times> str \<times> real) list" where
  "find_incomplete_paths g =
     collect (\<lambda>start.
       collect (\<lambda>mid.
         collect (\<lambda>end. path_candidate g start mid end) (successors g mid))
         (successors g start))
       (nodes g)"

subsection \<open>generate_suggestions\<close>

text \<open>
  The state of the three strategies is the list \<open>suggestions\<close> and the set
  \<open>processed_pairs\<close>. A loop body returns the new state and whether it ends in
  \<open>break\<close>. \<open>ids k\<close> is the id generated for the k-th tensor built, and \<open>fmt\<close> renders a
  float under the format specification \<open>.2f\<close>.
\<close>

type_synonym gen_state = "RelationTensor list \<times> (str \<times> str) set"

fun for_break :: "('a \<Rightarrow> 's \<Rightarrow> 's \<times> bool) \<Rightarrow> 'a list \<Rightarrow> 's \<Rightarrow> 's" where
  "for_break body [] s = s"
| "for_break body (x # xs) s =
     (case body x s of (s', brk) \<Rightarrow> if brk then s' else for_break body xs s')"

fun for_pairs :: "('a \<Rightarrow> 'a \<Rightarrow> 's \<Rightarrow> 's \<times> bool) \<Rightarrow> ('s \<Rightarrow> bool) \<Rightarrow> 'a list \<Rightarrow> 's \<Rightarrow> 's" where
  \<comment> \<open>\<open>for i in range(len(xs)): for j in range(i + 1, len(xs)): body; if full: break\<close>\<close>
  "for_pairs body full [] s = s"
| "for_pairs body full (a # rest) s =
     (let s' = for_break (body a) rest s in if full s' then s' else for_pairs body full rest s')"

definition full :: "int \<Rightarrow> gen_state \<Rightarrow> bool" where
  \<comment> \<open>\<open>len(suggestions) >= max_suggestions\<close>\<close>
  "full max_suggestions st = (int (length (fst st)) \<ge> max_suggestions)"

definition dream_tensor ::
  "datetime \<Rightarrow> str \<Rightarrow> str \<Rightarrow> str \<Rightarrow> str \<Rightarrow> real \<Rightarrow> real \<Rightarrow> RelationTensor" where
  \<comment> \<open>the constructor call of the engine, \<open>ethical_status="dreaming"\<close> among its arguments\<close>
  "dream_tensor now hw a b mng c tn =
     post_init now
       ((tensor_fields hw now a b lambda_type mng [] c tn)\<lparr>ethical_status := ascii ''dreaming''\<rparr>)"

definition hole_meaning :: "str \<Rightarrow> str" where
  \<comment> \<open>"Dreaming: structural hole via " and the broker\<close>
  "hole_meaning broker =
     dream_prefix @ [32, 1089, 1090, 1088, 1091, 1082, 1090, 1091, 1088, 1085, 1072, 1103, 32,
                     1076, 1099, 1088, 1072, 32, 1095, 1077, 1088, 1077, 1079, 32] @ broker"

definition similarity_meaning :: "(real \<Rightarrow> str) \<Rightarrow> real \<Rightarrow> str" where
  \<comment> \<open>"Dreaming: similarity of neighbours (J=", the formatted similarity, ")"\<close>
  "similarity_meaning fmt similarity =
     dream_prefix @ [32, 1089, 1093, 1086, 1076, 1089, 1090, 1074, 1086, 32, 1089, 1086, 1089,
                     1077, 1076, 1077, 1081, 32, 40, 74, 61] @ fmt similarity @ [41]"

definition completion_meaning :: str where
  \<comment> \<open>"Dreaming: completion of a path through an intermediate node"\<close>
  "completion_meaning =
     dream_prefix @ [32, 1079, 1072, 1074, 1077, 1088, 1096, 1077, 1085, 1080, 1077, 32, 1087,
                     1091, 1090, 1080, 32, 1095, 1077, 1088, 1077, 1079, 32, 1087, 1088, 1086,
                     1084, 1077, 1078, 1091, 1090, 1086, 1095, 1085, 1099, 1081, 32, 1091, 1079,
                     1077, 1083]"

definition emit :: "int \<Rightarrow> RelationTensor \<Rightarrow> gen_state \<Rightarrow> gen_state \<times> bool" where
  \<comment> \<open>\<open>suggestions.append(suggestion); processed_pairs.add((a, b))\<close> and the test for
      \<open>break\<close> that follows\<close>
  "emit max_suggestions suggestion st =
     (case st of (suggestions, processed_pairs) \<Rightarrow>
        ((suggestions @ [suggestion],
          insert (source suggestion, target suggestion) processed_pairs),
         int (length suggestions) + 1 \<ge> max_suggestions))"

definition hole_step ::
  "TensorSemanticGraph \<Rightarrow> datetime \<Rightarrow> (nat \<Rightarrow> str) \<Rightarrow> int \<Rightarrow> str \<Rightarrow> str \<Rightarrow> str \<Rightarrow> gen_state
     \<Rightarrow> gen_state \<times> bool" where
  "hole_step g now ids max_suggestions broker a b st =
    (if (a, b) \<in> snd st \<or> (b, a) \<in> snd st then (st, False)
     else if has_edge g a b \<or> has_edge g b a then (st, False)
     else
       (let significance = calculate_structural_hole g broker a b
        in if significance > 0.4
           then emit max_suggestions
                  (dream_tensor now (ids (length (fst st))) a b (hole_meaning broker)
                     significance 0.1) st
           else (st, False)))"

definition structural_holes ::
  "TensorSemanticGraph \<Rightarrow> datetime \<Rightarrow> (nat \<Rightarrow> str) \<Rightarrow> int \<Rightarrow> gen_state \<Rightarrow> gen_state" where
  "structural_holes g now ids max_suggestions st =
     for_break
       (\<lambda>broker st.
          (let neighbors = successors g broker
           in if length neighbors < 2 then (st, False)
              else (let st' = for_pairs (hole_step g now ids max_suggestions broker)
                                (full max_suggestions) neighbors st
                    in (st', full max_suggestions st'))))
       (nodes g) st"

definition similarity_step ::
  "(real \<Rightarrow> str) \<Rightarrow> TensorSemanticGraph \<Rightarrow> datetime \<Rightarrow> (nat \<Rightarrow> str) \<Rightarrow> int \<Rightarrow> str \<Rightarrow> str
     \<Rightarrow> gen_state \<Rightarrow> gen_state \<times> bool" where
  "similarity_step fmt g now ids max_suggestions a b st =
    (if (a, b) \<in> snd st \<or> has_edge g a b then (st, False)
     else
       (let similarity = jaccard_similarity g a b
        in if similarity > 0.35
           then emit max_suggestions
                  (dream_tensor now (ids (length (fst st))) a b
                     (similarity_meaning fmt similarity) similarity 0.05) st
           else (st, False)))"

definition neighbor_similarity ::
  "(real \<Rightarrow> str) \<Rightarrow> TensorSemanticGraph \<Rightarrow> datetime \<Rightarrow> (nat \<Rightarrow> str) \<Rightarrow> int \<Rightarrow> gen_state
     \<Rightarrow> gen_state" where
  "neighbor_similarity fmt g now ids max_suggestions st =
    (if int (length (fst st)) < max_suggestions
     then for_pairs (similarity_step fmt g now ids max_suggestions) (full max_suggestions)
            (nodes g) st
     else st)"

definition completion_step ::
  "datetime \<Rightarrow> (nat \<Rightarrow> str) \<Rightarrow> int \<Rightarrow> str \<times> str \<times> real \<Rightarrow> gen_state \<Rightarrow> gen_state \<times> bool" where
  "completion_step now ids max_suggestions cand st =
    (case cand of (a, b, conf) \<Rightarrow>
       if (a, b) \<in> snd st then (st, False)
       else emit max_suggestions
              (dream_tensor now (ids (length (fst st))) a b completion_meaning conf 0.05) st)"

definition path_completion ::
  "TensorSemanticGraph \<Rightarrow> datetime \<Rightarrow> (nat \<Rightarrow> str) \<Rightarrow> int \<Rightarrow> gen_state \<Rightarrow> error + gen_state" where
  "path_completion g now ids max_suggestions st =
    (if int (length (fst st)) < max_suggestions
     then (case find_incomplete_paths g of Inl e \<Rightarrow> Inl e
           | Inr incomplete \<Rightarrow>
               Inr (for_break (completion_step now ids max_suggestions) incomplete st))
     else Inr st)"

definition generate_suggestions ::
  "(real \<Rightarrow> str) \<Rightarrow> datetime \<Rightarrow> (nat \<Rightarrow> str) \<Rightarrow> int \<Rightarrow> TensorSemanticGraph \<Rightarrow> DreamingEngine
     \<Rightarrow> error + RelationTensor list \<times> DreamingEngine" where
  "generate_suggestions fmt now ids max_suggestions g engine =
    (case path_completion g now ids max_suggestions
            (neighbor_similarity fmt g now ids max_suggestions
               (structural_holes g now ids max_suggestions ([], {}))) of
       Inl e \<Rightarrow> Inl e
     | Inr st \<Rightarrow>
         Inr (py_slice_to max_suggestions (fst st),
              engine\<lparr>total_suggestions := total_suggestions engine + int (length (fst st)),
                     engine_last_dreaming := Some now\<rparr>))"

definition accept_suggestion ::
  "datetime \<Rightarrow> str \<Rightarrow> addr \<Rightarrow> str \<Rightarrow> store \<times> TensorSemanticGraph
     \<Rightarrow> error + store \<times> TensorSemanticGraph" where
  \<comment> \<open>\<open>accept_suggestion(tensor, context_id)\<close> with \<open>tensor\<close> the object at address \<open>a\<close>\<close>
  "accept_suggestion now uid a context_id hg =
    (case hg of (h, g) \<Rightarrow>
      if ethical_status (h a) \<noteq> ascii ''dreaming'' then Inl ValueError
      else
        (case add_tensor now uid a context_id True
                (h(a := (h a)\<lparr>ethical_status := ascii ''active'',
                               meaning := str_replace dream_prefix accepted_prefix
                                            (meaning (h a))\<rparr>), g) of
           (h', g', rid) \<Rightarrow> Inr (h', g')))"

section \<open>coherence.py: the CoherenceEngine\<close>

text \<open>
  The history of the \<open>CoherenceEngine\<close> is its list of (instant, global coherence)
  pairs. The returned dictionary has the keys \<open>trend\<close>, \<open>change\<close> and \<open>data_points\<close>,
  and on its last path also \<open>first\<close>, \<open>last\<close> and \<open>window_hours\<close>.
\<close>

record trend_result =
  trend :: str
  change :: real
  data_points :: nat
  first_last :: "(real \<times> real) option"
  window :: "int option"

definition get_coherence_trend ::
  "datetime \<Rightarrow> int \<Rightarrow> (datetime \<times> real) list \<Rightarrow> trend_result" where
  "get_coherence_trend now window_hours history =
    (if history = []
     then \<lparr>trend = ascii ''stable'', change = 0, data_points = 0, first_last = None,
           window = None\<rparr>
     else
       (let cutoff = now - timedelta_hours window_hours;
            recent = filter (\<lambda>(t, c). t \<ge> cutoff) history
        in if length recent < 2
           then \<lparr>trend = ascii ''insufficient_data'', change = 0,
                 data_points = length recent, first_last = None, window = None\<rparr>
           else
             (let first = snd (hd recent); last = snd (last recent);
                  change = last - first
              in \<lparr>trend = (if change > 0.05 then ascii ''improving''
                            else if change < - 0.05 then ascii ''degrading''
                            else ascii ''stable''),
                  change = change, data_points = length recent,
                  first_last = Some (first, last), window = Some window_hours\<rparr>)))"

subsection \<open>calculate_global_coherence\<close>

text \<open>
  The density of the graph and the number of its weakly connected components are results
  of networkx, taken as arguments; \<open>math.log1p(n)\<close> is the natural logarithm of 1 + n.
\<close>

record coherence_result =
  global :: real
  structural :: real
  semantic :: real
  tension_penalty :: real
  high_tension_relations :: nat
  status :: str

definition clamp_unit :: "real \<Rightarrow> real" where
  \<comment> \<open>\<open>max(0.0, min(1.0, x))\<close>\<close>
  "clamp_unit x = max 0 (min 1 x)"

definition calculate_structural_coherence :: "TensorSemanticGraph \<Rightarrow> real \<Rightarrow> nat \<Rightarrow> real" where
  "calculate_structural_coherence g density components =
    (let component_score = (if length (nodes g) = 0 then 1 else 1 / real (max 1 components));
         structural = density * 0.4 + component_score * 0.6
     in clamp_unit structural)"

definition calculate_semantic_coherence ::
  "store \<Rightarrow> TensorSemanticGraph \<Rightarrow> real \<times> real \<times> nat" where
  "calculate_semantic_coherence h g =
    (let tensors = map (\<lambda>e. h (e_tensor e)) (edges g);
         total_certainty = sum_list (map certainty tensors);
         total_tension = length (filter (\<lambda>t. tension t > 0.7) tensors);
         edge_count = length tensors;
         avg_certainty = (if edge_count > 0 then total_certainty / real edge_count else 1)
     in (avg_certainty, avg_certainty, total_tension))"

definition calculate_tension_penalty :: "nat \<Rightarrow> real" where
  "calculate_tension_penalty high_tension_count =
    (if high_tension_count = 0 then 0
     else min 1 (ln (1 + real high_tension_count) / 10))"

definition get_status :: "real \<Rightarrow> str" where
  "get_status coherence =
    (if coherence \<ge> 0.7 then ascii ''healthy''
     else if coherence \<ge> 0.4 then ascii ''warning''
     else if coherence \<ge> 0.2 then ascii ''crisis''
     else ascii ''collapse'')"

definition calculate_global_coherence ::
  "datetime \<Rightarrow> real \<Rightarrow> nat \<Rightarrow> store \<Rightarrow> TensorSemanticGraph \<Rightarrow> (datetime \<times> real) list
     \<Rightarrow> coherence_result \<times> (datetime \<times> real) list" where
  \<comment> \<open>returns the result and the history; the empty graph leaves the history as it is\<close>
  "calculate_global_coherence now density components h g history =
    (if length (nodes g) = 0
     then (\<lparr>global = 1, structural = 1, semantic = 1, tension_penalty = 0,
             high_tension_relations = 0, status = ascii ''empty''\<rparr>, history)
     else
       (let structural = calculate_structural_coherence g density components;
            (semantic, total_certainty, total_tension) = calculate_semantic_coherence h g;
            penalty = calculate_tension_penalty total_tension;
            global_coherence =
              clamp_unit (structural * 0.3 + semantic * 0.5 + (1 - penalty) * 0.2);
            history1 = history @ [(now, global_coherence)];
            history2 = (if length history1 > 1000
                        then drop (length history1 - 500) history1 else history1)
        in (\<lparr>global = global_coherence, structural = structural, semantic = semantic,
              tension_penalty = penalty, high_tension_relations = total_tension,
              status = get_status global_coherence\<rparr>, history2)))"

section \<open>rql_parser.py: the path query\<close>

text \<open>
  The module names \<open>field\<close> in the dataclass \<open>RQLQuery\<close> without importing it, so it does
  not load as it stands. The query record and \<open>_execute_path_query\<close> are embedded as they
  read.
\<close>

record RQLQuery =
  query_type :: str
  q_source :: "str option"
  q_target :: "str option"
  max_length :: int
  min_coherence :: real

definition path_query :: "str \<Rightarrow> str \<Rightarrow> int \<Rightarrow> real \<Rightarrow> RQLQuery" where
  \<comment> \<open>the query that \<open>parse\<close> builds for the keyword QUERY\<close>
  "path_query src tgt n c =
     \<lparr>query_type = ascii ''path'', q_source = Some src, q_target = Some tgt, max_length = n,
      min_coherence = c\<rparr>"

record path_edge =
  subject :: str
  object :: str
  edge_certainty :: real

record found_path =
  path :: "str list"
  path_edges :: "path_edge list"
  avg_certainty :: real

record path_result =
  r_source :: str
  r_target :: str
  paths_found :: nat
  paths :: "found_path list"
  coherence_threshold :: real

definition find_paths ::
  "store \<Rightarrow> TensorSemanticGraph \<Rightarrow> str \<Rightarrow> str \<Rightarrow> int \<Rightarrow> error + path_edge list list" where
  \<comment> \<open>\<open>self.graph.find_paths(start=..., end=..., max_length=...)\<close>: the class
      \<open>TensorSemanticGraph\<close> defines \<open>add_node\<close>, \<open>add_tensor\<close>, \<open>get_tensor\<close>, \<open>dreaming_cycle\<close>,
      \<open>accept_dream\<close>, \<open>export_to_yaml\<close> and \<open>load_from_yaml\<close>, and its constructor sets no
      attribute of that name: the lookup raises \<open>AttributeError\<close>\<close>
  "find_paths h g start end n = Inl AttributeError"

definition falsy :: "str option \<Rightarrow> bool" where
  \<comment> \<open>\<open>not x\<close> for an optional string: \<open>None\<close> or the empty string\<close>
  "falsy x = (case x of None \<Rightarrow> True | Some s \<Rightarrow> s = [])"

definition found :: "path_edge list \<Rightarrow> real \<Rightarrow> found_path" where
  "found p avg =
     \<lparr>path = (if p \<noteq> [] then map subject p @ [object (last p)] else []),
      path_edges = p, avg_certainty = avg\<rparr>"

definition path_average :: "path_edge list \<Rightarrow> real" where
  \<comment> \<open>\<open>sum(edge['certainty'] for edge in path) / len(path) if path else 0\<close>\<close>
  "path_average p = (if p \<noteq> [] then sum_list (map edge_certainty p) / real (length p) else 0)"

definition filter_paths :: "RQLQuery \<Rightarrow> path_edge list list \<Rightarrow> path_result" where
  \<comment> \<open>what follows the call in \<open>_execute_path_query\<close>: the loop that keeps the paths of
      sufficient mean certainty, and the returned dictionary\<close>
  "filter_paths query found_paths =
     (let filtered_paths =
            map (\<lambda>p. found p (path_average p))
              (filter (\<lambda>p. path_average p \<ge> min_coherence query) found_paths)
      in \<lparr>r_source = the (q_source query), r_target = the (q_target query),
          paths_found = length filtered_paths, paths = take 5 filtered_paths,
          coherence_threshold = min_coherence query\<rparr>)"

definition execute_path_query ::
  "store \<Rightarrow> TensorSemanticGraph \<Rightarrow> RQLQuery \<Rightarrow> error + path_result" where
  "execute_path_query h g query =
    (if falsy (q_source query) \<or> falsy (q_target query) then Inl ValueError
     else case find_paths h g (the (q_source query)) (the (q_target query)) (max_length query) of
            Inl e \<Rightarrow> Inl e
          | Inr found_paths \<Rightarrow> Inr (filter_paths query found_paths))"

section \<open>The vocabulary of the properties\<close>

text \<open>
  A value lies in the unit interval; a record keeps its values there; its global
  confidence is the arithmetic mean of its per-context confidences; its global tension is
  the maximum of its per-context tensions, when there are any.
\<close>

definition unit :: "real \<Rightarrow> bool" where
  "unit x = (0 \<le> x \<and> x \<le> 1)"

definition in_unit_range :: "RelationTensor \<Rightarrow> bool" where
  "in_unit_range t =
     (unit (certainty t) \<and> unit (tension t)
      \<and> list_all unit (dict_values (certainty_by_context t))
      \<and> list_all unit (dict_values (tension_by_context t)))"

definition confidence_is_mean :: "RelationTensor \<Rightarrow> bool" where
  "confidence_is_mean t =
     (certainty_by_context t \<noteq> []
      \<and> certainty t = mean_values (dict_values (certainty_by_context t)))"

definition tension_is_max :: "RelationTensor \<Rightarrow> bool" where
  "tension_is_max t =
     (tension_by_context t \<noteq> [] \<longrightarrow>
        tension t = max_values (dict_values (tension_by_context t)))"

definition example_tensor :: "string \<Rightarrow> string \<Rightarrow> string \<Rightarrow> string \<Rightarrow> real \<Rightarrow> RelationTensor" where
  \<comment> \<open>\<open>RelationTensor(source, target, meaning=..., certainty=...)\<close> built at instant 0\<close>
  "example_tensor hw src tgt mng c =
     new_tensor (ascii hw) 0 (ascii src) (ascii tgt) lambda_type (ascii mng) [] c 0"

definition bare_tensor :: RelationTensor where
  \<comment> \<open>\<open>RelationTensor("A", "B", meaning="x", certainty=0.5, certainty_by_context={"c1": 0.5})\<close>\<close>
  "bare_tensor =
     post_init 0
       ((tensor_fields (ascii ''HW_a'') 0 (ascii ''A'') (ascii ''B'') lambda_type (ascii ''x'') []
           0.5 0)\<lparr>certainty_by_context := [(ascii ''c1'', 0.5)]\<rparr>)"

text \<open>
  The incoming record after the update that \<open>add_tensor\<close> applies to it, and the test of
  the merge loop: a stored edge whose record has the type and the meaning of the incoming
  one.
\<close>

definition incoming :: "datetime \<Rightarrow> addr \<Rightarrow> str \<Rightarrow> store \<Rightarrow> store" where
  "incoming now a context_id h =
     h(a := update_from_context now context_id (certainty (h a)) 0 (h a))"

definition matches :: "store \<Rightarrow> addr \<Rightarrow> edge \<Rightarrow> bool" where
  "matches h a e = (rtype (h (e_tensor e)) = rtype (h a) \<and> meaning (h (e_tensor e)) = meaning (h a))"

text \<open>
  The scenario of the properties: the nodes A, B and C, then the edges from A to B
  (meaning x) and from B to C (meaning y), both of type lambda and confidence 0.9, inserted
  by \<open>add_tensor\<close> in the context \<open>global\<close>. The records are the objects at the
  addresses 10 and 20; a third record from A to B with the meaning x is at 30.
\<close>

definition example_store :: store where
  "example_store =
     (\<lambda>_. example_tensor ''HW_0'' ''A'' ''A'' '''' 0)
       (10 := example_tensor ''HW_ab'' ''A'' ''B'' ''x'' 0.9,
        20 := example_tensor ''HW_bc'' ''B'' ''C'' ''y'' 0.9,
        30 := example_tensor ''HW_ab2'' ''A'' ''B'' ''x'' 0.9)"

definition then_add ::
  "datetime \<Rightarrow> str \<Rightarrow> addr \<Rightarrow> str \<Rightarrow> store \<times> TensorSemanticGraph \<Rightarrow> store \<times> TensorSemanticGraph" where
  "then_add now uid a context_id hg =
     (case add_tensor now uid a context_id True hg of (h, g, rid) \<Rightarrow> (h, g))"

definition scenario :: "store \<times> TensorSemanticGraph" where
  "scenario =
     then_add 0 (ascii ''0000000b'') 20 (ascii ''global'')
       (then_add 0 (ascii ''0000000a'') 10 (ascii ''global'')
          (example_store,
           add_node (ascii ''C'') (add_node (ascii ''B'') (add_node (ascii ''A'') empty_graph))))"

definition edge_ab :: edge where
  "edge_ab = \<lparr>e_src = ascii ''A'', e_dst = ascii ''B'',
              e_key = edge_key (ascii ''A'') (ascii ''B'') lambda_type (ascii ''0000000a''),
              e_tensor = 10, e_created_at = 0, e_context_id = ascii ''global''\<rparr>"

definition edge_bc :: edge where
  "edge_bc = \<lparr>e_src = ascii ''B'', e_dst = ascii ''C'',
              e_key = edge_key (ascii ''B'') (ascii ''C'') lambda_type (ascii ''0000000b''),
              e_tensor = 20, e_created_at = 0, e_context_id = ascii ''global''\<rparr>"

text \<open>
  The history points inside the window of \<open>get_coherence_trend\<close>.
\<close>

definition recent_points :: "datetime \<Rightarrow> int \<Rightarrow> (datetime \<times> real) list \<Rightarrow> (datetime \<times> real) list" where
  "recent_points now window_hours history =
     filter (\<lambda>(t, c). t \<ge> now - timedelta_hours window_hours) history"

text \<open>
  No suggestion of a list joins a source to a target that the graph already joins by an
  edge in that direction; none joins two nodes that the graph joins in either direction.
\<close>

definition no_forward_edge :: "TensorSemanticGraph \<Rightarrow> RelationTensor list \<Rightarrow> bool" where
  "no_forward_edge g suggestions =
     list_all (\<lambda>s. \<not> has_edge g (source s) (target s)) suggestions"

definition no_edge_between :: "TensorSemanticGraph \<Rightarrow> RelationTensor list \<Rightarrow> bool" where
  "no_edge_between g suggestions =
     list_all (\<lambda>s. \<not> has_edge g (source s) (target s) \<and> \<not> has_edge g (target s) (source s))
       suggestions"

text \<open>
  Two graphs for the link prediction, given by the nodes, edges and queue that it reads.
  The triangle has the edges from A to B, from B to C and from C to A. The stale graph
  has the edges from A to X and Y and from C to X and Z, and its queue still holds the
  pair (A, C), an edge of the graph that an import has cleared (\<open>load_from_yaml\<close> clears
  the nodes and edges and keeps the queue). The dream store holds a suggestion of
  \<open>dreaming_cycle\<close> at every address.
\<close>

definition plain_edge :: "string \<Rightarrow> string \<Rightarrow> string \<Rightarrow> addr \<Rightarrow> edge" where
  "plain_edge u v uid a =
     \<lparr>e_src = ascii u, e_dst = ascii v,
      e_key = edge_key (ascii u) (ascii v) lambda_type (ascii uid), e_tensor = a,
      e_created_at = 0, e_context_id = ascii ''global''\<rparr>"

definition triangle :: TensorSemanticGraph where
  "triangle =
     empty_graph
       \<lparr>nodes := [ascii ''A'', ascii ''B'', ascii ''C''],
        edges := [plain_edge ''A'' ''B'' ''0000000a'' 10, plain_edge ''B'' ''C'' ''0000000b'' 20,
                  plain_edge ''C'' ''A'' ''0000000c'' 30]\<rparr>"

definition idle_engine :: DreamingEngine where
  "idle_engine = \<lparr>total_suggestions = 0, engine_last_dreaming = None\<rparr>"

definition stale_graph :: TensorSemanticGraph where
  "stale_graph =
     empty_graph
       \<lparr>nodes := [ascii ''A'', ascii ''X'', ascii ''Y'', ascii ''C'', ascii ''Z''],
        edges := [plain_edge ''A'' ''X'' ''0000000a'' 10, plain_edge ''A'' ''Y'' ''0000000b'' 20,
                  plain_edge ''C'' ''X'' ''0000000c'' 30, plain_edge ''C'' ''Z'' ''0000000d'' 40],
        dreaming_queue := [(- 0.9, ascii ''A'', ascii ''C''), (- 0.9, ascii ''A'', ascii ''X''),
                           (- 0.9, ascii ''A'', ascii ''Y''), (- 0.9, ascii ''C'', ascii ''X''),
                           (- 0.9, ascii ''C'', ascii ''Z'')]\<rparr>"

definition dream_store :: store where
  "dream_store = (\<lambda>x. cycle_suggestion 0 (ascii ''HW_d'') (ascii ''A'') (ascii ''C'') 1 (1 / 3))"

text \<open>
  The neighbour-similarity strategy of the engine in closed form. Its candidates are the
  pairs of nodes in the order of the two nested loops; a candidate is similar when it is
  not yet processed, has no edge from its first to its second node, and its Jaccard
  similarity is greater than 0.35. From a state of the strategies, the pairs emitted are
  the similar pairs up to the number of suggestions still allowed, and the suggestion of
  a pair carries its similarity as confidence and the tension 0.05.

  The graph-level \<open>dreaming_cycle\<close> in closed form. Its candidates are the pairs of the
  queue in the order in which \<open>heappop\<close> takes them, each once; a candidate yields a
  suggestion when it has no edge in either direction, both nodes have neighbours, and its
  Jaccard similarity is greater than 0.3, and that suggestion carries the number of common
  neighbours in its meaning, the similarity as confidence and the tension 0.1.
\<close>

definition similar_pairs :: "TensorSemanticGraph \<Rightarrow> (str \<times> str) set \<Rightarrow> (str \<times> str) list" where
  "similar_pairs g processed_pairs =
     filter (\<lambda>(a, b). (a, b) \<notin> processed_pairs \<and> \<not> has_edge g a b
                        \<and> jaccard_similarity g a b > 0.35)
       (all_pairs (nodes g))"

definition similarity_suggestions ::
  "(real \<Rightarrow> str) \<Rightarrow> TensorSemanticGraph \<Rightarrow> datetime \<Rightarrow> (nat \<Rightarrow> str) \<Rightarrow> nat \<Rightarrow> (str \<times> str) list
     \<Rightarrow> RelationTensor list" where
  "similarity_suggestions fmt g now ids k pairs =
     map (\<lambda>(i, (a, b)).
            dream_tensor now (ids i) a b (similarity_meaning fmt (jaccard_similarity g a b))
              (jaccard_similarity g a b) 0.05)
       (enumerate k pairs)"

definition emitted_pairs :: "TensorSemanticGraph \<Rightarrow> int \<Rightarrow> gen_state \<Rightarrow> (str \<times> str) list" where
  "emitted_pairs g max_suggestions st =
     (if int (length (fst st)) < max_suggestions
      then take (nat (max_suggestions - int (length (fst st)))) (similar_pairs g (snd st))
      else [])"

definition cycle_pairs :: "TensorSemanticGraph \<Rightarrow> (str \<times> str) list" where
  "cycle_pairs g =
     filter (\<lambda>(u, v). \<not> has_edge g u v \<and> \<not> has_edge g v u
                        \<and> neighbor_set g u \<noteq> [] \<and> neighbor_set g v \<noteq> []
                        \<and> jaccard_similarity g u v > 0.3)
       (dedup (map snd (heap_order (dreaming_queue g))))"

definition cycle_suggestions ::
  "TensorSemanticGraph \<Rightarrow> datetime \<Rightarrow> (nat \<Rightarrow> str) \<Rightarrow> nat \<Rightarrow> (str \<times> str) list \<Rightarrow> RelationTensor list" where
  "cycle_suggestions g now ids k pairs =
     map (\<lambda>(i, (u, v)).
            cycle_suggestion now (ids i) u v
              (length (set_inter (neighbor_set g u) (neighbor_set g v)))
              (jaccard_similarity g u v))
       (enumerate k pairs)"

text \<open>
  One step of the import: the entry becomes a new object and is inserted by \<open>add_tensor\<close>
  with \<open>auto_merge\<close> under the context \<open>restored_from_yaml\<close>. An edge is restored when it
  carries that context and joins the source and the target of an entry of the document
  whose object it holds.
\<close>

definition restored_edge :: "(nat \<Rightarrow> addr) \<Rightarrow> RelationTensor list \<Rightarrow> edge \<Rightarrow> bool" where
  "restored_edge fresh ds e =
     (e_context_id e = restored_context
      \<and> list_ex (\<lambda>k. e_tensor e = fresh k \<and> e_src e = source (ds ! k)
                       \<and> e_dst e = target (ds ! k)) [0..<length ds])"

definition replay_step ::
  "datetime \<Rightarrow> (nat \<Rightarrow> str) \<Rightarrow> (nat \<Rightarrow> str) \<Rightarrow> (nat \<Rightarrow> addr) \<Rightarrow> nat \<Rightarrow> RelationTensor
     \<Rightarrow> store \<times> TensorSemanticGraph \<Rightarrow> store \<times> TensorSemanticGraph" where
  "replay_step now hws uids fresh k edge_data hg =
     (case hg of (h, g) \<Rightarrow>
        then_add now (uids k) (fresh k) restored_context
          (h(fresh k := from_dict now (hws k) edge_data), g))"

text \<open>
  An import into the graph of the scenario: a document with the nodes P, Q and R and one
  edge from P to Q (meaning z, confidence 0.8), the state that \<open>load_from_yaml\<close> leaves,
  and the edge that the import is to store. The object made from the entry is at the
  address 40.
\<close>

definition replacement_document :: document where
  "replacement_document =
     \<lparr>doc_nodes = [ascii ''P'', ascii ''Q'', ascii ''R''],
      doc_edges = [example_tensor ''HW_pq'' ''P'' ''Q'' ''z'' 0.8]\<rparr>"

definition imported :: "store \<times> TensorSemanticGraph" where
  "imported =
     load_from_yaml 0 (\<lambda>k. ascii ''HW_new'') (\<lambda>k. ascii ''0000000c'') (\<lambda>k. 40 + k)
       replacement_document scenario"

definition after_import :: TensorSemanticGraph where
  "after_import = snd imported"

definition edge_pq :: edge where
  "edge_pq = \<lparr>e_src = ascii ''P'', e_dst = ascii ''Q'',
              e_key = edge_key (ascii ''P'') (ascii ''Q'') lambda_type (ascii ''0000000c''),
              e_tensor = 40, e_created_at = 0, e_context_id = restored_context\<rparr>"

text \<open>
  The path of the scenario as a path query is to receive it: the hops from A to B and
  from B to C, each with the confidence 0.9 of its edge.
\<close>

definition scenario_hops :: "path_edge list" where
  "scenario_hops =
     [\<lparr>subject = ascii ''A'', object = ascii ''B'', edge_certainty = 0.9\<rparr>,
      \<lparr>subject = ascii ''B'', object = ascii ''C'', edge_certainty = 0.9\<rparr>]"

section \<open>Properties of the RelationTensor\<close>

subsection \<open>Values stay in the unit interval\<close>

lemma unit_mean_values:
  assumes "list_all unit vs" "vs \<noteq> []"
  shows "unit (mean_values vs)"
proof -
  have "0 \<le> sum_list vs \<and> sum_list vs \<le> real (length vs)" using assms(1)
    by (induction vs) (auto simp: unit_def)
  moreover have "0 < real (length vs)" using assms(2) by simp
  ultimately show ?thesis
    by (simp add: unit_def mean_values_def divide_le_eq)
qed

lemma unit_fold_max: "list_all unit vs \<Longrightarrow> unit x \<Longrightarrow> unit (fold max vs x)"
  by (induction vs arbitrary: x) (auto simp: unit_def max_def)

lemma unit_max_values: "list_all unit vs \<Longrightarrow> vs \<noteq> [] \<Longrightarrow> unit (max_values vs)"
  by (cases vs) (auto simp: unit_fold_max)

lemma unit_values_update:
  "list_all unit (dict_values d) \<Longrightarrow> unit v \<Longrightarrow> list_all unit (dict_values (AList.update k v d))"
  by (induction d) (auto simp: dict_values_def)

lemma unit_dict_get:
  "list_all unit (dict_values d) \<Longrightarrow> unit dflt \<Longrightarrow> unit (dict_get d k dflt)"
proof (induction d)
  case Nil then show ?case by (simp add: dict_get_def)
next
  case (Cons p d) then show ?case by (cases p) (auto simp: dict_get_def dict_values_def)
qed

lemma unit_half: "unit a \<Longrightarrow> unit b \<Longrightarrow> unit ((a + b) / 2)"
  by (auto simp: unit_def)

lemma unit_coherence: "unit c \<Longrightarrow> unit t \<Longrightarrow> unit (c * (1 - t))"
  by (auto simp: unit_def mult_le_one)

lemma recalculate_metrics_mean:
  "certainty_by_context t \<noteq> [] \<Longrightarrow> confidence_is_mean (recalculate_metrics now t)"
  by (simp add: confidence_is_mean_def recalculate_metrics_def Let_def)

lemma recalculate_metrics_max: "tension_is_max (recalculate_metrics now t)"
  by (simp add: tension_is_max_def recalculate_metrics_def Let_def)

lemma recalculate_metrics_unit:
  assumes "in_unit_range t"
  shows "in_unit_range (recalculate_metrics now t)
         \<and> unit (coherence_contribution (recalculate_metrics now t))"
proof -
  let ?c = "if certainty_by_context t \<noteq> []
            then mean_values (dict_values (certainty_by_context t)) else certainty t"
  let ?tn = "if tension_by_context t \<noteq> []
             then max_values (dict_values (tension_by_context t)) else tension t"
  have c: "unit ?c" using assms
    by (auto simp: in_unit_range_def dict_values_def intro!: unit_mean_values)
  have tn: "unit ?tn" using assms
    by (auto simp: in_unit_range_def dict_values_def intro!: unit_max_values)
  have co: "unit (?c * (1 - ?tn))" using c tn by (rule unit_coherence)
  show ?thesis using assms c tn co
    by (simp add: recalculate_metrics_def Let_def in_unit_range_def)
qed

lemma post_init_mean: "confidence_is_mean (post_init now t)"
  by (simp add: post_init_def Let_def recalculate_metrics_mean)

lemma post_init_max: "tension_is_max (post_init now t)"
  by (simp add: post_init_def Let_def recalculate_metrics_max)

lemma post_init_unit:
  assumes "in_unit_range t"
  shows "in_unit_range (post_init now t) \<and> unit (coherence_contribution (post_init now t))"
proof -
  define t1 where "t1 = (if certainty_by_context t = []
               then t\<lparr>certainty_by_context := [(ascii ''genesis'', certainty t)]\<rparr> else t)"
  define t2 where "t2 = (if last_activated t1 = None
               then t1\<lparr>last_activated := Some (created_at t1)\<rparr> else t1)"
  have "in_unit_range t1"
    using assms by (simp add: t1_def in_unit_range_def dict_values_def)
  then have "in_unit_range t2"
    by (simp add: t2_def in_unit_range_def)
  moreover have "post_init now t = recalculate_metrics now t2"
    by (simp add: post_init_def Let_def t1_def t2_def)
  ultimately show ?thesis
    by (simp add: recalculate_metrics_unit)
qed

lemma activate_mean: "confidence_is_mean (activate now ctx t)"
  by (simp add: activate_def Let_def recalculate_metrics_mean)

lemma activate_max: "tension_is_max (activate now ctx t)"
  by (simp add: activate_def Let_def recalculate_metrics_max)

lemma activate_unit:
  assumes "in_unit_range t"
  shows "in_unit_range (activate now ctx t) \<and> unit (coherence_contribution (activate now ctx t))"
proof -
  let ?c = "if certainty t < 0.95 then min 0.95 (certainty t * 1.02) else certainty t"
  have c: "unit ?c" using assms by (auto simp: in_unit_range_def unit_def min_def)
  have vs: "list_all unit (dict_values (certainty_by_context t))"
    using assms by (simp add: in_unit_range_def)
  have "unit ((dict_get (certainty_by_context t) ctx 0 + ?c) / 2)"
    by (intro unit_half unit_dict_get vs c) (simp add: unit_def)
  with c vs assms show ?thesis
    unfolding activate_def Let_def
    by (intro recalculate_metrics_unit) (auto simp: in_unit_range_def intro!: unit_values_update)
qed

lemma update_from_context_mean: "confidence_is_mean (update_from_context now ctx c tn t)"
  by (simp add: update_from_context_def Let_def activate_mean)

lemma update_from_context_max: "tension_is_max (update_from_context now ctx c tn t)"
  by (simp add: update_from_context_def Let_def activate_max)

lemma update_from_context_unit:
  assumes "in_unit_range t" "unit c" "unit tn"
  shows "in_unit_range (update_from_context now ctx c tn t)
         \<and> unit (coherence_contribution (update_from_context now ctx c tn t))"
proof -
  have 1: "unit ((dict_get (certainty_by_context t) ctx c + c) / 2)"
    using assms by (intro unit_half unit_dict_get) (simp_all add: in_unit_range_def)
  have 2: "unit (max (dict_get (tension_by_context t) ctx 0) tn)"
    using assms unit_dict_get[of "tension_by_context t" 0 ctx]
    by (auto simp: max_def in_unit_range_def unit_def)
  show ?thesis
    unfolding update_from_context_def Let_def
    using assms 1 2
    by (intro activate_unit recalculate_metrics_unit[THEN conjunct1])
       (auto simp: in_unit_range_def intro!: unit_values_update)
qed

subsection \<open>split and merge_with\<close>

lemma filter_without_key:
  "k \<notin> fst ` set d \<Longrightarrow> filter (\<lambda>p. fst p \<noteq> k \<and> fst p \<notin> S) d = filter (\<lambda>p. fst p \<notin> S) d"
  by (induction d) auto

lemma update_outside_sum:
  "distinct (map fst d) \<Longrightarrow> k \<notin> S \<Longrightarrow>
   sum_list (map snd (filter (\<lambda>p. fst p \<notin> S) (AList.update k w d)))
     = (w::real) + sum_list (map snd (filter (\<lambda>p. fst p \<notin> insert k S) d))"
proof (induction d)
  case Nil then show ?case by simp
next
  case (Cons p d)
  then show ?case by (cases p) (auto simp: filter_without_key ac_simps)
qed

lemma update_outside_length:
  "distinct (map fst d) \<Longrightarrow> k \<notin> S \<Longrightarrow>
   length (filter (\<lambda>p. fst p \<notin> S) (AList.update k w d))
     = Suc (length (filter (\<lambda>p. fst p \<notin> insert k S) d))"
proof (induction d)
  case Nil then show ?case by simp
next
  case (Cons p d)
  then show ?case by (cases p) (auto simp: filter_without_key)
qed

lemma fold_scale_sum:
  "distinct (map fst items) \<Longrightarrow> distinct (map fst d) \<Longrightarrow>
   sum_list (map snd (fold (\<lambda>(k, v). AList.update k (v * q)) items d))
     = sum_list (map snd (filter (\<lambda>p. fst p \<notin> fst ` set items) d))
       + sum_list (map snd items) * (q::real)"
proof (induction items arbitrary: d)
  case Nil then show ?case by simp
next
  case (Cons x items)
  obtain k v where x: "x = (k, v)" by (cases x)
  have d': "distinct (map fst (AList.update k (v * q) d))"
    using Cons.prems(2) by (simp add: distinct_update)
  have k: "k \<notin> fst ` set items" using Cons.prems(1) x by simp
  have "sum_list (map snd (fold (\<lambda>(k, v). AList.update k (v * q)) (x # items) d))
     = sum_list (map snd (filter (\<lambda>p. fst p \<notin> fst ` set items) (AList.update k (v * q) d)))
       + sum_list (map snd items) * q"
    using Cons.IH[OF _ d'] Cons.prems(1) x by simp
  also have "\<dots> = v * q + sum_list (map snd (filter (\<lambda>p. fst p \<notin> insert k (fst ` set items)) d))
       + sum_list (map snd items) * q"
    using update_outside_sum[OF Cons.prems(2) k, of "v * q"] by simp
  finally show ?case using x by (simp add: algebra_simps)
qed

lemma fold_scale_length:
  "distinct (map fst items) \<Longrightarrow> distinct (map fst d) \<Longrightarrow>
   length (fold (\<lambda>(k, v). AList.update k (v * (q::real))) items d)
     = length (filter (\<lambda>p. fst p \<notin> fst ` set items) d) + length items"
proof (induction items arbitrary: d)
  case Nil then show ?case by simp
next
  case (Cons x items)
  obtain k v where x: "x = (k, v)" by (cases x)
  have d': "distinct (map fst (AList.update k (v * q) d))"
    using Cons.prems(2) by (simp add: distinct_update)
  have k: "k \<notin> fst ` set items" using Cons.prems(1) x by simp
  show ?case
    using Cons.IH[OF _ d'] Cons.prems x update_outside_length[OF Cons.prems(2) k, of "v * q"]
    by simp
qed

lemma sum_list_scale: "sum_list (map (\<lambda>v. v * c) vs) = sum_list vs * (c::real)"
  by (induction vs) (simp_all add: algebra_simps)

lemma split_child_fields:
  "fst (split hw now vm nt t) =
     (new_tensor hw now (source t) (target t)
        (case nt of None \<Rightarrow> rtype t | Some ty \<Rightarrow> if ty = [] then rtype t else ty)
        (variant_prefix @ vm) (split_intention_prefix @ habeas_weight_id t)
        (certainty t * 0.8) (tension t))
     \<lparr>certainty_by_context :=
        fold (\<lambda>(ctx, cert). AList.update ctx (cert * 0.8)) (certainty_by_context t)
          [(ascii ''genesis'', certainty t * 0.8)],
      parent_tensors := [habeas_weight_id t]\<rparr>"
  by (simp add: split_def Let_def new_tensor_def post_init_def tensor_fields_def
      recalculate_metrics_def)

lemma new_tensor_certainty:
  "certainty (new_tensor hw now s tg ty m i c tn) = c"
  "tension (new_tensor hw now s tg ty m i c tn) = tn"
  "coherence_contribution (new_tensor hw now s tg ty m i c tn) = c * (1 - tn)"
  "certainty_by_context (new_tensor hw now s tg ty m i c tn) = [(ascii ''genesis'', c)]"
  "tension_by_context (new_tensor hw now s tg ty m i c tn) = []"
  by (simp_all add: new_tensor_def post_init_def tensor_fields_def recalculate_metrics_def
      Let_def mean_values_def dict_values_def)

lemma mean_scaled:
  fixes S c q n :: real
  assumes "0 < n" "S = c * n"
  shows "(S * q) / n = c * q" "(c * q + S * q) / (1 + n) = c * q"
proof -
  show "(S * q) / n = c * q" using assms by simp
  have "c * q + S * q = c * q * (1 + n)" using assms by (simp add: algebra_simps)
  moreover have "1 + n \<noteq> 0" using assms by simp
  ultimately show "(c * q + S * q) / (1 + n) = c * q" by simp
qed

lemma split_mean:
  assumes "distinct (keys (certainty_by_context t))" "confidence_is_mean t"
  shows "confidence_is_mean (fst (split hw now vm nt t))"
proof -
  define items where "items = certainty_by_context t"
  define g where "g = ascii ''genesis''"
  define c where "c = certainty t"
  define q :: real where "q = 0.8"
  define F where "F = fold (\<lambda>(ctx, cert). AList.update ctx (cert * q)) items [(g, c * q)]"
  define S where "S = sum_list (map snd items)"
  define n where "n = real (length items)"
  have ne: "items \<noteq> []" and cS: "c = S / n"
    using assms(2)
    by (simp_all add: confidence_is_mean_def mean_values_def dict_values_def items_def c_def
        S_def n_def)
  have n: "0 < n" using ne by (simp add: n_def)
  have Scn: "S = c * n" using cS n by simp
  have dist: "distinct (map fst items)" using assms(1) by (simp add: keys_def items_def)
  have sumF: "sum_list (map snd F)
     = sum_list (map snd (filter (\<lambda>p. fst p \<notin> fst ` set items) [(g, c * q)])) + S * q"
    unfolding F_def S_def by (rule fold_scale_sum[OF dist]) simp
  have lenF: "length F
     = length (filter (\<lambda>p. fst p \<notin> fst ` set items) [(g, c * q)]) + length items"
    unfolding F_def by (rule fold_scale_length[OF dist]) simp
  have "sum_list (map snd F) / real (length F) = c * q"
  proof (cases "g \<in> fst ` set items")
    case True
    then have "sum_list (map snd F) = S * q" "real (length F) = n"
      using sumF lenF by (simp_all add: n_def)
    then show ?thesis using mean_scaled(1)[OF n Scn] by simp
  next
    case False
    then have "sum_list (map snd F) = c * q + S * q" "real (length F) = 1 + n"
      using sumF lenF by (simp_all add: n_def)
    then show ?thesis using mean_scaled(2)[OF n Scn] by simp
  qed
  moreover have "F \<noteq> []" using lenF ne by auto
  moreover have "certainty_by_context (fst (split hw now vm nt t)) = F"
    and "certainty (fst (split hw now vm nt t)) = c * q"
    by (simp_all add: split_child_fields new_tensor_certainty F_def items_def g_def c_def q_def)
  ultimately show ?thesis
    by (simp add: confidence_is_mean_def mean_values_def dict_values_def)
qed

lemma unit_fold_scale:
  "list_all unit (map snd items) \<Longrightarrow> list_all unit (dict_values d) \<Longrightarrow>
   list_all unit (dict_values (fold (\<lambda>(ctx, cert). AList.update ctx (cert * 0.8)) items d))"
proof (induction items arbitrary: d)
  case Nil then show ?case by simp
next
  case (Cons x items)
  obtain k v where x: "x = (k, v)" by (cases x)
  have "unit (v * 0.8)" using Cons.prems(1) x by (auto simp: unit_def)
  then show ?case using Cons x by (simp add: unit_values_update)
qed

lemma split_unit:
  assumes "in_unit_range t"
  shows "in_unit_range (fst (split hw now vm nt t))
         \<and> unit (coherence_contribution (fst (split hw now vm nt t)))"
proof -
  have c: "unit (certainty t * 0.8)" using assms by (auto simp: in_unit_range_def unit_def)
  have tn: "unit (tension t)" using assms by (simp add: in_unit_range_def)
  have "list_all unit (dict_values
     (fold (\<lambda>(ctx, cert). AList.update ctx (cert * 0.8)) (certainty_by_context t)
          [(ascii ''genesis'', certainty t * 0.8)]))"
    using assms c by (intro unit_fold_scale) (simp_all add: in_unit_range_def dict_values_def)
  then show ?thesis using c tn unit_coherence[OF c tn]
    by (simp add: split_child_fields in_unit_range_def new_tensor_certainty dict_values_def)
qed

lemma map_of_fold_update:
  "map_of (fold (\<lambda>k d. AList.update k (h k) d) ks d) x
     = (if x \<in> set ks then Some (h x) else map_of d x)"
  by (induction ks arbitrary: d) (auto simp: update_conv')

lemma keys_fold_update:
  "set (keys (fold (\<lambda>k d. AList.update k (h k) d) ks d)) = set ks \<union> set (keys d)"
  by (induction ks arbitrary: d) (auto simp: keys_def dom_update)

lemma unit_fold_update:
  "(\<And>k. unit (h k)) \<Longrightarrow> list_all unit (dict_values d) \<Longrightarrow>
   list_all unit (dict_values (fold (\<lambda>k d. AList.update k (h k) d) ks d))"
  by (induction ks arbitrary: d) (auto simp: unit_values_update)

lemma set_all_ctx:
  "set (all_ctx t other) = set (keys (certainty_by_context t)) \<union> set (keys (certainty_by_context other))"
  by (auto simp: all_ctx_def dedup_def)

lemma merge_with_fields:
  assumes "source t = source other" "target t = target other" "rtype t = rtype other"
  shows "merge_with hw now t other =
    Inr ((new_tensor hw now (source t) (target t) (rtype t)
            (merged_meaning (meaning t) (meaning other)) []
            ((certainty t + certainty other) / 2) (max (tension t) (tension other)))
         \<lparr>certainty_by_context :=
            fold (\<lambda>ctx d. AList.update ctx
                    ((dict_get (certainty_by_context t) ctx 0
                      + dict_get (certainty_by_context other) ctx 0) / 2) d)
              (all_ctx t other)
              [(ascii ''genesis'', (certainty t + certainty other) / 2)],
          parent_tensors := [habeas_weight_id t, habeas_weight_id other]\<rparr>)"
  using assms by (simp add: merge_with_def Let_def new_tensor_certainty)

lemma merge_with_unit:
  assumes "in_unit_range t" "in_unit_range other" "merge_with hw now t other = Inr m"
  shows "in_unit_range m \<and> unit (coherence_contribution m)"
proof -
  have same: "source t = source other" "target t = target other" "rtype t = rtype other"
    using assms(3) by (auto simp: merge_with_def split: if_splits)
  have c: "unit ((certainty t + certainty other) / 2)"
    using assms(1,2) by (intro unit_half) (simp_all add: in_unit_range_def)
  have tn: "unit (max (tension t) (tension other))"
    using assms(1,2) by (simp add: in_unit_range_def max_def)
  have h: "\<And>ctx. unit ((dict_get (certainty_by_context t) ctx 0
                      + dict_get (certainty_by_context other) ctx 0) / 2)"
    using assms(1,2)
    by (intro unit_half unit_dict_get) (simp_all add: in_unit_range_def unit_def)
  have "list_all unit (dict_values (fold (\<lambda>ctx d. AList.update ctx
                    ((dict_get (certainty_by_context t) ctx 0
                      + dict_get (certainty_by_context other) ctx 0) / 2) d)
              (all_ctx t other)
              [(ascii ''genesis'', (certainty t + certainty other) / 2)]))"
    using c by (intro unit_fold_update h) (simp add: dict_values_def)
  then show ?thesis
    using assms(3) c tn unit_coherence[OF c tn]
    unfolding merge_with_fields[OF same]
    by (auto simp: in_unit_range_def new_tensor_certainty dict_values_def)
qed

subsection \<open>Values of the coherence engine and of the link prediction\<close>

lemma unit_clamp: "unit (clamp_unit x)"
  by (simp add: unit_def clamp_unit_def)

lemma unit_tension_penalty: "unit (calculate_tension_penalty n)"
proof (cases "n = 0")
  case True then show ?thesis by (simp add: calculate_tension_penalty_def unit_def)
next
  case False
  have "0 \<le> ln (1 + real n)" by (rule ln_ge_zero) simp
  then show ?thesis using False by (simp add: calculate_tension_penalty_def unit_def)
qed

lemma unit_semantic:
  assumes "list_all (\<lambda>e. unit (certainty (h (e_tensor e)))) (edges g)"
  shows "unit (fst (calculate_semantic_coherence h g))"
proof (cases "edges g = []")
  case True
  then show ?thesis by (simp add: calculate_semantic_coherence_def unit_def)
next
  case False
  have "list_all unit (map certainty (map (\<lambda>e. h (e_tensor e)) (edges g)))"
    using assms by (simp add: list_all_iff)
  then have "unit (mean_values (map certainty (map (\<lambda>e. h (e_tensor e)) (edges g))))"
    using False by (intro unit_mean_values) simp_all
  then show ?thesis using False
    by (simp add: calculate_semantic_coherence_def Let_def mean_values_def)
qed

lemma unit_global_coherence:
  assumes "list_all (\<lambda>e. unit (certainty (h (e_tensor e)))) (edges g)"
  shows "unit (global (fst (calculate_global_coherence now density components h g history)))
       \<and> unit (structural (fst (calculate_global_coherence now density components h g history)))
       \<and> unit (semantic (fst (calculate_global_coherence now density components h g history)))
       \<and> unit (tension_penalty (fst (calculate_global_coherence now density components h g history)))"
proof (cases "length (nodes g) = 0")
  case True
  then show ?thesis by (simp add: calculate_global_coherence_def unit_def)
next
  case False
  obtain s c n where sem: "calculate_semantic_coherence h g = (s, c, n)"
    by (cases "calculate_semantic_coherence h g")
  have "unit s" using unit_semantic[OF assms] sem by simp
  then show ?thesis using False
    by (simp add: calculate_global_coherence_def Let_def sem unit_clamp unit_tension_penalty
        calculate_structural_coherence_def)
qed

lemma length_dedup: "length (dedup xs) = card (set xs)"
  by (simp add: dedup_def length_remdups_card_conv)

lemma length_set_inter_le:
  assumes "distinct xs"
  shows "length (set_inter xs ys) \<le> length (set_union xs ys)"
proof -
  have "length (set_inter xs ys) \<le> length xs" by (simp add: set_inter_def)
  also have "\<dots> = card (set xs)" using assms by (simp add: distinct_card)
  also have "\<dots> \<le> card (set (xs @ ys))" by (intro card_mono) auto
  also have "\<dots> = length (set_union xs ys)"
    by (simp only: set_union_def length_dedup)
  finally show ?thesis .
qed

lemma distinct_dedup [simp]: "distinct (dedup xs)"
  by (simp add: dedup_def)

lemma unit_ratio: "k \<le> n \<Longrightarrow> unit (if n > 0 then real k / real n else 0)"
  by (auto simp: unit_def divide_le_eq)

lemma unit_jaccard: "unit (jaccard_similarity g a b)"
proof -
  have "length (set_inter (neighbor_set g a) (neighbor_set g b))
        \<le> length (set_union (neighbor_set g a) (neighbor_set g b))"
    by (rule length_set_inter_le) (simp add: neighbor_set_def)
  from unit_ratio[OF this] show ?thesis
    by (simp add: jaccard_similarity_def Let_def) (simp add: unit_def)
qed

lemma unit_structural_hole: "unit (calculate_structural_hole g broker a b)"
proof -
  let ?ps = "all_pairs (successors g broker)"
  have "length (filter (\<lambda>(n1, n2). has_edge g n1 n2 \<or> has_edge g n2 n1) ?ps) \<le> length ?ps"
    by simp
  then have "unit (1 - (if length ?ps = 0 then 0
       else real (length (filter (\<lambda>(n1, n2). has_edge g n1 n2 \<or> has_edge g n2 n1) ?ps))
            / real (length ?ps)))"
    by (auto simp: unit_def divide_le_eq)
  then show ?thesis
    by (simp add: calculate_structural_hole_def Let_def) (simp add: unit_def)
qed

lemma dream_tensor_unit:
  assumes "unit c" "unit tn"
  shows "in_unit_range (dream_tensor now hw a b m c tn)
         \<and> unit (coherence_contribution (dream_tensor now hw a b m c tn))"
  unfolding dream_tensor_def
  by (rule post_init_unit) (use assms in \<open>simp add: in_unit_range_def tensor_fields_def dict_values_def\<close>)

lemma cycle_suggestion_unit:
  assumes "unit c"
  shows "in_unit_range (cycle_suggestion now hw u v k c)
         \<and> unit (coherence_contribution (cycle_suggestion now hw u v k c))"
proof -
  have "in_unit_range (new_tensor hw now u v lambda_type (common_neighbors_meaning k) [] c 0.1)
       \<and> unit (coherence_contribution
                 (new_tensor hw now u v lambda_type (common_neighbors_meaning k) [] c 0.1))"
    unfolding new_tensor_def
    by (rule post_init_unit)
       (use assms in \<open>simp add: in_unit_range_def tensor_fields_def dict_values_def unit_def\<close>)
  then show ?thesis by (simp add: cycle_suggestion_def in_unit_range_def)
qed

lemmas tensor_eval =
  example_tensor_def new_tensor_def tensor_fields_def post_init_def recalculate_metrics_def
  update_from_context_def activate_def ascii_def dict_get_def keys_def dict_values_def
  mean_values_def Let_def days_def timedelta_days_def lambda_type_def dedup_def

section \<open>Properties of the heap operations\<close>

text \<open>
  The heap operations permute the list: nothing is lost or invented by a push or a pop,
  and the items that \<open>heappop\<close> takes from a list are the items of the list.
\<close>

lemma length_siftdown_loop [simp]: "length (siftdown_loop heap s p x) = length heap"
  by (induction heap s p x rule: siftdown_loop.induct)
     (subst siftdown_loop.simps, simp add: Let_def)

lemma length_siftup_loop [simp]: "length (fst (siftup_loop heap p)) = length heap"
  by (induction heap p rule: siftup_loop.induct)
     (subst siftup_loop.simps, simp add: Let_def)

lemma mset_swap_update:
  assumes "i < length heap" "j < length heap" "i \<noteq> j"
  shows "mset (heap[i := heap ! j, j := x]) = mset (heap[i := x])"
proof -
  define ls where "ls = heap[i := x]"
  have "mset (ls[j := ls ! i, i := ls ! j]) = mset ls"
    by (rule mset_swap) (use assms in \<open>simp_all add: ls_def\<close>)
  moreover have "ls[j := ls ! i, i := ls ! j] = heap[i := heap ! j, j := x]"
    by (rule nth_equalityI) (use assms in \<open>auto simp: ls_def nth_list_update\<close>)
  ultimately show ?thesis by (simp add: ls_def)
qed

lemma mset_siftdown_loop:
  "p < length heap \<Longrightarrow> mset (siftdown_loop heap s p x) = mset (heap[p := x])"
proof (induction heap s p x rule: siftdown_loop.induct)
  case (1 heap startpos pos newitem)
  define pp where "pp = (pos - 1) div 2"
  show ?case
  proof (cases "pos > startpos \<and> newitem < heap ! pp")
    case False
    then show ?thesis by (subst siftdown_loop.simps) (auto simp: Let_def pp_def)
  next
    case True
    then have lt: "pp < pos" by (auto simp: pp_def)
    have "siftdown_loop heap startpos pos newitem
        = siftdown_loop (heap[pos := heap ! pp]) startpos pp newitem"
      using True by (subst siftdown_loop.simps) (simp add: Let_def pp_def)
    also have "mset \<dots> = mset (heap[pos := heap ! pp, pp := newitem])"
      using "1.IH"[OF _ refl refl] True lt "1.prems" by (simp add: pp_def)
    also have "\<dots> = mset (heap[pos := newitem])"
      by (rule mset_swap_update) (use lt "1.prems" in simp_all)
    finally show ?thesis .
  qed
qed

lemma mset_siftup_loop:
  "p < length heap \<Longrightarrow>
   (case siftup_loop heap p of (heap', p') \<Rightarrow>
      p' < length heap \<and> mset (heap'[p' := x]) = mset (heap[p := x]))"
proof (induction heap p rule: siftup_loop.induct)
  case (1 heap pos)
  define c where "c = (if 2 * pos + 1 + 1 < length heap
                            \<and> \<not> heap ! (2 * pos + 1) < heap ! (2 * pos + 1 + 1)
                       then 2 * pos + 1 + 1 else 2 * pos + 1)"
  show ?case
  proof (cases "2 * pos + 1 < length heap")
    case False
    then show ?thesis using "1.prems" by (subst siftup_loop.simps) (simp add: Let_def)
  next
    case True
    have c: "c < length heap" "pos < c" using True by (auto simp: c_def)
    have eq: "siftup_loop heap pos = siftup_loop (heap[pos := heap ! c]) c"
      using True by (subst siftup_loop.simps) (simp add: Let_def c_def)
    note ih0 = "1.IH"[OF refl True refl refl, folded c_def]
    obtain heap' p' where r: "siftup_loop (heap[pos := heap ! c]) c = (heap', p')"
      by (cases "siftup_loop (heap[pos := heap ! c]) c")
    have ih: "p' < length heap \<and> mset (heap'[p' := x]) = mset (heap[pos := heap ! c, c := x])"
      using ih0 c r by simp
    have "mset (heap[pos := heap ! c, c := x]) = mset (heap[pos := x])"
      by (rule mset_swap_update) (use c "1.prems" in simp_all)
    then show ?thesis using ih by (simp add: eq r)
  qed
qed

lemma mset_siftdown: "p < length heap \<Longrightarrow> mset (siftdown heap s p) = mset heap"
  by (simp add: siftdown_def mset_siftdown_loop)

lemma mset_siftup:
  assumes "p < length heap"
  shows "mset (siftup heap p) = mset heap"
proof -
  obtain heap' p' where r: "siftup_loop heap p = (heap', p')" by (cases "siftup_loop heap p")
  have l: "length heap' = length heap" using length_siftup_loop[of heap p] r by simp
  have "p' < length heap \<and> mset (heap'[p' := heap ! p]) = mset (heap[p := heap ! p])"
    using mset_siftup_loop[OF assms, of "heap ! p"] r by simp
  then show ?thesis using l by (simp add: siftup_def r mset_siftdown)
qed

lemma mset_heappush: "mset (heappush heap x) = add_mset x (mset heap)"
  by (simp add: heappush_def mset_siftdown)

lemma set_heappush: "set (heappush heap x) = insert x (set heap)"
  using mset_heappush[of heap x] by (metis set_mset_add_mset_insert set_mset_mset)

lemma mset_heappop:
  assumes "heappop heap = Inr (x, rest)"
  shows "mset heap = add_mset x (mset rest)"
proof -
  have ne: "heap \<noteq> []" using assms by (auto simp: heappop_def)
  then obtain ys y where h: "heap = ys @ [y]" by (cases heap rule: rev_cases) auto
  show ?thesis
  proof (cases "ys = []")
    case True
    then show ?thesis using assms h by (simp add: heappop_def)
  next
    case False
    then obtain z zs where ys: "ys = z # zs" by (cases ys) auto
    have "x = z" "rest = siftup (ys[0 := y]) 0"
      using assms h False by (auto simp: heappop_def Let_def ys)
    moreover have "mset (siftup (ys[0 := y]) 0) = mset (ys[0 := y])"
      by (rule mset_siftup) (simp add: ys)
    ultimately show ?thesis by (simp add: h ys)
  qed
qed

lemma mset_heap_order: "mset (heap_order heap) = mset heap"
proof (induction heap rule: heap_order.induct)
  case (1 heap)
  show ?case
  proof (cases "heappop heap")
    case (Inl e)
    then have "heap = []" by (auto simp: heappop_def Let_def split: if_splits)
    then show ?thesis using Inl by (subst heap_order.simps) simp
  next
    case (Inr r)
    obtain x rest where r: "r = (x, rest)" by (cases r)
    have "mset (heap_order rest) = mset rest" using 1[OF Inr r[symmetric]] .
    then show ?thesis using mset_heappop[of heap x rest] Inr r
      by (subst heap_order.simps) simp
  qed
qed

lemma set_heap_order [simp]: "set (heap_order heap) = set heap"
  using mset_heap_order[of heap] by (metis set_mset_mset)

lemma heap_order_Nil [simp]: "heap_order [] = []"
  by (subst heap_order.simps) (simp add: heappop_def)

lemma heap_order_single [simp]: "heap_order [x] = [x]"
  by (subst heap_order.simps) (simp add: heappop_def)

lemma heap_order_first:
  "heap_order (x # y # rest) = x # heap_order (siftup ((butlast (x # y # rest))[0 := last (y # rest)]) 0)"
  by (subst heap_order.simps) (simp add: heappop_def Let_def)

text \<open>
  The loops of the two sifts, one step at a time, for the evaluation of a push or a pop on
  a given list.
\<close>

lemma siftup_loop_leaf:
  "\<not> 2 * pos + 1 < length heap \<Longrightarrow> siftup_loop heap pos = (heap, pos)"
  by (subst siftup_loop.simps) (simp add: Let_def)

lemma siftup_loop_step:
  "2 * pos + 1 < length heap \<Longrightarrow>
   siftup_loop heap pos =
     (let c = (if 2 * pos + 2 < length heap \<and> \<not> heap ! (2 * pos + 1) < heap ! (2 * pos + 2)
               then 2 * pos + 2 else 2 * pos + 1)
      in siftup_loop (heap[pos := heap ! c]) c)"
  by (subst siftup_loop.simps) (simp add: Let_def)

lemma siftdown_loop_root:
  "\<not> pos > startpos \<Longrightarrow> siftdown_loop heap startpos pos x = heap[pos := x]"
  by (subst siftdown_loop.simps) simp

lemma siftdown_loop_step:
  "pos > startpos \<Longrightarrow>
   siftdown_loop heap startpos pos x =
     (if x < heap ! ((pos - 1) div 2)
      then siftdown_loop (heap[pos := heap ! ((pos - 1) div 2)]) startpos ((pos - 1) div 2) x
      else heap[pos := x])"
  by (subst siftdown_loop.simps) (simp add: Let_def)

lemmas heap_eval = heap_order_first siftup_def siftdown_def heappush_def Let_def
  siftup_loop_leaf siftup_loop_step siftdown_loop_root siftdown_loop_step
  less_prod_def less_eq_prod_def


section \<open>Properties of add_tensor\<close>

lemma recalculate_metrics_frame [simp]:
  "source (recalculate_metrics now t) = source t"
  "target (recalculate_metrics now t) = target t"
  "rtype (recalculate_metrics now t) = rtype t"
  "meaning (recalculate_metrics now t) = meaning t"
  "habeas_weight_id (recalculate_metrics now t) = habeas_weight_id t"
  "activation_count (recalculate_metrics now t) = activation_count t"
  "certainty_by_context (recalculate_metrics now t) = certainty_by_context t"
  "tension_by_context (recalculate_metrics now t) = tension_by_context t"
  "suggested (recalculate_metrics now t) = suggested t"
  by (simp_all add: recalculate_metrics_def Let_def)

lemma activate_frame [simp]:
  "source (activate now ctx t) = source t"
  "target (activate now ctx t) = target t"
  "rtype (activate now ctx t) = rtype t"
  "meaning (activate now ctx t) = meaning t"
  "habeas_weight_id (activate now ctx t) = habeas_weight_id t"
  "suggested (activate now ctx t) = suggested t"
  "activation_count (activate now ctx t) = activation_count t + 1"
  by (simp_all add: activate_def Let_def)

lemma keys_update: "set (keys (AList.update k v d)) = insert k (set (keys d))"
  by (simp add: keys_def dom_update)

lemma activate_keys:
  "set (keys (certainty_by_context (activate now ctx t)))
     = insert ctx (set (keys (certainty_by_context t)))"
  by (simp add: activate_def Let_def keys_update)

lemma update_from_context_frame [simp]:
  "source (update_from_context now ctx c tn t) = source t"
  "target (update_from_context now ctx c tn t) = target t"
  "rtype (update_from_context now ctx c tn t) = rtype t"
  "meaning (update_from_context now ctx c tn t) = meaning t"
  "habeas_weight_id (update_from_context now ctx c tn t) = habeas_weight_id t"
  "suggested (update_from_context now ctx c tn t) = suggested t"
  "activation_count (update_from_context now ctx c tn t) = activation_count t + 1"
  by (simp_all add: update_from_context_def Let_def)

lemma update_from_context_keys:
  "set (keys (certainty_by_context (update_from_context now ctx c tn t)))
     = insert ctx (set (keys (certainty_by_context t)))"
  by (simp add: update_from_context_def Let_def activate_keys keys_update)

lemma nx_add_node_edges [simp]: "edges (nx_add_node n g) = edges g"
  by (simp add: nx_add_node_def)

lemma register_context_frame [simp]:
  "edges (register_context now ctx g) = edges g"
  "nodes (register_context now ctx g) = nodes g"
  "tensor_registry (register_context now ctx g) = tensor_registry g"
  "dreaming_queue (register_context now ctx g) = dreaming_queue g"
  "conflict_zones (register_context now ctx g) = conflict_zones g"
  by (simp_all add: register_context_def)

lemma edges_between_cong: "edges g' = edges g \<Longrightarrow> edges_between g' u v = edges_between g u v"
  by (simp add: edges_between_def)

lemma prepare_frame [simp]:
  "edges (prepare now a ctx h g) = edges g"
  "tensor_registry (prepare now a ctx h g) = tensor_registry g"
  "dreaming_queue (prepare now a ctx h g) = dreaming_queue g"
  by (simp_all add: prepare_def Let_def add_node_def nx_add_node_def)

lemma prepare_nodes:
  "set (nodes (prepare now a ctx h g)) = insert (source (h a)) (insert (target (h a)) (set (nodes g)))"
  by (auto simp: prepare_def Let_def add_node_def nx_add_node_def has_node_def)

lemma incoming_frame [simp]:
  "rtype (incoming now a ctx h x) = rtype (h x)"
  "meaning (incoming now a ctx h x) = meaning (h x)"
  "source (incoming now a ctx h x) = source (h x)"
  "target (incoming now a ctx h x) = target (h x)"
  "habeas_weight_id (incoming now a ctx h x) = habeas_weight_id (h x)"
  by (simp_all add: incoming_def)

lemma matches_incoming [simp]: "matches (incoming now a ctx h) a e = matches h a e"
  by (simp add: matches_def)

lemma merge_target_unchanged:
  assumes "matches h a e"
  shows "(let h1 = incoming now a ctx h; x = e_tensor e;
              h2 = h1(x := update_from_context now ctx (certainty (h1 a)) 0 (h1 x))
          in (if length (meaning (h2 a)) > length (meaning (h2 x))
              then h2(x := (h2 x)\<lparr>meaning := meaning (h2 a)\<rparr>) else h2) = h2
             \<and> habeas_weight_id (h2 x) = habeas_weight_id (h x))"
proof -
  define h1 where "h1 = incoming now a ctx h"
  define x where "x = e_tensor e"
  define h2 where "h2 = h1(x := update_from_context now ctx (certainty (h1 a)) 0 (h1 x))"
  have mx: "meaning (h2 x) = meaning (h x)" by (simp add: h2_def h1_def)
  have ma: "meaning (h2 a) = meaning (h a)" by (simp add: h2_def h1_def)
  have "meaning (h x) = meaning (h a)" using assms by (simp add: matches_def x_def)
  then have "\<not> length (meaning (h2 a)) > length (meaning (h2 x))" using mx ma by simp
  moreover have "habeas_weight_id (h2 x) = habeas_weight_id (h x)" by (simp add: h2_def h1_def)
  ultimately show ?thesis
    unfolding Let_def h1_def[symmetric] x_def[symmetric] h2_def[symmetric] by simp
qed

lemma add_tensor_scan:
  "add_tensor now uid a ctx auto_merge (h, g) =
    (case (if auto_merge
           then find (matches h a) (edges_between g (source (h a)) (target (h a))) else None) of
       Some e \<Rightarrow>
         (let h1 = incoming now a ctx h; x = e_tensor e;
              h2 = h1(x := update_from_context now ctx (certainty (h1 a)) 0 (h1 x));
              h3 = (if length (meaning (h2 a)) > length (meaning (h2 x))
                    then h2(x := (h2 x)\<lparr>meaning := meaning (h2 a)\<rparr>) else h2)
          in (h3, prepare now a ctx h g, habeas_weight_id (h3 x)))
     | None \<Rightarrow>
         (incoming now a ctx h,
          insert_new_tensor now uid a ctx (source (h a)) (target (h a)) (incoming now a ctx h)
            (prepare now a ctx h g),
          habeas_weight_id (incoming now a ctx h a)))"
proof -
  have eb: "edges_between (prepare now a ctx h g) (source (h a)) (target (h a))
            = edges_between g (source (h a)) (target (h a))"
    by (rule edges_between_cong) simp
  have m: "(\<lambda>e. rtype (incoming now a ctx h (e_tensor e)) = rtype (incoming now a ctx h a)
              \<and> meaning (incoming now a ctx h (e_tensor e)) = meaning (incoming now a ctx h a))
           = matches h a"
    by (simp add: matches_def fun_eq_iff)
  show ?thesis
    unfolding add_tensor_def prod.case incoming_def[symmetric]
    by (simp only: Let_def eb m)
qed

lemma add_tensor_merge:
  assumes "auto_merge" "find (matches h a) (edges_between g (source (h a)) (target (h a))) = Some e"
  shows "add_tensor now uid a ctx auto_merge (h, g) =
     ((incoming now a ctx h)
        (e_tensor e := update_from_context now ctx (certainty (incoming now a ctx h a)) 0
                         (incoming now a ctx h (e_tensor e))),
      prepare now a ctx h g, habeas_weight_id (h (e_tensor e)))"
proof -
  have me: "matches h a e" using assms(2) by (auto simp: find_Some_iff)
  show ?thesis
    unfolding add_tensor_scan using assms merge_target_unchanged[OF me, of now ctx]
    by (simp only: Let_def if_True option.case)
qed

lemma add_tensor_insert:
  assumes "\<not> auto_merge \<or> find (matches h a) (edges_between g (source (h a)) (target (h a))) = None"
  shows "add_tensor now uid a ctx auto_merge (h, g) =
     (incoming now a ctx h,
      insert_new_tensor now uid a ctx (source (h a)) (target (h a)) (incoming now a ctx h)
        (prepare now a ctx h g),
      habeas_weight_id (h a))"
proof -
  have "(if auto_merge
           then find (matches h a) (edges_between g (source (h a)) (target (h a))) else None) = None"
    using assms by auto
  then show ?thesis
    unfolding add_tensor_scan by (simp only: option.case incoming_frame)
qed

lemma find_matches_Some:
  assumes "e \<in> set (edges g)" "e_src e = u" "e_dst e = v" "matches h a e"
  obtains e0 where "find (matches h a) (edges_between g u v) = Some e0"
    "e0 \<in> set (edges_between g u v)" "matches h a e0"
proof -
  have "e \<in> set (edges_between g u v)" using assms by (simp add: edges_between_def)
  then have "find (matches h a) (edges_between g u v) \<noteq> None"
    using assms(4) by (auto simp: find_None_iff)
  then obtain e0 where f: "find (matches h a) (edges_between g u v) = Some e0" by auto
  then have "e0 \<in> set (edges_between g u v)" "matches h a e0"
    by (auto simp: find_Some_iff in_set_conv_nth)
  with f show ?thesis using that by blast
qed

lemma insert_new_tensor_edges:
  assumes "\<not> list_ex (\<lambda>e. e_key e = edge_key u v (rtype (h a)) uid) (edges_between g u v)"
  shows "edges (insert_new_tensor now uid a ctx u v h g) =
     edges g @ [\<lparr>e_src = u, e_dst = v, e_key = edge_key u v (rtype (h a)) uid, e_tensor = a,
                 e_created_at = now, e_context_id = ctx\<rparr>]"
proof -
  have "edges_between (nx_add_node v (nx_add_node u g)) u v = edges_between g u v"
    by (rule edges_between_cong) simp
  then show ?thesis using assms
    by (simp add: insert_new_tensor_def nx_add_edge_def Let_def)
qed

lemma add_tensor_fresh_edge:
  assumes "edges_between g (source (h a)) (target (h a)) = []"
  shows "add_tensor now uid a ctx True (h, g) =
     (incoming now a ctx h,
      insert_new_tensor now uid a ctx (source (h a)) (target (h a)) (incoming now a ctx h)
        (prepare now a ctx h g),
      habeas_weight_id (h a))"
    and "edges (insert_new_tensor now uid a ctx (source (h a)) (target (h a)) (incoming now a ctx h)
        (prepare now a ctx h g)) =
      edges g @ [\<lparr>e_src = source (h a), e_dst = target (h a),
                  e_key = edge_key (source (h a)) (target (h a)) (rtype (h a)) uid, e_tensor = a,
                  e_created_at = now, e_context_id = ctx\<rparr>]"
proof -
  show "add_tensor now uid a ctx True (h, g) =
     (incoming now a ctx h,
      insert_new_tensor now uid a ctx (source (h a)) (target (h a)) (incoming now a ctx h)
        (prepare now a ctx h g),
      habeas_weight_id (h a))"
    by (rule add_tensor_insert) (simp add: assms)
  have "edges_between (prepare now a ctx h g) (source (h a)) (target (h a)) = []"
    using assms edges_between_cong[of "prepare now a ctx h g" g] by simp
  then show "edges (insert_new_tensor now uid a ctx (source (h a)) (target (h a)) (incoming now a ctx h)
        (prepare now a ctx h g)) =
      edges g @ [\<lparr>e_src = source (h a), e_dst = target (h a),
                  e_key = edge_key (source (h a)) (target (h a)) (rtype (h a)) uid, e_tensor = a,
                  e_created_at = now, e_context_id = ctx\<rparr>]"
    using insert_new_tensor_edges[of "source (h a)" "target (h a)" "incoming now a ctx h" a uid
        "prepare now a ctx h g" now ctx]
    by simp
qed

lemma example_store_fields:
  "source (example_store 10) = ascii ''A''" "target (example_store 10) = ascii ''B''"
  "source (example_store 20) = ascii ''B''" "target (example_store 20) = ascii ''C''"
  "source (example_store 30) = ascii ''A''" "target (example_store 30) = ascii ''B''"
  "rtype (example_store 10) = lambda_type" "rtype (example_store 20) = lambda_type"
  "rtype (example_store 30) = lambda_type"
  "meaning (example_store 10) = ascii ''x''" "meaning (example_store 30) = ascii ''x''"
  by (simp_all add: example_store_def example_tensor_def new_tensor_def post_init_def
      tensor_fields_def recalculate_metrics_def Let_def)

lemma scenario_steps:
  "fst scenario = incoming 0 20 (ascii ''global'') (incoming 0 10 (ascii ''global'') example_store)"
  "edges (snd scenario) = [edge_ab, edge_bc]"
  "snd scenario =
     insert_new_tensor 0 (ascii ''0000000b'') 20 (ascii ''global'') (ascii ''B'') (ascii ''C'')
       (incoming 0 20 (ascii ''global'') (incoming 0 10 (ascii ''global'') example_store))
       (prepare 0 20 (ascii ''global'') (incoming 0 10 (ascii ''global'') example_store)
          (insert_new_tensor 0 (ascii ''0000000a'') 10 (ascii ''global'') (ascii ''A'') (ascii ''B'')
             (incoming 0 10 (ascii ''global'') example_store)
             (prepare 0 10 (ascii ''global'') example_store
                (add_node (ascii ''C'') (add_node (ascii ''B'') (add_node (ascii ''A'') empty_graph))))))"
proof -
  define g0 where "g0 = add_node (ascii ''C'') (add_node (ascii ''B'') (add_node (ascii ''A'') empty_graph))"
  define glob where "glob = ascii ''global''"
  define h1 where "h1 = incoming 0 10 glob example_store"
  define g1 where "g1 = insert_new_tensor 0 (ascii ''0000000a'') 10 glob (ascii ''A'') (ascii ''B'') h1
                          (prepare 0 10 glob example_store g0)"
  have e0: "edges g0 = []"
    by (simp add: g0_def add_node_def empty_graph_def)
  have s1: "then_add 0 (ascii ''0000000a'') 10 glob (example_store, g0) = (h1, g1)"
    and ed1: "edges g1 = [edge_ab]"
    using add_tensor_fresh_edge[where g = g0 and h = example_store and a = 10 and now = 0 and uid = "ascii ''0000000a''" and ctx = glob]
    by (simp_all add: then_add_def e0 edges_between_def example_store_fields h1_def g1_def
        edge_ab_def glob_def)
  have h1f: "source (h1 20) = ascii ''B''" "target (h1 20) = ascii ''C''" "rtype (h1 20) = lambda_type"
    by (simp_all add: h1_def example_store_fields)
  have eb: "edges_between g1 (source (h1 20)) (target (h1 20)) = []"
    by (simp add: edges_between_def ed1 h1f edge_ab_def ascii_def)
  have s2: "then_add 0 (ascii ''0000000b'') 20 glob (h1, g1) =
      (incoming 0 20 glob h1,
       insert_new_tensor 0 (ascii ''0000000b'') 20 glob (ascii ''B'') (ascii ''C'') (incoming 0 20 glob h1)
          (prepare 0 20 glob h1 g1))"
    and ed2: "edges (insert_new_tensor 0 (ascii ''0000000b'') 20 glob (ascii ''B'') (ascii ''C'') (incoming 0 20 glob h1)
          (prepare 0 20 glob h1 g1)) = [edge_ab, edge_bc]"
    using add_tensor_fresh_edge[where g = g1 and h = h1 and a = 20 and now = 0 and uid = "ascii ''0000000b''" and ctx = glob] eb
    by (simp_all add: then_add_def h1f ed1 edge_bc_def glob_def)
  have sc: "scenario = then_add 0 (ascii ''0000000b'') 20 glob (then_add 0 (ascii ''0000000a'') 10 glob (example_store, g0))"
    by (simp add: scenario_def g0_def glob_def)
  show "fst scenario = incoming 0 20 (ascii ''global'') (incoming 0 10 (ascii ''global'') example_store)"
    unfolding sc s1 s2 by (simp add: h1_def glob_def)
  show "edges (snd scenario) = [edge_ab, edge_bc]"
    unfolding sc s1 s2 by (simp add: ed2)
  show "snd scenario =
     insert_new_tensor 0 (ascii ''0000000b'') 20 (ascii ''global'') (ascii ''B'') (ascii ''C'')
       (incoming 0 20 (ascii ''global'') (incoming 0 10 (ascii ''global'') example_store))
       (prepare 0 20 (ascii ''global'') (incoming 0 10 (ascii ''global'') example_store)
          (insert_new_tensor 0 (ascii ''0000000a'') 10 (ascii ''global'') (ascii ''A'') (ascii ''B'')
             (incoming 0 10 (ascii ''global'') example_store)
             (prepare 0 10 (ascii ''global'') example_store
                (add_node (ascii ''C'') (add_node (ascii ''B'') (add_node (ascii ''A'') empty_graph))))))"
    unfolding sc s1 s2 by (simp add: h1_def g1_def glob_def g0_def)
qed

lemmas scenario_state = scenario_steps(1) scenario_steps(2)

lemmas scenario_graph = scenario_steps(3)

lemma scenario_store:
  "certainty (fst scenario 10) = 0.9045" "certainty (fst scenario 20) = 0.9045"
  "fst scenario 30 = example_store 30"
  by (simp_all add: scenario_state incoming_def example_store_def tensor_eval)

section \<open>The claims about the record\<close>

subsection \<open>Claim C3: the metrics of a record\<close>

text \<open>
  Claim C3, as the code has it. After construction (\<open>__post_init__\<close>), \<open>activate\<close> and
  \<open>update_from_context\<close> the global confidence of the record is the arithmetic mean of
  its per-context confidences, and its global tension is the maximum of its per-context
  tensions whenever that map is not empty (with an empty map the tension keeps the value it
  was given). The child that \<open>split\<close> returns has the mean as its confidence when its
  parent has, the parent's context keys being distinct. For arguments and fields in
  [0,1], every confidence, tension, per-context value and coherence contribution that
  construction, \<open>activate\<close>, \<open>update_from_context\<close>, \<open>split\<close> and \<open>merge_with\<close>
  produce lies in [0,1], and so do the values of a suggested record. The Jaccard
  similarity and the structural-hole score lie in [0,1]; so do the global, structural and
  semantic coherence and the tension penalty when the confidences of the edges do. The
  confidence of a merged record is not part of the statement: \<open>merge_with\<close> sets it to
  the average of the two global confidences and does not recompute it from the merged
  context map.
\<close>

theorem tensor_metrics_invariant:
  "confidence_is_mean (post_init now t) \<and> tension_is_max (post_init now t)
   \<and> confidence_is_mean (activate now ctx t) \<and> tension_is_max (activate now ctx t)
   \<and> confidence_is_mean (update_from_context now ctx c tn t)
   \<and> tension_is_max (update_from_context now ctx c tn t)
   \<and> (distinct (keys (certainty_by_context t)) \<and> confidence_is_mean t
        \<longrightarrow> confidence_is_mean (fst (split hw now vm nt t)))
   \<and> (in_unit_range t \<and> in_unit_range other \<and> unit c \<and> unit tn \<longrightarrow>
        in_unit_range (post_init now t) \<and> unit (coherence_contribution (post_init now t))
        \<and> in_unit_range (activate now ctx t)
        \<and> unit (coherence_contribution (activate now ctx t))
        \<and> in_unit_range (update_from_context now ctx c tn t)
        \<and> unit (coherence_contribution (update_from_context now ctx c tn t))
        \<and> in_unit_range (fst (split hw now vm nt t))
        \<and> unit (coherence_contribution (fst (split hw now vm nt t)))
        \<and> (\<forall>m. merge_with hw now t other = Inr m
              \<longrightarrow> in_unit_range m \<and> unit (coherence_contribution m))
        \<and> in_unit_range (dream_tensor now hw a b mng c tn)
        \<and> unit (coherence_contribution (dream_tensor now hw a b mng c tn))
        \<and> in_unit_range (cycle_suggestion now hw a b k c)
        \<and> unit (coherence_contribution (cycle_suggestion now hw a b k c)))
   \<and> unit (jaccard_similarity g a b)
   \<and> unit (calculate_structural_hole g broker a b)
   \<and> (list_all (\<lambda>e. unit (certainty (h (e_tensor e)))) (edges g) \<longrightarrow>
        unit (global (fst (calculate_global_coherence now density components h g history)))
        \<and> unit (structural (fst (calculate_global_coherence now density components h g history)))
        \<and> unit (semantic (fst (calculate_global_coherence now density components h g history)))
        \<and> unit (tension_penalty
                  (fst (calculate_global_coherence now density components h g history))))"
proof -
  have metrics:
    "confidence_is_mean (post_init now t) \<and> tension_is_max (post_init now t)
     \<and> confidence_is_mean (activate now ctx t) \<and> tension_is_max (activate now ctx t)
     \<and> confidence_is_mean (update_from_context now ctx c tn t)
     \<and> tension_is_max (update_from_context now ctx c tn t)
     \<and> (distinct (keys (certainty_by_context t)) \<and> confidence_is_mean t
          \<longrightarrow> confidence_is_mean (fst (split hw now vm nt t)))"
    by (simp add: post_init_mean post_init_max activate_mean activate_max
        update_from_context_mean update_from_context_max split_mean)
  have bounds: "in_unit_range (post_init now t) \<and> unit (coherence_contribution (post_init now t))
        \<and> in_unit_range (activate now ctx t)
        \<and> unit (coherence_contribution (activate now ctx t))
        \<and> in_unit_range (update_from_context now ctx c tn t)
        \<and> unit (coherence_contribution (update_from_context now ctx c tn t))
        \<and> in_unit_range (fst (split hw now vm nt t))
        \<and> unit (coherence_contribution (fst (split hw now vm nt t)))
        \<and> (\<forall>m. merge_with hw now t other = Inr m
              \<longrightarrow> in_unit_range m \<and> unit (coherence_contribution m))
        \<and> in_unit_range (dream_tensor now hw a b mng c tn)
        \<and> unit (coherence_contribution (dream_tensor now hw a b mng c tn))
        \<and> in_unit_range (cycle_suggestion now hw a b k c)
        \<and> unit (coherence_contribution (cycle_suggestion now hw a b k c))"
    if "in_unit_range t \<and> in_unit_range other \<and> unit c \<and> unit tn"
    using that
    by (auto simp: post_init_unit activate_unit update_from_context_unit split_unit
        dream_tensor_unit cycle_suggestion_unit dest: merge_with_unit)
  have coherence:
    "unit (global (fst (calculate_global_coherence now density components h g history)))
     \<and> unit (structural (fst (calculate_global_coherence now density components h g history)))
     \<and> unit (semantic (fst (calculate_global_coherence now density components h g history)))
     \<and> unit (tension_penalty
               (fst (calculate_global_coherence now density components h g history)))"
    if "list_all (\<lambda>e. unit (certainty (h (e_tensor e)))) (edges g)"
    using that by (rule unit_global_coherence)
  show ?thesis
    using metrics bounds coherence unit_jaccard[of g a b]
      unit_structural_hole[of g broker a b]
    by blast
qed

text \<open>
  The theorem at a record built with confidence 0.9: the hypotheses hold there.
\<close>

theorem tensor_metrics_invariant_witness:
  "in_unit_range (example_tensor ''HW_a'' ''A'' ''B'' ''x'' 0.9)
   \<and> confidence_is_mean (example_tensor ''HW_a'' ''A'' ''B'' ''x'' 0.9)
   \<and> confidence_is_mean
        (fst (split (ascii ''HW_c'') 5 (ascii ''v'') None (example_tensor ''HW_a'' ''A'' ''B'' ''x'' 0.9)))
   \<and> in_unit_range
        (update_from_context 5 (ascii ''global'') 0.9 0.1 (example_tensor ''HW_a'' ''A'' ''B'' ''x'' 0.9))
   \<and> in_unit_range (fst (split (ascii ''HW_c'') 5 (ascii ''v'') None (example_tensor ''HW_a'' ''A'' ''B'' ''x'' 0.9)))
   \<and> (\<exists>m. merge_with (ascii ''HW_c'') 5 (example_tensor ''HW_a'' ''A'' ''B'' ''x'' 0.9)
              (example_tensor ''HW_a'' ''A'' ''B'' ''x'' 0.9) = Inr m \<and> in_unit_range m)
   \<and> list_all (\<lambda>e. unit (certainty (fst scenario (e_tensor e)))) (edges (snd scenario))
   \<and> unit (global (fst (calculate_global_coherence 5 (1 / 3) 1 (fst scenario) (snd scenario) [])))"
proof -
  let ?t = "example_tensor ''HW_a'' ''A'' ''B'' ''x'' 0.9"
  have h1: "in_unit_range ?t" by (simp add: in_unit_range_def unit_def tensor_eval)
  have h2: "distinct (keys (certainty_by_context ?t))" by (simp add: tensor_eval)
  have h3: "confidence_is_mean ?t" by (simp add: confidence_is_mean_def tensor_eval)
  have h4: "unit 0.9" "unit 0.1" by (simp_all add: unit_def)
  obtain m where h6: "merge_with (ascii ''HW_c'') 5 ?t ?t = Inr m"
    using merge_with_fields[of ?t ?t "ascii ''HW_c''" 5] by blast
  have h5: "list_all (\<lambda>e. unit (certainty (fst scenario (e_tensor e)))) (edges (snd scenario))"
    by (simp add: scenario_state(2) scenario_store edge_ab_def edge_bc_def unit_def)
  show ?thesis
    using tensor_metrics_invariant[where now = 5 and t = ?t and ctx = "ascii ''global''"
        and c = "0.9" and tn = "0.1" and hw = "ascii ''HW_c''" and vm = "ascii ''v''" and nt = None
        and other = ?t and h = "fst scenario" and g = "snd scenario" and density = "1 / 3"
        and components = 1 and history = "[]"]
      h1 h2 h3 h4 h5 h6
    by blast
qed

text \<open>
  The claim as stated fails for \<open>merge_with\<close>: a fresh record of confidence 0.8 merged
  with a record of confidence 0.6 that was updated once from the context \<open>ctx\<close> has
  confidence 0.626, while the mean of its per-context confidences is 0.426.
\<close>

theorem merge_with_breaks_mean_counterexample:
  "\<exists>m. merge_with (ascii ''HW_m'') 5
          (example_tensor ''HW_a'' ''A'' ''B'' ''x'' 0.8)
          (update_from_context 5 (ascii ''ctx'') 0.2 0 (example_tensor ''HW_b'' ''A'' ''B'' ''y'' 0.6))
        = Inr m
      \<and> certainty m = 0.626
      \<and> mean_values (dict_values (certainty_by_context m)) = 0.426"
  by (simp add: merge_with_def all_ctx_def tensor_eval)

subsection \<open>Claim C6: merge_with\<close>

lemma map_of_merged_context:
  assumes "merge_with hw now t other = Inr m"
  shows "map_of (certainty_by_context m) ctx =
    (if ctx \<in> set (keys (certainty_by_context t)) \<union> set (keys (certainty_by_context other))
     then Some ((dict_get (certainty_by_context t) ctx 0
                 + dict_get (certainty_by_context other) ctx 0) / 2)
     else if ctx = ascii ''genesis'' then Some ((certainty t + certainty other) / 2)
     else None)"
proof -
  have same: "source t = source other" "target t = target other" "rtype t = rtype other"
    using assms by (auto simp: merge_with_def split: if_splits)
  show ?thesis
    using assms unfolding merge_with_fields[OF same]
    by (auto simp: map_of_fold_update set_all_ctx)
qed

lemma keys_merged_context:
  assumes "merge_with hw now t other = Inr m"
  shows "set (keys (certainty_by_context m)) =
    insert (ascii ''genesis'')
      (set (keys (certainty_by_context t)) \<union> set (keys (certainty_by_context other)))"
proof -
  have same: "source t = source other" "target t = target other" "rtype t = rtype other"
    using assms by (auto simp: merge_with_def split: if_splits)
  have cbc: "certainty_by_context m =
      fold (\<lambda>ctx d. AList.update ctx
                    ((dict_get (certainty_by_context t) ctx 0
                      + dict_get (certainty_by_context other) ctx 0) / 2) d)
        (all_ctx t other) [(ascii ''genesis'', (certainty t + certainty other) / 2)]"
    using assms unfolding merge_with_fields[OF same] by auto
  show ?thesis
    unfolding cbc keys_fold_update set_all_ctx by (auto simp: keys_def)
qed

text \<open>
  Claim C6, as the code has it. \<open>merge_with\<close> raises (a \<open>ValueError\<close>) if and only if
  the two records differ in source, target or type. Otherwise it returns a new record
  with the source, target and type of both, whose confidence is the average of the two
  confidences, whose tension is the maximum of the two tensions, whose parents are the two
  records' ids, and whose context map is keyed by the union of both records' context keys
  together with the key \<open>genesis\<close> that the constructor sets: a key of the union holds the
  average of the two per-context confidences, a missing side counting as 0, and \<open>genesis\<close>,
  when neither record has it, holds the averaged global confidence.
\<close>

theorem merge_with_result:
  "(merge_with hw now t other = Inl ValueError
      \<longleftrightarrow> source t \<noteq> source other \<or> target t \<noteq> target other \<or> rtype t \<noteq> rtype other)
   \<and> (\<forall>e. merge_with hw now t other = Inl e \<longrightarrow> e = ValueError)
   \<and> (\<forall>m. merge_with hw now t other = Inr m \<longrightarrow>
         source m = source t \<and> target m = target t \<and> rtype m = rtype t
         \<and> certainty m = (certainty t + certainty other) / 2
         \<and> tension m = max (tension t) (tension other)
         \<and> parent_tensors m = [habeas_weight_id t, habeas_weight_id other]
         \<and> set (keys (certainty_by_context m)) =
             insert (ascii ''genesis'')
               (set (keys (certainty_by_context t)) \<union> set (keys (certainty_by_context other)))
         \<and> (\<forall>ctx \<in> set (keys (certainty_by_context t)) \<union> set (keys (certainty_by_context other)).
               map_of (certainty_by_context m) ctx =
                 Some ((dict_get (certainty_by_context t) ctx 0
                        + dict_get (certainty_by_context other) ctx 0) / 2))
         \<and> (ascii ''genesis'' \<notin> set (keys (certainty_by_context t))
                                  \<union> set (keys (certainty_by_context other))
              \<longrightarrow> map_of (certainty_by_context m) (ascii ''genesis'')
                    = Some ((certainty t + certainty other) / 2)))"
proof (intro conjI allI impI)
  show "merge_with hw now t other = Inl ValueError
      \<longleftrightarrow> source t \<noteq> source other \<or> target t \<noteq> target other \<or> rtype t \<noteq> rtype other"
    by (auto simp: merge_with_def Let_def)
next
  fix e assume "merge_with hw now t other = Inl e"
  then show "e = ValueError" by (auto simp: merge_with_def Let_def split: if_splits)
next
  fix m assume m: "merge_with hw now t other = Inr m"
  then have same: "source t = source other" "target t = target other" "rtype t = rtype other"
    by (auto simp: merge_with_def split: if_splits)
  have fields: "m = (new_tensor hw now (source t) (target t) (rtype t)
            (merged_meaning (meaning t) (meaning other)) []
            ((certainty t + certainty other) / 2) (max (tension t) (tension other)))
         \<lparr>certainty_by_context := certainty_by_context m,
          parent_tensors := [habeas_weight_id t, habeas_weight_id other]\<rparr>"
    using m unfolding merge_with_fields[OF same] by auto
  show "source m = source t" "target m = target t" "rtype m = rtype t"
    by (subst fields, simp add: new_tensor_def post_init_def tensor_fields_def
        recalculate_metrics_def Let_def)+
  show "certainty m = (certainty t + certainty other) / 2"
    by (subst fields) (simp add: new_tensor_certainty)
  show "tension m = max (tension t) (tension other)"
    by (subst fields) (simp add: new_tensor_certainty)
  show "parent_tensors m = [habeas_weight_id t, habeas_weight_id other]"
    by (subst fields) simp
  show "set (keys (certainty_by_context m)) =
             insert (ascii ''genesis'')
               (set (keys (certainty_by_context t)) \<union> set (keys (certainty_by_context other)))"
    by (rule keys_merged_context[OF m])
  show "\<forall>ctx \<in> set (keys (certainty_by_context t)) \<union> set (keys (certainty_by_context other)).
               map_of (certainty_by_context m) ctx =
                 Some ((dict_get (certainty_by_context t) ctx 0
                        + dict_get (certainty_by_context other) ctx 0) / 2)"
    by (simp add: map_of_merged_context[OF m])
  show "map_of (certainty_by_context m) (ascii ''genesis'')
                    = Some ((certainty t + certainty other) / 2)"
    if "ascii ''genesis'' \<notin> set (keys (certainty_by_context t))
                                  \<union> set (keys (certainty_by_context other))"
    using that by (simp add: map_of_merged_context[OF m])
qed

text \<open>
  The theorem at two records from A to B of confidences 0.8 and 0.6, whose merge has the
  confidence 0.7; at two records built with the context map \<open>{"c1": 0.5}\<close>, whose merge
  holds the averaged confidence under \<open>genesis\<close>; and at a record from A to B with one
  from B to C, which do not merge.
\<close>

theorem merge_with_result_witness:
  "(\<exists>m. merge_with (ascii ''HW_m'') 5 (example_tensor ''HW_a'' ''A'' ''B'' ''x'' 0.8)
          (example_tensor ''HW_b'' ''A'' ''B'' ''y'' 0.6) = Inr m
       \<and> certainty m = 0.7
       \<and> map_of (certainty_by_context m) (ascii ''genesis'') = Some 0.7)
   \<and> (\<exists>m. merge_with (ascii ''HW_m'') 0 bare_tensor bare_tensor = Inr m
       \<and> map_of (certainty_by_context m) (ascii ''genesis'') = Some 0.5)
   \<and> merge_with (ascii ''HW_m'') 5 (example_tensor ''HW_a'' ''A'' ''B'' ''x'' 0.8)
          (example_tensor ''HW_b'' ''B'' ''C'' ''y'' 0.6) = Inl ValueError"
proof -
  let ?a = "example_tensor ''HW_a'' ''A'' ''B'' ''x'' 0.8"
  let ?b = "example_tensor ''HW_b'' ''A'' ''B'' ''y'' 0.6"
  let ?c = "example_tensor ''HW_b'' ''B'' ''C'' ''y'' 0.6"
  have same: "source ?a = source ?b" "target ?a = target ?b" "rtype ?a = rtype ?b"
    by (simp_all add: tensor_eval)
  obtain m where m: "merge_with (ascii ''HW_m'') 5 ?a ?b = Inr m"
    using merge_with_fields[OF same] by blast
  have g: "ascii ''genesis'' \<in> set (keys (certainty_by_context ?a)) \<union> set (keys (certainty_by_context ?b))"
    by (simp add: tensor_eval)
  have "certainty m = (certainty ?a + certainty ?b) / 2"
    and "map_of (certainty_by_context m) (ascii ''genesis'') =
          Some ((dict_get (certainty_by_context ?a) (ascii ''genesis'') 0
                 + dict_get (certainty_by_context ?b) (ascii ''genesis'') 0) / 2)"
    using merge_with_result[of "ascii ''HW_m''" 5 ?a ?b] m g by blast+
  then have 1: "certainty m = 0.7 \<and> map_of (certainty_by_context m) (ascii ''genesis'') = Some 0.7"
    by (simp add: tensor_eval)
  obtain m' where m': "merge_with (ascii ''HW_m'') 0 bare_tensor bare_tensor = Inr m'"
    using merge_with_fields[of bare_tensor bare_tensor] by blast
  have g': "ascii ''genesis'' \<notin> set (keys (certainty_by_context bare_tensor))
                                  \<union> set (keys (certainty_by_context bare_tensor))"
    by (simp add: bare_tensor_def tensor_eval)
  have "map_of (certainty_by_context m') (ascii ''genesis'')
          = Some ((certainty bare_tensor + certainty bare_tensor) / 2)"
    using merge_with_result[of "ascii ''HW_m''" 0 bare_tensor bare_tensor] m' g' by blast
  then have 2: "map_of (certainty_by_context m') (ascii ''genesis'') = Some 0.5"
    by (simp add: bare_tensor_def tensor_eval)
  have "source ?a \<noteq> source ?c" by (simp add: tensor_eval)
  then have 3: "merge_with (ascii ''HW_m'') 5 ?a ?c = Inl ValueError"
    using merge_with_result[of "ascii ''HW_m''" 5 ?a ?c] by blast
  show ?thesis using m 1 m' 2 3 by blast
qed

text \<open>
  The claim as stated fails where neither record has the context \<open>genesis\<close>: two records
  built with the context map \<open>{"c1": 0.5}\<close> merge into a record whose context map has the
  keys \<open>genesis\<close> and \<open>c1\<close>, one more than the union of their keys.
\<close>

theorem merge_with_extra_key_counterexample:
  "keys (certainty_by_context bare_tensor) = [ascii ''c1'']
   \<and> (\<exists>m. merge_with (ascii ''HW_m'') 0 bare_tensor bare_tensor = Inr m
        \<and> keys (certainty_by_context m) = [ascii ''genesis'', ascii ''c1'']
        \<and> set (keys (certainty_by_context m))
            \<noteq> set (keys (certainty_by_context bare_tensor))
                \<union> set (keys (certainty_by_context bare_tensor)))"
  by (simp add: merge_with_def all_ctx_def bare_tensor_def tensor_eval)

section \<open>The claims about add_tensor\<close>

subsection \<open>Claim C1: a second insertion merges\<close>

text \<open>
  Claim C1. Let the graph hold an edge between the incoming record's source and target
  whose record has the incoming record's type and meaning. Then \<open>add_tensor\<close> with
  \<open>auto_merge\<close> returns the id of such a stored record (the first in the order of the
  edges), leaves the edges and the tensor registry as they were, and folds the incoming
  confidence into that record by \<open>update_from_context\<close>: its activation count grows, its
  context map has its former keys and the context of the call, its id and its meaning
  stay. The incoming record may be the stored object itself.
\<close>

theorem add_tensor_merges_into_existing:
  assumes "e \<in> set (edges g)" "e_src e = source (h a)" "e_dst e = target (h a)"
    "rtype (h (e_tensor e)) = rtype (h a)" "meaning (h (e_tensor e)) = meaning (h a)"
  shows "\<exists>x h' g'.
      add_tensor now uid a ctx True (h, g) = (h', g', habeas_weight_id (h x))
    \<and> x \<in> e_tensor ` set (edges_between g (source (h a)) (target (h a)))
    \<and> rtype (h x) = rtype (h a) \<and> meaning (h x) = meaning (h a)
    \<and> edges g' = edges g \<and> tensor_registry g' = tensor_registry g
    \<and> h' x = update_from_context now ctx
               (certainty (update_from_context now ctx (certainty (h a)) 0 (h a))) 0
               (if x = a then update_from_context now ctx (certainty (h a)) 0 (h a) else h x)
    \<and> habeas_weight_id (h' x) = habeas_weight_id (h x)
    \<and> meaning (h' x) = meaning (h x)
    \<and> activation_count (h' x) > activation_count (h x)
    \<and> set (keys (certainty_by_context (h' x)))
        = insert ctx (set (keys (certainty_by_context (h x))))"
proof -
  have "matches h a e" using assms(4,5) by (simp add: matches_def)
  then obtain e0 where f: "find (matches h a) (edges_between g (source (h a)) (target (h a))) = Some e0"
    and e0: "e0 \<in> set (edges_between g (source (h a)) (target (h a)))" and m0: "matches h a e0"
    using find_matches_Some[OF assms(1) assms(2) assms(3)] by blast
  define x where "x = e_tensor e0"
  define r1 where "r1 = update_from_context now ctx (certainty (h a)) 0 (h a)"
  define h' where "h' = (incoming now a ctx h)
        (x := update_from_context now ctx (certainty (incoming now a ctx h a)) 0
                         (incoming now a ctx h x))"
  have res: "add_tensor now uid a ctx True (h, g) = (h', prepare now a ctx h g, habeas_weight_id (h x))"
    using add_tensor_merge[OF _ f, of True now uid ctx] by (simp add: h'_def x_def)
  have hx: "h' x = update_from_context now ctx (certainty r1) 0 (if x = a then r1 else h x)"
    by (simp add: h'_def incoming_def r1_def)
  have 1: "x \<in> e_tensor ` set (edges_between g (source (h a)) (target (h a)))"
    using e0 by (simp add: x_def)
  have 2: "rtype (h x) = rtype (h a)" "meaning (h x) = meaning (h a)"
    using m0 by (simp_all add: matches_def x_def)
  have 3: "habeas_weight_id (h' x) = habeas_weight_id (h x)" "meaning (h' x) = meaning (h x)"
    by (simp_all add: hx r1_def)
  have 4: "activation_count (h' x) > activation_count (h x)"
    by (simp add: hx r1_def)
  have 5: "set (keys (certainty_by_context (h' x))) = insert ctx (set (keys (certainty_by_context (h x))))"
    by (auto simp: hx r1_def update_from_context_keys)
  show ?thesis
    using res 1 2 3 4 5 hx[unfolded r1_def] by (intro exI[of _ x] exI[of _ h'] exI[of _ "prepare now a ctx h g"]) simp
qed

text \<open>
  The theorem in the scenario: the record at 30 is inserted after the edge from A to B.
\<close>

theorem add_tensor_merges_into_existing_witness:
  "edge_ab \<in> set (edges (snd scenario))
   \<and> e_src edge_ab = source (fst scenario 30) \<and> e_dst edge_ab = target (fst scenario 30)
   \<and> (\<exists>x h' g'.
         add_tensor 1 (ascii ''0000000c'') 30 (ascii ''second'') True (fst scenario, snd scenario)
           = (h', g', habeas_weight_id (fst scenario x))
         \<and> edges g' = edges (snd scenario)
         \<and> activation_count (h' x) > activation_count (fst scenario x)
         \<and> set (keys (certainty_by_context (h' x)))
             = insert (ascii ''second'') (set (keys (certainty_by_context (fst scenario x)))))"
proof -
  have 1: "edge_ab \<in> set (edges (snd scenario))" by (simp add: scenario_state)
  have 2: "e_src edge_ab = source (fst scenario 30)" "e_dst edge_ab = target (fst scenario 30)"
    by (simp_all add: scenario_store example_store_fields edge_ab_def)
  have 3: "rtype (fst scenario (e_tensor edge_ab)) = rtype (fst scenario 30)"
    "meaning (fst scenario (e_tensor edge_ab)) = meaning (fst scenario 30)"
    by (simp_all add: scenario_store scenario_state(1) example_store_fields edge_ab_def)
  show ?thesis
    using add_tensor_merges_into_existing[OF 1 2 3, where now = 1 and uid = "ascii ''0000000c''"
        and ctx = "ascii ''second''"]
      1 2
    by blast
qed

subsection \<open>Claim C10: the incoming record is updated first\<close>



section \<open>Properties of the coherence trend\<close>

subsection \<open>Claim C9: get_coherence_trend\<close>

text \<open>
  Claim C9, as the code has it. With an empty history \<open>get_coherence_trend\<close> returns the
  trend \<open>stable\<close> with 0 data points. With a history that is not empty it returns
  \<open>insufficient_data\<close> when fewer than 2 of its points fall within the window, and
  otherwise \<open>improving\<close> if the last point of the window minus the first exceeds 0.05,
  \<open>degrading\<close> if that difference is below -0.05, and \<open>stable\<close> in every other case.
\<close>

theorem get_coherence_trend_cases:
  "trend (get_coherence_trend now window_hours history) =
     (if history = [] then ascii ''stable''
      else if length (recent_points now window_hours history) < 2
        then ascii ''insufficient_data''
      else if snd (last (recent_points now window_hours history))
              - snd (hd (recent_points now window_hours history)) > 0.05
        then ascii ''improving''
      else if snd (last (recent_points now window_hours history))
              - snd (hd (recent_points now window_hours history)) < - 0.05
        then ascii ''degrading''
      else ascii ''stable'')
   \<and> data_points (get_coherence_trend now window_hours history)
       = length (recent_points now window_hours history)"
  by (simp add: get_coherence_trend_def recent_points_def Let_def)

text \<open>
  The claim as stated fails on the empty history: no point falls within the window, and
  the trend is \<open>stable\<close>, not \<open>insufficient_data\<close>.
\<close>

theorem get_coherence_trend_empty_counterexample:
  "length (recent_points 0 24 []) < 2
   \<and> trend (get_coherence_trend 0 24 []) = ascii ''stable''
   \<and> trend (get_coherence_trend 0 24 []) \<noteq> ascii ''insufficient_data''"
  by (simp add: get_coherence_trend_def recent_points_def ascii_def)

section \<open>Properties of the link prediction\<close>

lemma post_init_frame [simp]:
  "source (post_init now t) = source t"
  "target (post_init now t) = target t"
  "rtype (post_init now t) = rtype t"
  "meaning (post_init now t) = meaning t"
  "habeas_weight_id (post_init now t) = habeas_weight_id t"
  "suggested (post_init now t) = suggested t"
  by (simp_all add: post_init_def Let_def)

lemma dream_tensor_fields [simp]:
  "source (dream_tensor now hw a b m c tn) = a"
  "target (dream_tensor now hw a b m c tn) = b"
  "certainty (dream_tensor now hw a b m c tn) = c"
  "tension (dream_tensor now hw a b m c tn) = tn"
  "suggested (dream_tensor now hw a b m c tn) = False"
  by (simp_all add: dream_tensor_def tensor_fields_def post_init_def recalculate_metrics_def
      Let_def mean_values_def dict_values_def)

lemma cycle_suggestion_fields [simp]:
  "source (cycle_suggestion now hw u v k c) = u"
  "target (cycle_suggestion now hw u v k c) = v"
  "certainty (cycle_suggestion now hw u v k c) = c"
  "tension (cycle_suggestion now hw u v k c) = 0.1"
  "suggested (cycle_suggestion now hw u v k c) = False"
  "ethical_status (cycle_suggestion now hw u v k c) = ascii ''dreaming''"
proof -
  show "source (cycle_suggestion now hw u v k c) = u" "target (cycle_suggestion now hw u v k c) = v"
    "suggested (cycle_suggestion now hw u v k c) = False"
    by (simp_all add: cycle_suggestion_def new_tensor_def tensor_fields_def)
  show "certainty (cycle_suggestion now hw u v k c) = c"
    "tension (cycle_suggestion now hw u v k c) = 0.1"
    "ethical_status (cycle_suggestion now hw u v k c) = ascii ''dreaming''"
    by (simp_all add: cycle_suggestion_def new_tensor_certainty)
qed

lemma for_break_invariant:
  assumes "P s" "\<And>x s. x \<in> set xs \<Longrightarrow> P s \<Longrightarrow> P (fst (body x s))"
  shows "P (for_break body xs s)"
  using assms
proof (induction xs arbitrary: s)
  case Nil then show ?case by simp
next
  case (Cons x xs)
  obtain s' brk where b: "body x s = (s', brk)" by (cases "body x s")
  have "P s'" using Cons.prems(2)[of x s] Cons.prems(1) b by simp
  then show ?case using Cons b by (cases brk) auto
qed

lemma for_pairs_invariant:
  assumes "P s" "\<And>a b s. P s \<Longrightarrow> P (fst (body a b s))"
  shows "P (for_pairs body stop xs s)"
  using assms(1)
proof (induction xs arbitrary: s)
  case Nil then show ?case by simp
next
  case (Cons a rest)
  have "P (for_break (body a) rest s)"
    by (rule for_break_invariant[where P = P]) (use Cons.prems assms(2) in auto)
  then show ?case using Cons.IH by (simp add: Let_def)
qed

lemma emit_suggestions [simp]: "fst (fst (emit m s st)) = fst st @ [s]"
  by (cases st) (simp add: emit_def)

lemma hole_step_invariant:
  "no_edge_between g (fst st) \<Longrightarrow>
   no_edge_between g (fst (fst (hole_step g now ids m broker a b st)))"
  by (simp add: hole_step_def Let_def no_edge_between_def)

lemma structural_holes_invariant:
  assumes "no_edge_between g (fst st)"
  shows "no_edge_between g (fst (structural_holes g now ids m st))"
  unfolding structural_holes_def
proof (rule for_break_invariant[where P = "\<lambda>st. no_edge_between g (fst st)", OF assms])
  fix broker and st :: gen_state
  assume P: "no_edge_between g (fst st)"
  have "no_edge_between g (fst (for_pairs (hole_step g now ids m broker) (full m)
          (successors g broker) st))"
    by (rule for_pairs_invariant[where P = "\<lambda>st. no_edge_between g (fst st)", OF P])
       (rule hole_step_invariant)
  then show "no_edge_between g (fst (fst (let neighbors = successors g broker
           in if length neighbors < 2 then (st, False)
              else (let st' = for_pairs (hole_step g now ids m broker) (full m) neighbors st
                    in (st', full m st')))))"
    using P by (simp add: Let_def)
qed

lemma no_edge_between_forward: "no_edge_between g xs \<Longrightarrow> no_forward_edge g xs"
  by (induction xs) (auto simp: no_edge_between_def no_forward_edge_def)

lemma similarity_step_invariant:
  "no_forward_edge g (fst st) \<Longrightarrow>
   no_forward_edge g (fst (fst (similarity_step fmt g now ids m a b st)))"
  by (simp add: similarity_step_def Let_def no_forward_edge_def)

lemma neighbor_similarity_invariant:
  assumes "no_forward_edge g (fst st)"
  shows "no_forward_edge g (fst (neighbor_similarity fmt g now ids m st))"
  unfolding neighbor_similarity_def using assms
  by (auto intro!: for_pairs_invariant[where P = "\<lambda>st. no_forward_edge g (fst st)"]
      similarity_step_invariant)

lemma collect_all:
  assumes "collect f xs = Inr ys" "\<And>x zs. x \<in> set xs \<Longrightarrow> f x = Inr zs \<Longrightarrow> list_all Q zs"
  shows "list_all Q ys"
  using assms
proof (induction xs arbitrary: ys)
  case Nil then show ?case by simp
next
  case (Cons x xs)
  from Cons.prems(1) obtain zs ws where z: "f x = Inr zs" and w: "collect f xs = Inr ws"
    and ys: "ys = zs @ ws"
    by (auto split: sum.splits)
  have "list_all Q zs" using Cons.prems(2)[of x zs] z by simp
  moreover have "list_all Q ws" by (rule Cons.IH[OF w]) (use Cons.prems(2) in auto)
  ultimately show ?case using ys by simp
qed

lemma path_candidate_no_edge:
  "path_candidate g start mid end = Inr zs \<Longrightarrow> list_all (\<lambda>(a, b, c). \<not> has_edge g a b) zs"
  by (auto simp: path_candidate_def Let_def split: if_splits sum.splits)

lemma find_incomplete_paths_no_edge:
  assumes "find_incomplete_paths g = Inr cands"
  shows "list_all (\<lambda>(a, b, c). \<not> has_edge g a b) cands"
  using assms unfolding find_incomplete_paths_def
  by (elim collect_all) (auto intro: path_candidate_no_edge)

lemma completion_step_invariant:
  assumes "no_forward_edge g (fst st)" "case cand of (a, b, c) \<Rightarrow> \<not> has_edge g a b"
  shows "no_forward_edge g (fst (fst (completion_step now ids m cand st)))"
  using assms by (auto simp: completion_step_def no_forward_edge_def split: prod.splits)

lemma path_completion_invariant:
  assumes "no_forward_edge g (fst st)" "path_completion g now ids m st = Inr st'"
  shows "no_forward_edge g (fst st')"
proof (cases "int (length (fst st)) < m")
  case False
  then show ?thesis using assms by (simp add: path_completion_def)
next
  case True
  then obtain cands where c: "find_incomplete_paths g = Inr cands"
    and st': "st' = for_break (completion_step now ids m) cands st"
    using assms(2) by (auto simp: path_completion_def split: sum.splits)
  have all: "list_all (\<lambda>(a, b, c). \<not> has_edge g a b) cands"
    by (rule find_incomplete_paths_no_edge[OF c])
  show ?thesis unfolding st'
  proof (rule for_break_invariant[where P = "\<lambda>st. no_forward_edge g (fst st)", OF assms(1)])
    fix cand and st :: gen_state assume "cand \<in> set cands" "no_forward_edge g (fst st)"
    then show "no_forward_edge g (fst (fst (completion_step now ids m cand st)))"
      using all by (intro completion_step_invariant) (auto simp: list_all_iff)
  qed
qed

lemma set_py_slice_to: "set (py_slice_to n xs) \<subseteq> set xs"
  by (auto simp: py_slice_to_def dest: in_set_takeD)

lemma generate_suggestions_no_forward:
  assumes "generate_suggestions fmt now ids m g engine = Inr (sugs, engine')"
  shows "no_forward_edge g sugs"
proof -
  let ?s1 = "structural_holes g now ids m ([], {})"
  let ?s2 = "neighbor_similarity fmt g now ids m ?s1"
  obtain st where st: "path_completion g now ids m ?s2 = Inr st"
    and sugs: "sugs = py_slice_to m (fst st)"
    using assms by (auto simp: generate_suggestions_def split: sum.splits)
  have "no_edge_between g (fst ?s1)"
    by (rule structural_holes_invariant) (simp add: no_edge_between_def)
  then have "no_forward_edge g (fst ?s2)"
    by (intro neighbor_similarity_invariant no_edge_between_forward)
  then have "no_forward_edge g (fst st)"
    by (rule path_completion_invariant[OF _ st])
  then show ?thesis
    using set_py_slice_to[of m "fst st"] unfolding sugs no_forward_edge_def list_all_iff by blast
qed

lemma dreaming_loop_candidate:
  assumes "int (length sugs) < m" "(u, v) \<notin> proc" "\<not> has_edge g u v" "\<not> has_edge g v u"
    "has_node g u" "has_node g v" "neighbor_set g u \<noteq> []" "neighbor_set g v \<noteq> []"
  shows "dreaming_loop g now ids m ((p, u, v) # q) sugs proc =
    (let intersection = length (set_inter (neighbor_set g u) (neighbor_set g v));
         union = length (set_union (neighbor_set g u) (neighbor_set g v));
         similarity = (if union > 0 then real intersection / real union else 0)
     in if similarity > 0.3
        then dreaming_loop g now ids m q
               (sugs @ [cycle_suggestion now (ids (length sugs)) u v intersection similarity])
               (insert (u, v) proc)
        else dreaming_loop g now ids m q sugs (insert (u, v) proc))"
proof -
  have c: "(\<not> int (length sugs) < m) = False" "((u, v) \<in> proc) = False"
    "(has_edge g u v \<or> has_edge g v u) = False" "(\<not> has_node g u \<or> \<not> has_node g v) = False"
    "(neighbor_set g u = [] \<or> neighbor_set g v = []) = False"
    using assms by simp_all
  show ?thesis
    unfolding dreaming_loop.simps prod.case Let_def c if_False ..
qed

lemma dreaming_loop_invariant:
  "no_edge_between g sugs \<Longrightarrow> dreaming_loop g now ids m q sugs proc = Inr out \<Longrightarrow>
   no_edge_between g out"
proof (induction q arbitrary: sugs proc)
  case Nil then show ?case by simp
next
  case (Cons entry q)
  obtain p u v where e: "entry = (p, u, v)" by (cases entry)
  define k where "k = length (set_inter (neighbor_set g u) (neighbor_set g v))"
  define sim where "sim = (if length (set_union (neighbor_set g u) (neighbor_set g v)) > 0
     then real k / real (length (set_union (neighbor_set g u) (neighbor_set g v))) else 0)"
  define s where "s = cycle_suggestion now (ids (length sugs)) u v k sim"
  have ext: "no_edge_between g (sugs @ [s])" if "\<not> has_edge g u v" "\<not> has_edge g v u"
    using that Cons.prems(1) by (simp add: no_edge_between_def s_def)
  have run: "dreaming_loop g now ids m ((p, u, v) # q) sugs proc = Inr out"
    using Cons.prems(2) by (simp add: e)
  show ?case
  proof (cases "int (length sugs) < m")
    case False
    then show ?thesis using run Cons.prems(1) by simp
  next
    case len: True
    show ?thesis
    proof (cases "(u, v) \<in> proc")
      case True
      then have "dreaming_loop g now ids m q sugs proc = Inr out" using run len by simp
      then show ?thesis by (rule Cons.IH[OF Cons.prems(1)])
    next
      case new: False
      show ?thesis
      proof (cases "has_edge g u v \<or> has_edge g v u")
        case True
        then have "dreaming_loop g now ids m q sugs (insert (u, v) proc) = Inr out"
          using run len new by simp
        then show ?thesis by (rule Cons.IH[OF Cons.prems(1)])
      next
        case free: False
        show ?thesis
        proof (cases "has_node g u \<and> has_node g v")
          case False
          then show ?thesis using run len new free by auto
        next
          case nodes: True
          show ?thesis
          proof (cases "neighbor_set g u = [] \<or> neighbor_set g v = []")
            case True
            then have "dreaming_loop g now ids m q sugs (insert (u, v) proc) = Inr out"
              using run len new free nodes by simp
            then show ?thesis by (rule Cons.IH[OF Cons.prems(1)])
          next
            case nonempty: False
            have step: "dreaming_loop g now ids m ((p, u, v) # q) sugs proc =
                (if sim > 0.3 then dreaming_loop g now ids m q (sugs @ [s]) (insert (u, v) proc)
                 else dreaming_loop g now ids m q sugs (insert (u, v) proc))"
              using dreaming_loop_candidate[of sugs m u v proc g now ids p q] len new free nodes
                nonempty
              unfolding Let_def s_def sim_def k_def by blast
            show ?thesis
            proof (cases "sim > 0.3")
              case True
              then have "dreaming_loop g now ids m q (sugs @ [s]) (insert (u, v) proc) = Inr out"
                using run step by simp
              then show ?thesis using Cons.IH[OF ext] free by blast
            next
              case False
              then have "dreaming_loop g now ids m q sugs (insert (u, v) proc) = Inr out"
                using run step by simp
              then show ?thesis by (rule Cons.IH[OF Cons.prems(1)])
            qed
          qed
        qed
      qed
    qed
  qed
qed

lemma dreaming_cycle_no_edge:
  assumes "dreaming_cycle now ids m g = Inr (sugs, g')"
  shows "no_edge_between g sugs"
  using assms dreaming_loop_invariant[of g "[]" now ids m "heap_order (dreaming_queue g)" "{}" sugs]
  by (auto simp: dreaming_cycle_def no_edge_between_def split: if_splits sum.splits)

lemmas triangle_eval =
  triangle_def plain_edge_def empty_graph_def has_edge_def has_node_def successors_def
  predecessors_def neighbor_set_def set_inter_def set_union_def dedup_def ascii_def
  edges_between_def edge_key_def lambda_type_def degree_def

lemma triangle_holes:
  "structural_holes triangle now ids 10 ([], {}) = ([], {})"
  by (simp add: structural_holes_def triangle_eval)

lemma triangle_jaccard: "jaccard_similarity triangle (ascii ''A'') (ascii ''C'') = 1 / 3"
  by (simp add: jaccard_similarity_def triangle_eval Let_def)

lemma triangle_similarity:
  "neighbor_similarity fmt triangle now ids 10 ([], {}) = ([], {})"
  by (simp add: neighbor_similarity_def similarity_step_def jaccard_similarity_def Let_def
      full_def triangle_eval)

lemma triangle_incomplete:
  "find_incomplete_paths triangle =
     Inr [(ascii ''A'', ascii ''C'', 0.7), (ascii ''B'', ascii ''A'', 0.7),
          (ascii ''C'', ascii ''B'', 0.7)]"
  by (simp add: find_incomplete_paths_def path_candidate_def hop_certainty_def Let_def
      triangle_eval)

lemma collect_total:
  assumes "\<And>x. x \<in> set xs \<Longrightarrow> \<exists>ys. f x = Inr ys"
  shows "\<exists>ys. collect f xs = Inr ys"
  using assms
proof (induction xs)
  case Nil then show ?case by simp
next
  case (Cons x xs)
  obtain ys where "f x = Inr ys" using Cons.prems[of x] by auto
  moreover obtain zs where "collect f xs = Inr zs" using Cons.IH Cons.prems by auto
  ultimately show ?case by simp
qed

lemma hop_certainty_total:
  assumes "\<forall>e \<in> set (edges g). e_key e \<noteq> ascii ''tensor''"
  shows "hop_certainty g u v = Inr 0.7"
  using assms by (auto simp: hop_certainty_def edges_between_def list_ex_iff)

lemma find_incomplete_paths_total:
  assumes "\<forall>e \<in> set (edges g). e_key e \<noteq> ascii ''tensor''"
  shows "\<exists>cands. find_incomplete_paths g = Inr cands"
  unfolding find_incomplete_paths_def
  by (intro collect_total) (simp add: path_candidate_def hop_certainty_total[OF assms] Let_def)

lemma generate_suggestions_total:
  assumes "\<forall>e \<in> set (edges g). e_key e \<noteq> ascii ''tensor''"
  shows "\<exists>sugs engine'. generate_suggestions fmt now ids m g engine = Inr (sugs, engine')"
proof -
  obtain cands where "find_incomplete_paths g = Inr cands"
    using find_incomplete_paths_total[OF assms] by blast
  then show ?thesis
    by (simp add: generate_suggestions_def path_completion_def)
qed

lemma dreaming_loop_total:
  assumes "\<forall>(p, u, v) \<in> set q. has_node g u \<and> has_node g v"
  shows "\<exists>out. dreaming_loop g now ids m q sugs proc = Inr out"
  using assms
proof (induction q arbitrary: sugs proc)
  case Nil then show ?case by simp
next
  case (Cons entry q)
  obtain p u v where e: "entry = (p, u, v)" by (cases entry)
  have n: "has_node g u" "has_node g v" using Cons.prems e by auto
  have ih: "\<And>sugs proc. \<exists>out. dreaming_loop g now ids m q sugs proc = Inr out"
    using Cons.IH Cons.prems by auto
  show ?case unfolding e dreaming_loop.simps prod.case Let_def using n ih by simp
qed

lemma dreaming_cycle_total:
  assumes "\<forall>(p, u, v) \<in> set (dreaming_queue g). has_node g u \<and> has_node g v"
  shows "\<exists>sugs g'. dreaming_cycle now ids m g = Inr (sugs, g')"
proof (cases "length (nodes g) < 3")
  case True then show ?thesis by (simp add: dreaming_cycle_def)
next
  case False
  have "\<forall>(p, u, v) \<in> set (heap_order (dreaming_queue g)). has_node g u \<and> has_node g v"
    using assms by simp
  then obtain out where "dreaming_loop g now ids m (heap_order (dreaming_queue g)) [] {} = Inr out"
    using dreaming_loop_total by blast
  then show ?thesis using False by (simp add: dreaming_cycle_def)
qed

lemma cycle_similarity_is_jaccard:
  assumes "has_node g u" "has_node g v" "neighbor_set g u \<noteq> []" "neighbor_set g v \<noteq> []"
  shows "(if length (set_union (neighbor_set g u) (neighbor_set g v)) > 0
          then real (length (set_inter (neighbor_set g u) (neighbor_set g v)))
               / real (length (set_union (neighbor_set g u) (neighbor_set g v)))
          else 0) = jaccard_similarity g u v"
  using assms by (simp add: jaccard_similarity_def Let_def)

lemmas stale_eval =
  stale_graph_def plain_edge_def empty_graph_def has_edge_def has_node_def successors_def
  predecessors_def neighbor_set_def set_inter_def set_union_def dedup_def ascii_def
  edges_between_def edge_key_def lambda_type_def

lemma stale_queue_order: "heap_order (dreaming_queue stale_graph) = dreaming_queue stale_graph"
  by (simp add: stale_graph_def empty_graph_def ascii_def heap_eval)

lemma stale_cycle:
  "dreaming_cycle 0 ids 10 stale_graph =
     Inr ([cycle_suggestion 0 (ids 0) (ascii ''A'') (ascii ''C'') 1 (1 / 3)],
          stale_graph\<lparr>last_dreaming := Some 0\<rparr>)"
proof -
  have "dreaming_loop stale_graph 0 ids 10 (dreaming_queue stale_graph) [] {} =
      Inr [cycle_suggestion 0 (ids 0) (ascii ''A'') (ascii ''C'') 1 (1 / 3)]"
    by (simp add: stale_eval Let_def)
  moreover have "\<not> length (nodes stale_graph) < 3" by (simp add: stale_graph_def)
  ultimately show ?thesis by (simp add: dreaming_cycle_def stale_queue_order)
qed

lemma recalculate_status:
  "ethical_status (recalculate_metrics now t) \<noteq> ascii ''dreaming''"
  by (simp add: recalculate_metrics_def Let_def ascii_def)

lemma update_from_context_status:
  "ethical_status (update_from_context now ctx c tn t) \<noteq> ascii ''dreaming''"
  by (simp add: update_from_context_def activate_def Let_def recalculate_status)

lemma add_tensor_incoming_fields:
  assumes "add_tensor now uid a ctx auto_merge (h, g) = (h', g', rid)"
  shows "meaning (h' a) = meaning (h a) \<and> suggested (h' a) = suggested (h a)
         \<and> ethical_status (h' a) \<noteq> ascii ''dreaming''"
proof (cases "auto_merge \<and> find (matches h a) (edges_between g (source (h a)) (target (h a))) \<noteq> None")
  case True
  then obtain e0 where f: "find (matches h a) (edges_between g (source (h a)) (target (h a))) = Some e0"
    by auto
  define r1 where "r1 = update_from_context now ctx (certainty (h a)) 0 (h a)"
  have r1: "incoming now a ctx h a = r1" by (simp add: incoming_def r1_def)
  have "h' a = (if a = e_tensor e0 then update_from_context now ctx (certainty r1) 0 r1 else r1)"
    using assms r1 unfolding add_tensor_merge[OF conjunct1[OF True] f] by auto
  then show ?thesis
    by (simp add: r1_def update_from_context_status)
next
  case False
  then have ins: "\<not> auto_merge \<or> find (matches h a) (edges_between g (source (h a)) (target (h a))) = None"
    by auto
  have "h' a = update_from_context now ctx (certainty (h a)) 0 (h a)"
    using assms unfolding add_tensor_insert[OF ins] by (auto simp: incoming_def)
  then show ?thesis by (simp add: update_from_context_status)
qed

lemma str_replace_prefix:
  assumes "old \<noteq> []"
  shows "str_replace old new (old @ rest) = new @ str_replace old new rest"
proof -
  obtain c cs where o: "old = c # cs" using assms by (cases old) auto
  have "str_replace_from old new (old @ rest) = new @ str_replace_from old new rest"
    unfolding o by simp
  then show ?thesis using assms by (simp add: str_replace_def)
qed

lemma accept_suggestion_dreaming:
  assumes "ethical_status (h a) = ascii ''dreaming''"
  shows "\<exists>h' g' rid.
      add_tensor now uid a ctx True
        (h(a := (h a)\<lparr>ethical_status := ascii ''active'',
                      meaning := str_replace dream_prefix accepted_prefix (meaning (h a))\<rparr>), g)
        = (h', g', rid)
      \<and> accept_suggestion now uid a ctx (h, g) = Inr (h', g')
      \<and> meaning (h' a) = str_replace dream_prefix accepted_prefix (meaning (h a))
      \<and> suggested (h' a) = suggested (h a)
      \<and> ethical_status (h' a) \<noteq> ascii ''dreaming''"
proof -
  define h0 where "h0 = h(a := (h a)\<lparr>ethical_status := ascii ''active'',
                      meaning := str_replace dream_prefix accepted_prefix (meaning (h a))\<rparr>)"
  obtain h' g' rid where r: "add_tensor now uid a ctx True (h0, g) = (h', g', rid)"
    by (cases "add_tensor now uid a ctx True (h0, g)")
  have "accept_suggestion now uid a ctx (h, g) = Inr (h', g')"
    using assms r by (simp add: accept_suggestion_def h0_def)
  moreover have "meaning (h' a) = meaning (h0 a)" "suggested (h' a) = suggested (h0 a)"
    "ethical_status (h' a) \<noteq> ascii ''dreaming''"
    using add_tensor_incoming_fields[OF r] by simp_all
  ultimately show ?thesis using r unfolding h0_def by simp
qed

subsection \<open>Claim C2: suggestions and existing edges\<close>

text \<open>
  Claim C2, as the code has it. No suggestion of \<open>generate_suggestions\<close>, whichever of
  the three strategies made it, joins a source to a target that already have a direct
  edge from the source to the target. No suggestion of the structural-holes strategy and
  no suggestion of the graph-level \<open>dreaming_cycle\<close> joins two nodes that have a direct
  edge in either direction. \<open>generate_suggestions\<close> returns whenever no edge key is the
  string \<open>tensor\<close>, and \<open>dreaming_cycle\<close> whenever the names in its queue are nodes of
  the graph. The path-completion strategy tests the forward direction only, as its
  docstring says (a path from A over B to C without an edge from A to C); an edge from
  the target back to the source is left out of the statement for the neighbour-similarity
  strategy.
\<close>

theorem suggestions_avoid_existing_edges:
  "(\<forall>sugs engine'. generate_suggestions fmt now ids m g engine = Inr (sugs, engine')
       \<longrightarrow> no_forward_edge g sugs)
   \<and> ((\<forall>e \<in> set (edges g). e_key e \<noteq> ascii ''tensor'')
       \<longrightarrow> (\<exists>sugs engine'. generate_suggestions fmt now ids m g engine = Inr (sugs, engine')))
   \<and> no_edge_between g (fst (structural_holes g now ids m ([], {})))
   \<and> (\<forall>sugs g'. dreaming_cycle now ids m g = Inr (sugs, g') \<longrightarrow> no_edge_between g sugs)
   \<and> ((\<forall>(p, u, v) \<in> set (dreaming_queue g). has_node g u \<and> has_node g v)
       \<longrightarrow> (\<exists>sugs g'. dreaming_cycle now ids m g = Inr (sugs, g')))"
proof (intro conjI allI impI)
  show "no_forward_edge g sugs"
    if "generate_suggestions fmt now ids m g engine = Inr (sugs, engine')" for sugs engine'
    using that by (rule generate_suggestions_no_forward)
  show "\<exists>sugs engine'. generate_suggestions fmt now ids m g engine = Inr (sugs, engine')"
    if "\<forall>e \<in> set (edges g). e_key e \<noteq> ascii ''tensor''"
    using that by (rule generate_suggestions_total)
  show "no_edge_between g (fst (structural_holes g now ids m ([], {})))"
    by (rule structural_holes_invariant) (simp add: no_edge_between_def)
  show "no_edge_between g sugs" if "dreaming_cycle now ids m g = Inr (sugs, g')" for sugs g'
    using that by (rule dreaming_cycle_no_edge)
  show "\<exists>sugs g'. dreaming_cycle now ids m g = Inr (sugs, g')"
    if "\<forall>(p, u, v) \<in> set (dreaming_queue g). has_node g u \<and> has_node g v"
    using that by (rule dreaming_cycle_total)
qed

text \<open>
  The theorem on the triangle, whose edge keys are those of \<open>add_tensor\<close>, and on the
  stale graph, whose queue names nodes of the graph.
\<close>

theorem suggestions_avoid_existing_edges_witness:
  "(\<exists>sugs engine'.
     generate_suggestions (\<lambda>x. []) 0 (\<lambda>k. []) 10 triangle idle_engine = Inr (sugs, engine')
     \<and> no_forward_edge triangle sugs)
   \<and> (\<exists>sugs g'. dreaming_cycle 0 (\<lambda>k. []) 10 stale_graph = Inr (sugs, g')
        \<and> no_edge_between stale_graph sugs)"
proof -
  have 1: "\<forall>e \<in> set (edges triangle). e_key e \<noteq> ascii ''tensor''"
    by (simp add: triangle_eval)
  have 2: "\<forall>(p, u, v) \<in> set (dreaming_queue stale_graph).
             has_node stale_graph u \<and> has_node stale_graph v"
    by (simp add: stale_eval)
  show ?thesis
    using suggestions_avoid_existing_edges[where fmt = "\<lambda>x. []" and now = 0 and ids = "\<lambda>k. []"
        and m = 10 and g = triangle and engine = idle_engine] 1
      suggestions_avoid_existing_edges[where fmt = "\<lambda>x. []" and now = 0 and ids = "\<lambda>k. []"
        and m = 10 and g = stale_graph and engine = idle_engine] 2
    by blast
qed

text \<open>
  The claim as stated fails on the triangle: path completion suggests the pairs (A, C),
  (B, A) and (C, B), and each of them has a direct edge in the reverse direction.
\<close>

theorem path_completion_reverse_edge_counterexample:
  "\<exists>sugs engine'.
     generate_suggestions (\<lambda>x. []) 0 (\<lambda>k. []) 10 triangle idle_engine = Inr (sugs, engine')
     \<and> map (\<lambda>s. (source s, target s)) sugs
         = [(ascii ''A'', ascii ''C''), (ascii ''B'', ascii ''A''), (ascii ''C'', ascii ''B'')]
     \<and> has_edge triangle (ascii ''C'') (ascii ''A'')
     \<and> has_edge triangle (ascii ''A'') (ascii ''B'')
     \<and> has_edge triangle (ascii ''B'') (ascii ''C'')"
proof -
  have "path_completion triangle 0 (\<lambda>k. []) 10 ([], {}) =
     Inr ([dream_tensor 0 [] (ascii ''A'') (ascii ''C'') completion_meaning 0.7 0.05,
           dream_tensor 0 [] (ascii ''B'') (ascii ''A'') completion_meaning 0.7 0.05,
           dream_tensor 0 [] (ascii ''C'') (ascii ''B'') completion_meaning 0.7 0.05],
          {(ascii ''C'', ascii ''B''), (ascii ''B'', ascii ''A''), (ascii ''A'', ascii ''C'')})"
    by (simp add: path_completion_def triangle_incomplete completion_step_def emit_def ascii_def)
  then have "generate_suggestions (\<lambda>x. []) 0 (\<lambda>k. []) 10 triangle idle_engine =
     Inr ([dream_tensor 0 [] (ascii ''A'') (ascii ''C'') completion_meaning 0.7 0.05,
           dream_tensor 0 [] (ascii ''B'') (ascii ''A'') completion_meaning 0.7 0.05,
           dream_tensor 0 [] (ascii ''C'') (ascii ''B'') completion_meaning 0.7 0.05],
          idle_engine\<lparr>total_suggestions := total_suggestions idle_engine + 3,
                       engine_last_dreaming := Some 0\<rparr>)"
    by (simp add: generate_suggestions_def triangle_holes triangle_similarity py_slice_to_def)
  moreover have "has_edge triangle (ascii ''C'') (ascii ''A'')"
     "has_edge triangle (ascii ''A'') (ascii ''B'')" "has_edge triangle (ascii ''B'') (ascii ''C'')"
    by (simp_all add: triangle_eval)
  ultimately show ?thesis by simp
qed

subsection \<open>Claim C4: accept_suggestion\<close>

text \<open>
  Claim C4, as the code has it. \<open>accept_suggestion\<close> raises (a \<open>ValueError\<close>) if and only
  if the \<open>ethical_status\<close> of the record is not \<open>dreaming\<close>; the flag \<open>suggested\<close> is not
  consulted. On success it sets the status to \<open>active\<close>, replaces every occurrence of the
  hypothesis wording in the meaning by the accepted-hypothesis wording (so a meaning that
  starts with the one starts with the other afterwards), and inserts the record by
  \<open>add_tensor\<close> with \<open>auto_merge\<close>, which keeps the meaning and leaves a status other
  than \<open>dreaming\<close>.
\<close>

theorem accept_suggestion_result:
  "(accept_suggestion now uid a ctx (h, g) = Inl ValueError
      \<longleftrightarrow> ethical_status (h a) \<noteq> ascii ''dreaming'')
   \<and> (\<forall>e. accept_suggestion now uid a ctx (h, g) = Inl e \<longrightarrow> e = ValueError)
   \<and> (ethical_status (h a) = ascii ''dreaming'' \<longrightarrow>
        (\<exists>h' g' rid.
           add_tensor now uid a ctx True
             (h(a := (h a)\<lparr>ethical_status := ascii ''active'',
                           meaning := str_replace dream_prefix accepted_prefix (meaning (h a))\<rparr>), g)
             = (h', g', rid)
           \<and> accept_suggestion now uid a ctx (h, g) = Inr (h', g')
           \<and> meaning (h' a) = str_replace dream_prefix accepted_prefix (meaning (h a))
           \<and> ethical_status (h' a) \<noteq> ascii ''dreaming''))
   \<and> str_replace dream_prefix accepted_prefix (dream_prefix @ rest)
       = accepted_prefix @ str_replace dream_prefix accepted_prefix rest"
proof (intro conjI allI impI)
  show "accept_suggestion now uid a ctx (h, g) = Inl ValueError
      \<longleftrightarrow> ethical_status (h a) \<noteq> ascii ''dreaming''"
    by (auto simp: accept_suggestion_def split: prod.splits)
  show "e = ValueError" if "accept_suggestion now uid a ctx (h, g) = Inl e" for e
    using that by (auto simp: accept_suggestion_def split: prod.splits if_splits)
  show "\<exists>h' g' rid.
           add_tensor now uid a ctx True
             (h(a := (h a)\<lparr>ethical_status := ascii ''active'',
                           meaning := str_replace dream_prefix accepted_prefix (meaning (h a))\<rparr>), g)
             = (h', g', rid)
           \<and> accept_suggestion now uid a ctx (h, g) = Inr (h', g')
           \<and> meaning (h' a) = str_replace dream_prefix accepted_prefix (meaning (h a))
           \<and> ethical_status (h' a) \<noteq> ascii ''dreaming''"
    if "ethical_status (h a) = ascii ''dreaming''"
    using accept_suggestion_dreaming[where h = h and a = a and now = now and uid = uid
        and ctx = ctx and g = g] that by blast
  show "str_replace dream_prefix accepted_prefix (dream_prefix @ rest)
       = accepted_prefix @ str_replace dream_prefix accepted_prefix rest"
    by (rule str_replace_prefix) (simp add: dream_prefix_def)
qed

text \<open>
  The theorem at a suggestion of \<open>dreaming_cycle\<close>, whose status is \<open>dreaming\<close>, and
  at a stored record of the scenario, whose status is \<open>active\<close>.
\<close>

theorem accept_suggestion_result_witness:
  "ethical_status (dream_store 10) = ascii ''dreaming''
   \<and> (\<exists>h' g'. accept_suggestion 1 (ascii ''0000000e'') 10 (ascii ''dream_accepted'')
                 (dream_store, stale_graph) = Inr (h', g')
        \<and> meaning (h' 10)
            = str_replace dream_prefix accepted_prefix (meaning (dream_store 10)))
   \<and> str_replace dream_prefix accepted_prefix (dream_prefix @ [32, 120])
       = accepted_prefix @ [32, 120]
   \<and> accept_suggestion 1 (ascii ''0000000e'') 10 (ascii ''dream_accepted'')
        (example_store, stale_graph) = Inl ValueError"
proof -
  have d: "ethical_status (dream_store 10) = ascii ''dreaming''"
    by (simp add: dream_store_def)
  have r: "str_replace dream_prefix accepted_prefix [32, 120] = [32, 120]"
    by (simp add: str_replace_def dream_prefix_def)
  have a: "ethical_status (example_store 10) \<noteq> ascii ''dreaming''"
    by (simp add: example_store_def tensor_eval)
  note t = accept_suggestion_result[where h = dream_store and a = 10 and now = 1
        and uid = "ascii ''0000000e''" and ctx = "ascii ''dream_accepted''" and g = stale_graph
        and rest = "[32, 120]"]
  note t' = accept_suggestion_result[where h = example_store and a = 10 and now = 1
        and uid = "ascii ''0000000e''" and ctx = "ascii ''dream_accepted''" and g = stale_graph,
        THEN conjunct1]
  have "accept_suggestion 1 (ascii ''0000000e'') 10 (ascii ''dream_accepted'')
        (example_store, stale_graph) = Inl ValueError"
    using t' a by blast
  then show ?thesis using t d r by auto
qed

text \<open>
  The claim as stated fails in both directions: a suggestion of \<open>dreaming_cycle\<close> has
  \<open>suggested\<close> false and is accepted; a stored record whose flag \<open>suggested\<close> is true and
  whose status is \<open>active\<close> is refused.
\<close>

theorem accept_suggestion_flag_counterexample:
  "\<not> suggested (dream_store 10)
   \<and> (\<exists>h' g'. accept_suggestion 1 (ascii ''0000000e'') 10 (ascii ''dream_accepted'')
                 (dream_store, stale_graph) = Inr (h', g'))
   \<and> suggested ((example_store 10)\<lparr>suggested := True\<rparr>)
   \<and> accept_suggestion 1 (ascii ''0000000e'') 10 (ascii ''dream_accepted'')
        (example_store(10 := (example_store 10)\<lparr>suggested := True\<rparr>), stale_graph)
      = Inl ValueError"
proof -
  have d: "ethical_status (dream_store 10) = ascii ''dreaming''" "\<not> suggested (dream_store 10)"
    by (simp_all add: dream_store_def)
  have 1: "\<exists>h' g'. accept_suggestion 1 (ascii ''0000000e'') 10 (ascii ''dream_accepted'')
                 (dream_store, stale_graph) = Inr (h', g')"
    using accept_suggestion_dreaming[where h = dream_store and a = 10 and now = 1
        and uid = "ascii ''0000000e''" and ctx = "ascii ''dream_accepted''" and g = stale_graph]
      d by auto
  have "ethical_status (example_store 10) = ascii ''active''"
    by (simp add: example_store_def tensor_eval)
  then have 2: "accept_suggestion 1 (ascii ''0000000e'') 10 (ascii ''dream_accepted'')
        (example_store(10 := (example_store 10)\<lparr>suggested := True\<rparr>), stale_graph)
      = Inl ValueError"
    by (simp add: accept_suggestion_def ascii_def)
  show ?thesis using d 1 2 by simp
qed

subsection \<open>The loops of neighbour similarity in closed form\<close>

lemma for_break_append:
  assumes H: "\<And>x s. \<not> stop s \<Longrightarrow> snd (f x s) = stop (fst (f x s))" and s: "\<not> stop s"
  shows "for_break f (xs @ ys) s =
     (let r = for_break f xs s in if stop r then r else for_break f ys r)"
  using s
proof (induction xs arbitrary: s)
  case Nil then show ?case by simp
next
  case (Cons x xs)
  obtain s' brk where b: "f x s = (s', brk)" by (cases "f x s")
  have brk: "brk = stop s'" using H[OF Cons.prems, of x] b by simp
  show ?case
  proof (cases brk)
    case True
    then show ?thesis using b brk by simp
  next
    case False
    then have "\<not> stop s'" using brk by simp
    from Cons.IH[OF this] show ?thesis using b False by simp
  qed
qed

lemma for_break_map: "for_break f (map h xs) s = for_break (\<lambda>x. f (h x)) xs s"
  by (induction xs arbitrary: s) (auto split: prod.splits)

lemma for_pairs_flat:
  assumes H: "\<And>a b s. \<not> stop s \<Longrightarrow> snd (body a b s) = stop (fst (body a b s))"
    and s: "\<not> stop s"
  shows "for_pairs body stop xs s = for_break (\<lambda>(a, b). body a b) (all_pairs xs) s"
  using s
proof (induction xs arbitrary: s)
  case Nil then show ?case by simp
next
  case (Cons a rest)
  define r where "r = for_break (body a) rest s"
  have H': "\<And>x s. \<not> stop s \<Longrightarrow>
      snd ((\<lambda>(a, b). body a b) x s) = stop (fst ((\<lambda>(a, b). body a b) x s))"
    using H by (auto split: prod.splits)
  have m: "for_break (\<lambda>(a, b). body a b) (map (Pair a) rest) s = r"
    by (simp add: for_break_map r_def)
  have "for_break (\<lambda>(a, b). body a b) (all_pairs (a # rest)) s =
      (if stop r then r else for_break (\<lambda>(a, b). body a b) (all_pairs rest) r)"
    using for_break_append[where f = "\<lambda>(a, b). body a b" and stop = stop, OF H' Cons.prems,
        of "map (Pair a) rest" "all_pairs rest"]
    by (simp add: m Let_def)
  moreover have "for_pairs body stop (a # rest) s =
      (if stop r then r else for_pairs body stop rest r)"
    by (simp add: r_def Let_def)
  ultimately show ?case using Cons.IH[of r] by simp
qed


lemma all_pairs_members: "(a, b) \<in> set (all_pairs xs) \<Longrightarrow> a \<in> set xs \<and> b \<in> set xs"
  by (induction xs) auto

lemma distinct_all_pairs: "distinct xs \<Longrightarrow> distinct (all_pairs xs)"
proof (induction xs)
  case Nil then show ?case by simp
next
  case (Cons x xs)
  have "distinct (map (Pair x) xs)" using Cons.prems by (simp add: distinct_map inj_on_def)
  moreover have "set (map (Pair x) xs) \<inter> set (all_pairs xs) = {}"
    using Cons.prems by (auto dest: all_pairs_members)
  ultimately show ?case using Cons by simp
qed

lemma similarity_step_flag:
  "\<not> full m st \<Longrightarrow>
   snd (similarity_step fmt g now ids m a b st)
     = full m (fst (similarity_step fmt g now ids m a b st))"
  by (cases st) (auto simp: similarity_step_def emit_def full_def Let_def)

lemma similarity_suggestions_Cons:
  "similarity_suggestions fmt g now ids k ((a, b) # pairs) =
     dream_tensor now (ids k) a b (similarity_meaning fmt (jaccard_similarity g a b))
       (jaccard_similarity g a b) 0.05
     # similarity_suggestions fmt g now ids (Suc k) pairs"
  by (simp add: similarity_suggestions_def)

lemma similarity_loop:
  assumes "distinct ps" "int (length sugs) < m"
  shows "for_break (\<lambda>(a, b). similarity_step fmt g now ids m a b) ps (sugs, proc) =
     (let new = take (nat (m - int (length sugs)))
                  (filter (\<lambda>(a, b). (a, b) \<notin> proc \<and> \<not> has_edge g a b
                                    \<and> jaccard_similarity g a b > 0.35) ps)
      in (sugs @ similarity_suggestions fmt g now ids (length sugs) new, proc \<union> set new))"
proof -
  define ok where "ok = (\<lambda>proc (a, b). (a, b) \<notin> proc \<and> \<not> has_edge g a b
                                    \<and> jaccard_similarity g a b > 0.35)"
  define F where "F = (\<lambda>(a, b). similarity_step fmt g now ids m a b)"
  have "for_break F ps (sugs, proc) =
     (sugs @ similarity_suggestions fmt g now ids (length sugs)
               (take (nat (m - int (length sugs))) (filter (ok proc) ps)),
      proc \<union> set (take (nat (m - int (length sugs))) (filter (ok proc) ps)))"
    using assms
  proof (induction ps arbitrary: sugs proc)
    case Nil
    then show ?case by (simp add: similarity_suggestions_def)
  next
    case (Cons x ps)
    obtain a b where x: "x = (a, b)" by (cases x)
    define t where "t = dream_tensor now (ids (length sugs)) a b
         (similarity_meaning fmt (jaccard_similarity g a b)) (jaccard_similarity g a b) 0.05"
    have d: "distinct ps" "(a, b) \<notin> set ps" using Cons.prems(1) x by auto
    show ?case
    proof (cases "ok proc (a, b)")
      case False
      then have "F x (sugs, proc) = ((sugs, proc), False)"
        by (auto simp: F_def x similarity_step_def ok_def Let_def)
      then have "for_break F (x # ps) (sugs, proc) = for_break F ps (sugs, proc)" by simp
      moreover have "filter (ok proc) (x # ps) = filter (ok proc) ps" using False x by simp
      ultimately show ?thesis using Cons.IH[OF d(1) Cons.prems(2), of proc] by simp
    next
      case True
      then have step: "F x (sugs, proc)
          = ((sugs @ [t], insert (a, b) proc), int (length sugs) + 1 \<ge> m)"
        by (auto simp: F_def x similarity_step_def ok_def Let_def emit_def t_def)
      have fx: "filter (ok proc) (x # ps) = (a, b) # filter (ok proc) ps" using True x by simp
      have same: "filter (ok (insert (a, b) proc)) ps = filter (ok proc) ps"
        using d(2) by (intro filter_cong) (auto simp: ok_def)
      obtain n where n: "nat (m - int (length sugs)) = Suc n"
        using Cons.prems(2) by (cases "nat (m - int (length sugs))") auto
      then have n': "nat (m - int (length (sugs @ [t]))) = n" by simp
      show ?thesis
      proof (cases "int (length sugs) + 1 \<ge> m")
        case full: True
        then have "n = 0" using n Cons.prems(2) by simp
        moreover have "for_break F (x # ps) (sugs, proc) = (sugs @ [t], insert (a, b) proc)"
          using step full by simp
        ultimately show ?thesis
          unfolding fx n by (simp add: similarity_suggestions_def t_def)
      next
        case more: False
        then have lt: "int (length (sugs @ [t])) < m" by simp
        have "for_break F (x # ps) (sugs, proc) = for_break F ps (sugs @ [t], insert (a, b) proc)"
          using step more by simp
        also have "\<dots> = ((sugs @ [t]) @ similarity_suggestions fmt g now ids (length (sugs @ [t]))
                               (take n (filter (ok proc) ps)),
                          insert (a, b) proc \<union> set (take n (filter (ok proc) ps)))"
          using Cons.IH[OF d(1) lt, of "insert (a, b) proc"] unfolding n' same .
        finally show ?thesis
          unfolding fx n by (simp add: similarity_suggestions_Cons t_def)
      qed
    qed
  qed
  then show ?thesis unfolding F_def ok_def Let_def .
qed

lemma neighbor_similarity_exact:
  assumes "distinct (nodes g)" "int (length sugs) < m"
  shows "neighbor_similarity fmt g now ids m (sugs, proc) =
     (let new = take (nat (m - int (length sugs))) (similar_pairs g proc)
      in (sugs @ similarity_suggestions fmt g now ids (length sugs) new, proc \<union> set new))"
proof -
  have "\<not> full m (sugs, proc)" using assms(2) by (simp add: full_def)
  then have "for_pairs (similarity_step fmt g now ids m) (full m) (nodes g) (sugs, proc)
      = for_break (\<lambda>(a, b). similarity_step fmt g now ids m a b) (all_pairs (nodes g)) (sugs, proc)"
    by (intro for_pairs_flat similarity_step_flag)
  then show ?thesis
    using assms similarity_loop[OF distinct_all_pairs[OF assms(1)] assms(2), of fmt g now ids proc]
    by (simp add: neighbor_similarity_def similar_pairs_def)
qed


lemma dedup_Cons: "dedup (x # xs) = x # filter (\<lambda>y. y \<noteq> x) (dedup xs)"
proof -
  have "remdups (ys @ [x]) = filter (\<lambda>y. y \<noteq> x) (remdups ys) @ [x]" for ys
    by (induction ys) auto
  then show ?thesis by (simp add: dedup_def rev_filter)
qed

lemma cycle_suggestions_Cons:
  "cycle_suggestions g now ids k ((u, v) # pairs) =
     cycle_suggestion now (ids k) u v (length (set_inter (neighbor_set g u) (neighbor_set g v)))
       (jaccard_similarity g u v)
     # cycle_suggestions g now ids (Suc k) pairs"
  by (simp add: cycle_suggestions_def)

lemma dreaming_loop_exact:
  assumes "\<forall>(p, u, v) \<in> set es. has_node g u \<and> has_node g v"
  shows "dreaming_loop g now ids m es sugs proc =
     Inr (sugs @ cycle_suggestions g now ids (length sugs)
            (take (nat (m - int (length sugs)))
               (filter (\<lambda>(u, v). \<not> has_edge g u v \<and> \<not> has_edge g v u
                                  \<and> neighbor_set g u \<noteq> [] \<and> neighbor_set g v \<noteq> []
                                  \<and> jaccard_similarity g u v > 0.3)
                  (filter (\<lambda>x. x \<notin> proc) (dedup (map snd es))))))"
proof -
  define ok where "ok = (\<lambda>(u, v). \<not> has_edge g u v \<and> \<not> has_edge g v u
                                  \<and> neighbor_set g u \<noteq> [] \<and> neighbor_set g v \<noteq> []
                                  \<and> jaccard_similarity g u v > 0.3)"
  define cand where "cand = (\<lambda>proc (es :: (real \<times> str \<times> str) list). filter ok (filter (\<lambda>x. x \<notin> proc) (dedup (map snd es))))"
  have "dreaming_loop g now ids m es sugs proc =
     Inr (sugs @ cycle_suggestions g now ids (length sugs)
            (take (nat (m - int (length sugs))) (cand proc es)))"
    using assms
  proof (induction es arbitrary: sugs proc)
    case Nil
    then show ?case by (simp add: cand_def dedup_def cycle_suggestions_def)
  next
    case (Cons entry es)
    obtain p u v where e: "entry = (p, u, v)" by (cases entry)
    have nodes: "has_node g u" "has_node g v" using Cons.prems e by auto
    have rest: "\<forall>(p, u, v) \<in> set es. has_node g u \<and> has_node g v" using Cons.prems by auto
    note ih = Cons.IH[OF rest]
    define D where "D = dedup (map snd es)"
    have dd: "dedup (map snd (entry # es)) = (u, v) # filter (\<lambda>y. y \<noteq> (u, v)) D"
      by (simp add: e dedup_Cons D_def)
    have c0: "cand proc (entry # es)
        = filter ok (filter (\<lambda>x. x \<notin> proc) ((u, v) # filter (\<lambda>y. y \<noteq> (u, v)) D))" for proc
      unfolding cand_def dd ..
    have c1: "cand proc es = filter ok (filter (\<lambda>x. x \<notin> proc) D)" for proc
      unfolding cand_def D_def ..
    have seen: "cand proc (entry # es) = cand proc es" if "(u, v) \<in> proc"
    proof -
      have "filter (\<lambda>x. x \<notin> proc) ((u, v) # filter (\<lambda>y. y \<noteq> (u, v)) D)
          = filter (\<lambda>x. x \<notin> proc) D"
        using that by (auto intro: filter_cong)
      then show ?thesis unfolding c0 c1 by (simp only:)
    qed
    have fresh: "cand proc (entry # es) =
        (if ok (u, v) then (u, v) # cand (insert (u, v) proc) es else cand (insert (u, v) proc) es)"
      if "(u, v) \<notin> proc"
    proof -
      have "filter (\<lambda>x. x \<notin> proc) ((u, v) # filter (\<lambda>y. y \<noteq> (u, v)) D)
          = (u, v) # filter (\<lambda>x. x \<notin> insert (u, v) proc) D"
        using that by (auto intro: filter_cong)
      then have "cand proc (entry # es)
          = filter ok ((u, v) # filter (\<lambda>x. x \<notin> insert (u, v) proc) D)"
        unfolding c0 by (simp only:)
      then show ?thesis unfolding c1 by (simp del: filter_filter)
    qed
    show ?case
    proof (cases "int (length sugs) < m")
      case False
      then have "dreaming_loop g now ids m (entry # es) sugs proc = Inr sugs" by (simp add: e)
      moreover have "nat (m - int (length sugs)) = 0" using False by simp
      ultimately show ?thesis by (simp add: cycle_suggestions_def)
    next
      case len: True
      obtain n where n: "nat (m - int (length sugs)) = Suc n"
        using len by (cases "nat (m - int (length sugs))") auto
      show ?thesis
      proof (cases "(u, v) \<in> proc")
        case True
        then have "dreaming_loop g now ids m (entry # es) sugs proc
            = dreaming_loop g now ids m es sugs proc"
          using len by (simp add: e)
        then show ?thesis using ih[of sugs proc] seen[OF True] by simp
      next
        case new: False
        show ?thesis
        proof (cases "has_edge g u v \<or> has_edge g v u")
          case True
          then have "dreaming_loop g now ids m (entry # es) sugs proc
              = dreaming_loop g now ids m es sugs (insert (u, v) proc)"
            using len new by (simp add: e)
          moreover have "\<not> ok (u, v)" using True by (auto simp: ok_def)
          ultimately show ?thesis using ih[of sugs "insert (u, v) proc"] fresh[OF new] by simp
        next
          case free: False
          show ?thesis
          proof (cases "neighbor_set g u = [] \<or> neighbor_set g v = []")
            case True
            then have "dreaming_loop g now ids m (entry # es) sugs proc
                = dreaming_loop g now ids m es sugs (insert (u, v) proc)"
              using len new free nodes by (simp add: e)
            moreover have "\<not> ok (u, v)" using True by (auto simp: ok_def)
            ultimately show ?thesis using ih[of sugs "insert (u, v) proc"] fresh[OF new] by simp
          next
            case nonempty: False
            define k where "k = length (set_inter (neighbor_set g u) (neighbor_set g v))"
            define s where "s = cycle_suggestion now (ids (length sugs)) u v k
                                  (jaccard_similarity g u v)"
            have j: "(if length (set_union (neighbor_set g u) (neighbor_set g v)) > 0
                then real (length (set_inter (neighbor_set g u) (neighbor_set g v)))
                     / real (length (set_union (neighbor_set g u) (neighbor_set g v)))
                else 0) = jaccard_similarity g u v"
              using nodes nonempty by (intro cycle_similarity_is_jaccard) simp_all
            have step: "dreaming_loop g now ids m (entry # es) sugs proc =
                (if jaccard_similarity g u v > 0.3
                 then dreaming_loop g now ids m es (sugs @ [s]) (insert (u, v) proc)
                 else dreaming_loop g now ids m es sugs (insert (u, v) proc))"
              using dreaming_loop_candidate[of sugs m u v proc g now ids p es] len new free nodes
                nonempty
              unfolding Let_def j e s_def k_def by blast
            have okj: "ok (u, v) = (jaccard_similarity g u v > 0.3)"
              using free nonempty by (auto simp: ok_def)
            show ?thesis
            proof (cases "jaccard_similarity g u v > 0.3")
              case True
              have n': "nat (m - int (length (sugs @ [s]))) = n" using n by simp
              have "dreaming_loop g now ids m (entry # es) sugs proc
                  = Inr ((sugs @ [s]) @ cycle_suggestions g now ids (length (sugs @ [s]))
                           (take n (cand (insert (u, v) proc) es)))"
                using step True ih[of "sugs @ [s]" "insert (u, v) proc"] unfolding n' by simp
              moreover have "cand proc (entry # es) = (u, v) # cand (insert (u, v) proc) es"
                using fresh[OF new] okj True by simp
              ultimately show ?thesis
                unfolding n by (simp add: cycle_suggestions_Cons s_def k_def)
            next
              case False
              then have "dreaming_loop g now ids m (entry # es) sugs proc
                  = dreaming_loop g now ids m es sugs (insert (u, v) proc)"
                using step by simp
              moreover have "\<not> ok (u, v)" using okj False by simp
              ultimately show ?thesis using ih[of sugs "insert (u, v) proc"] fresh[OF new] by simp
            qed
          qed
        qed
      qed
    qed
  qed
  then show ?thesis unfolding cand_def ok_def .
qed

lemma dreaming_cycle_exact:
  assumes "length (nodes g) \<ge> 3"
    "\<forall>(p, u, v) \<in> set (dreaming_queue g). has_node g u \<and> has_node g v"
  shows "dreaming_cycle now ids m g =
     Inr (cycle_suggestions g now ids 0 (take (nat m) (cycle_pairs g)),
          g\<lparr>last_dreaming := Some now\<rparr>)"
proof -
  have "\<forall>(p, u, v) \<in> set (heap_order (dreaming_queue g)). has_node g u \<and> has_node g v"
    using assms(2) by simp
  from dreaming_loop_exact[OF this, of now ids m "[]" "{}"] show ?thesis
    using assms(1) by (simp add: dreaming_cycle_def cycle_pairs_def)
qed


lemma neighbor_similarity_result:
  assumes "distinct (nodes g)"
  shows "neighbor_similarity fmt g now ids m st =
     (fst st @ similarity_suggestions fmt g now ids (length (fst st)) (emitted_pairs g m st),
      snd st \<union> set (emitted_pairs g m st))"
proof (cases "int (length (fst st)) < m")
  case True
  show ?thesis
    using neighbor_similarity_exact[OF assms True, of fmt now ids "snd st"] True
    by (simp add: emitted_pairs_def Let_def)
next
  case False
  then show ?thesis
    by (simp add: neighbor_similarity_def emitted_pairs_def similarity_suggestions_def)
qed

lemma completion_step_extends:
  "\<exists>xs. fst (fst (completion_step now ids m cand st)) = fst st @ xs"
  by (cases st) (auto simp: completion_step_def emit_def split: prod.splits)

lemma path_completion_extends:
  assumes "path_completion g now ids m st = Inr st'"
  shows "\<exists>paths. fst st' = fst st @ paths"
proof (cases "int (length (fst st)) < m")
  case False
  then show ?thesis using assms by (simp add: path_completion_def)
next
  case True
  then obtain cands where st': "st' = for_break (completion_step now ids m) cands st"
    using assms by (auto simp: path_completion_def split: sum.splits)
  show ?thesis unfolding st'
  proof (rule for_break_invariant[where P = "\<lambda>s. \<exists>paths. fst s = fst st @ paths"])
    show "\<exists>paths. fst st = fst st @ paths" by simp
    fix cand and s :: gen_state
    assume "\<exists>paths. fst s = fst st @ paths"
    then obtain paths where p: "fst s = fst st @ paths" by blast
    obtain xs where "fst (fst (completion_step now ids m cand s)) = fst s @ xs"
      using completion_step_extends by blast
    then show "\<exists>paths. fst (fst (completion_step now ids m cand s)) = fst st @ paths"
      using p by simp
  qed
qed

lemma generate_suggestions_similarity:
  assumes "distinct (nodes g)" "generate_suggestions fmt now ids m g engine = Inr (out, engine')"
  shows "\<exists>paths. out = py_slice_to m
           (fst (structural_holes g now ids m ([], {}))
            @ similarity_suggestions fmt g now ids
                (length (fst (structural_holes g now ids m ([], {}))))
                (emitted_pairs g m (structural_holes g now ids m ([], {})))
            @ paths)"
proof -
  let ?s1 = "structural_holes g now ids m ([], {})"
  let ?s2 = "neighbor_similarity fmt g now ids m ?s1"
  obtain st where st: "path_completion g now ids m ?s2 = Inr st"
    and out: "out = py_slice_to m (fst st)"
    using assms(2) by (auto simp: generate_suggestions_def split: sum.splits)
  obtain paths where "fst st = fst ?s2 @ paths" using path_completion_extends[OF st] by blast
  then show ?thesis unfolding out neighbor_similarity_result[OF assms(1)] by auto
qed

lemma similar_pairs_sound:
  "(a, b) \<in> set (similar_pairs g proc) \<Longrightarrow>
     (a, b) \<notin> proc \<and> \<not> has_edge g a b \<and> jaccard_similarity g a b > 0.35"
  by (simp add: similar_pairs_def)

lemma similarity_suggestions_all:
  assumes "\<And>a b. (a, b) \<in> set pairs \<Longrightarrow> P a b"
  shows "list_all (\<lambda>t. P (source t) (target t)
                      \<and> certainty t = jaccard_similarity g (source t) (target t)
                      \<and> tension t = 0.05)
           (similarity_suggestions fmt g now ids k pairs)"
  using assms
proof (induction pairs arbitrary: k)
  case Nil
  then show ?case by (simp add: similarity_suggestions_def)
next
  case (Cons x pairs)
  obtain a b where x: "x = (a, b)" by (cases x)
  have "P a b" using Cons.prems x by simp
  moreover have "\<And>a b. (a, b) \<in> set pairs \<Longrightarrow> P a b" using Cons.prems by simp
  ultimately show ?case using Cons.IH[of "Suc k"] by (simp add: x similarity_suggestions_Cons)
qed

lemma cycle_suggestions_all:
  assumes "\<And>a b. (a, b) \<in> set pairs \<Longrightarrow> P a b"
  shows "list_all (\<lambda>t. P (source t) (target t)
                      \<and> certainty t = jaccard_similarity g (source t) (target t)
                      \<and> tension t = 0.1)
           (cycle_suggestions g now ids k pairs)"
  using assms
proof (induction pairs arbitrary: k)
  case Nil
  then show ?case by (simp add: cycle_suggestions_def)
next
  case (Cons x pairs)
  obtain a b where x: "x = (a, b)" by (cases x)
  have "P a b" using Cons.prems x by simp
  moreover have "\<And>a b. (a, b) \<in> set pairs \<Longrightarrow> P a b" using Cons.prems by simp
  ultimately show ?case using Cons.IH[of "Suc k"] by (simp add: x cycle_suggestions_Cons)
qed

lemma emitted_pairs_sound:
  "(a, b) \<in> set (emitted_pairs g m st) \<Longrightarrow>
     (a, b) \<notin> snd st \<and> \<not> has_edge g a b \<and> jaccard_similarity g a b > 0.35"
  by (auto simp: emitted_pairs_def dest!: in_set_takeD similar_pairs_sound split: if_splits)

lemma cycle_pairs_sound:
  "(u, v) \<in> set (take n (cycle_pairs g)) \<Longrightarrow>
     \<not> has_edge g u v \<and> \<not> has_edge g v u \<and> jaccard_similarity g u v > 0.3"
  by (auto simp: cycle_pairs_def dest!: in_set_takeD)

lemma stale_distinct: "distinct (nodes stale_graph)"
  by (simp add: stale_graph_def ascii_def)

lemma stale_similar_pairs:
  "similar_pairs stale_graph {} =
     [(ascii ''X'', ascii ''Y''), (ascii ''X'', ascii ''Z'')]"
  by (simp add: similar_pairs_def jaccard_similarity_def stale_eval Let_def)

lemma stale_jaccard:
  "jaccard_similarity stale_graph (ascii ''X'') (ascii ''Y'') = 1 / 2"
  "jaccard_similarity stale_graph (ascii ''X'') (ascii ''Z'') = 1 / 2"
  "jaccard_similarity stale_graph (ascii ''A'') (ascii ''C'') = 1 / 3"
  by (simp_all add: jaccard_similarity_def stale_eval Let_def)

lemma stale_cycle_pairs: "cycle_pairs stale_graph = [(ascii ''A'', ascii ''C'')]"
  unfolding cycle_pairs_def stale_queue_order
  by (simp add: jaccard_similarity_def stale_eval Let_def)

subsection \<open>Claim C8: the thresholds of neighbour similarity\<close>

text \<open>
  Claim C8, as the code has it, for a graph whose nodes are pairwise different (they are
  the keys of a dictionary). In the engine, the neighbour-similarity strategy appends to the
  suggestions exactly the suggestions of the emitted pairs: the pairs of nodes, in order
  and up to the number still allowed, that are not yet processed, have no edge from the
  first to the second node and have a Jaccard similarity greater than 0.35; it adds those
  pairs to the processed ones. Each such suggestion has the similarity as its confidence
  and the tension 0.05. Whatever \<open>generate_suggestions\<close> returns is the slice of the
  structural holes, followed by exactly these suggestions, followed by path completions.
  The graph-level \<open>dreaming_cycle\<close> returns nothing on fewer than three nodes; otherwise,
  the names in its queue being nodes, it returns exactly the suggestions of the first
  pairs of the queue, each taken once in the order of \<open>heappop\<close>, that have no edge in
  either direction, neighbours on both sides and a Jaccard similarity greater than 0.3;
  each has the similarity as its confidence and the tension 0.1. The claim has the two
  thresholds the other way round.
\<close>

theorem neighbor_similarity_thresholds:
  assumes "distinct (nodes g)"
  shows
  "neighbor_similarity fmt g now ids m st =
     (fst st @ similarity_suggestions fmt g now ids (length (fst st)) (emitted_pairs g m st),
      snd st \<union> set (emitted_pairs g m st))
   \<and> list_all (\<lambda>t. jaccard_similarity g (source t) (target t) > 0.35
                     \<and> certainty t = jaccard_similarity g (source t) (target t)
                     \<and> tension t = 0.05)
        (similarity_suggestions fmt g now ids (length (fst st)) (emitted_pairs g m st))
   \<and> (\<forall>out engine'. generate_suggestions fmt now ids m g engine = Inr (out, engine') \<longrightarrow>
        (\<exists>paths. out = py_slice_to m
           (fst (structural_holes g now ids m ([], {}))
            @ similarity_suggestions fmt g now ids
                (length (fst (structural_holes g now ids m ([], {}))))
                (emitted_pairs g m (structural_holes g now ids m ([], {})))
            @ paths)))
   \<and> (length (nodes g) < 3 \<longrightarrow> dreaming_cycle now ids m g = Inr ([], g))
   \<and> (length (nodes g) \<ge> 3
        \<and> (\<forall>(p, u, v) \<in> set (dreaming_queue g). has_node g u \<and> has_node g v) \<longrightarrow>
        dreaming_cycle now ids m g =
          Inr (cycle_suggestions g now ids 0 (take (nat m) (cycle_pairs g)),
               g\<lparr>last_dreaming := Some now\<rparr>))
   \<and> list_all (\<lambda>t. jaccard_similarity g (source t) (target t) > 0.3
                     \<and> certainty t = jaccard_similarity g (source t) (target t)
                     \<and> tension t = 0.1)
        (cycle_suggestions g now ids 0 (take (nat m) (cycle_pairs g)))"
proof (intro conjI allI impI)
  show "neighbor_similarity fmt g now ids m st =
     (fst st @ similarity_suggestions fmt g now ids (length (fst st)) (emitted_pairs g m st),
      snd st \<union> set (emitted_pairs g m st))"
    by (rule neighbor_similarity_result[OF assms])
  show "list_all (\<lambda>t. jaccard_similarity g (source t) (target t) > 0.35
                     \<and> certainty t = jaccard_similarity g (source t) (target t)
                     \<and> tension t = 0.05)
        (similarity_suggestions fmt g now ids (length (fst st)) (emitted_pairs g m st))"
    by (rule similarity_suggestions_all) (use emitted_pairs_sound in blast)
  show "\<exists>paths. out = py_slice_to m
           (fst (structural_holes g now ids m ([], {}))
            @ similarity_suggestions fmt g now ids
                (length (fst (structural_holes g now ids m ([], {}))))
                (emitted_pairs g m (structural_holes g now ids m ([], {})))
            @ paths)"
    if "generate_suggestions fmt now ids m g engine = Inr (out, engine')" for out engine'
    using that by (rule generate_suggestions_similarity[OF assms])
  show "dreaming_cycle now ids m g = Inr ([], g)" if "length (nodes g) < 3"
    using that by (simp add: dreaming_cycle_def)
  show "dreaming_cycle now ids m g =
          Inr (cycle_suggestions g now ids 0 (take (nat m) (cycle_pairs g)),
               g\<lparr>last_dreaming := Some now\<rparr>)"
    if "length (nodes g) \<ge> 3
        \<and> (\<forall>(p, u, v) \<in> set (dreaming_queue g). has_node g u \<and> has_node g v)"
    using that by (intro dreaming_cycle_exact) simp_all
  show "list_all (\<lambda>t. jaccard_similarity g (source t) (target t) > 0.3
                     \<and> certainty t = jaccard_similarity g (source t) (target t)
                     \<and> tension t = 0.1)
        (cycle_suggestions g now ids 0 (take (nat m) (cycle_pairs g)))"
    by (rule cycle_suggestions_all) (use cycle_pairs_sound in blast)
qed

text \<open>
  The theorem on the stale graph and ten suggestions. The engine emits the pairs (X, Y)
  and (X, Z), both of similarity 1/2; \<open>dreaming_cycle\<close> emits the pair (A, C), of
  similarity 1/3.
\<close>

theorem neighbor_similarity_thresholds_witness:
  "distinct (nodes stale_graph)
   \<and> neighbor_similarity (\<lambda>x. []) stale_graph 0 (\<lambda>k. []) 10 ([], {}) =
       (similarity_suggestions (\<lambda>x. []) stale_graph 0 (\<lambda>k. []) 0
          [(ascii ''X'', ascii ''Y''), (ascii ''X'', ascii ''Z'')],
        {(ascii ''X'', ascii ''Y''), (ascii ''X'', ascii ''Z'')})
   \<and> map certainty (similarity_suggestions (\<lambda>x. []) stale_graph 0 (\<lambda>k. []) 0
          [(ascii ''X'', ascii ''Y''), (ascii ''X'', ascii ''Z'')]) = [1 / 2, 1 / 2]
   \<and> map tension (similarity_suggestions (\<lambda>x. []) stale_graph 0 (\<lambda>k. []) 0
          [(ascii ''X'', ascii ''Y''), (ascii ''X'', ascii ''Z'')]) = [0.05, 0.05]
   \<and> dreaming_cycle 0 (\<lambda>k. []) 10 stale_graph =
       Inr (cycle_suggestions stale_graph 0 (\<lambda>k. []) 0 [(ascii ''A'', ascii ''C'')],
            stale_graph\<lparr>last_dreaming := Some 0\<rparr>)
   \<and> map certainty (cycle_suggestions stale_graph 0 (\<lambda>k. []) 0 [(ascii ''A'', ascii ''C'')])
       = [1 / 3]
   \<and> map tension (cycle_suggestions stale_graph 0 (\<lambda>k. []) 0 [(ascii ''A'', ascii ''C'')])
       = [0.1]"
proof -
  note t = neighbor_similarity_thresholds[OF stale_distinct, where fmt = "\<lambda>x. []" and now = 0
      and ids = "\<lambda>k. []" and m = 10 and st = "([], {})" and engine = idle_engine]
  have e: "emitted_pairs stale_graph 10 ([], {})
      = [(ascii ''X'', ascii ''Y''), (ascii ''X'', ascii ''Z'')]"
    by (simp add: emitted_pairs_def stale_similar_pairs)
  have h: "length (nodes stale_graph) \<ge> 3
        \<and> (\<forall>(p, u, v) \<in> set (dreaming_queue stale_graph).
               has_node stale_graph u \<and> has_node stale_graph v)"
    by (simp add: stale_eval)
  have 1: "neighbor_similarity (\<lambda>x. []) stale_graph 0 (\<lambda>k. []) 10 ([], {}) =
       (similarity_suggestions (\<lambda>x. []) stale_graph 0 (\<lambda>k. []) 0
          [(ascii ''X'', ascii ''Y''), (ascii ''X'', ascii ''Z'')],
        {(ascii ''X'', ascii ''Y''), (ascii ''X'', ascii ''Z'')})"
    using t[THEN conjunct1] unfolding e by simp
  have 2: "dreaming_cycle 0 (\<lambda>k. []) 10 stale_graph =
       Inr (cycle_suggestions stale_graph 0 (\<lambda>k. []) 0 [(ascii ''A'', ascii ''C'')],
            stale_graph\<lparr>last_dreaming := Some 0\<rparr>)"
    using t[THEN conjunct2, THEN conjunct2, THEN conjunct2, THEN conjunct2, THEN conjunct1] h
    by (simp add: stale_cycle_pairs)
  show ?thesis
    using 1 2 stale_distinct
    by (simp add: similarity_suggestions_def cycle_suggestions_def stale_jaccard)
qed

text \<open>
  The claim as stated fails on the stale graph at the pair (A, C), which has no edge in
  either direction and the similarity 1/3, between the two thresholds: the engine, said
  to emit above 0.3, emits the pairs (X, Y) and (X, Z) and not (A, C), and
  \<open>dreaming_cycle\<close>, said to emit only above 0.35, emits (A, C) with the confidence 1/3.
\<close>

theorem neighbor_similarity_thresholds_counterexample:
  "jaccard_similarity stale_graph (ascii ''A'') (ascii ''C'') = 1 / 3
   \<and> (1 / 3 :: real) > 0.3 \<and> \<not> (1 / 3 :: real) > 0.35
   \<and> \<not> has_edge stale_graph (ascii ''A'') (ascii ''C'')
   \<and> \<not> has_edge stale_graph (ascii ''C'') (ascii ''A'')
   \<and> map source (fst (neighbor_similarity (\<lambda>x. []) stale_graph 0 (\<lambda>k. []) 10 ([], {})))
       = [ascii ''X'', ascii ''X'']
   \<and> map target (fst (neighbor_similarity (\<lambda>x. []) stale_graph 0 (\<lambda>k. []) 10 ([], {})))
       = [ascii ''Y'', ascii ''Z'']
   \<and> dreaming_cycle 0 (\<lambda>k. []) 10 stale_graph =
       Inr ([cycle_suggestion 0 [] (ascii ''A'') (ascii ''C'') 1 (1 / 3)],
            stale_graph\<lparr>last_dreaming := Some 0\<rparr>)
   \<and> certainty (cycle_suggestion 0 [] (ascii ''A'') (ascii ''C'') 1 (1 / 3)) = 1 / 3"
proof -
  have e: "emitted_pairs stale_graph 10 ([], {})
      = [(ascii ''X'', ascii ''Y''), (ascii ''X'', ascii ''Z'')]"
    by (simp add: emitted_pairs_def stale_similar_pairs)
  have 1: "fst (neighbor_similarity (\<lambda>x. []) stale_graph 0 (\<lambda>k. []) 10 ([], {}))
      = similarity_suggestions (\<lambda>x. []) stale_graph 0 (\<lambda>k. []) 0
          [(ascii ''X'', ascii ''Y''), (ascii ''X'', ascii ''Z'')]"
    unfolding neighbor_similarity_result[OF stale_distinct] e by simp
  have 2: "\<not> has_edge stale_graph (ascii ''A'') (ascii ''C'')
      \<and> \<not> has_edge stale_graph (ascii ''C'') (ascii ''A'')"
    by (simp add: stale_eval)
  show ?thesis
    unfolding 1 using 2
    by (simp add: stale_jaccard stale_cycle similarity_suggestions_def)
qed

section \<open>Properties of the import\<close>

lemma from_dict_frame [simp]:
  "source (from_dict now hw d) = source d" "target (from_dict now hw d) = target d"
  "rtype (from_dict now hw d) = rtype d" "meaning (from_dict now hw d) = meaning d"
  by (simp_all add: from_dict_def Let_def new_tensor_def tensor_fields_def)

lemma replay_edges_Cons:
  "replay_edges now hws uids fresh k (d # rest) hg =
     replay_edges now hws uids fresh (Suc k) rest (replay_step now hws uids fresh k d hg)"
  by (cases hg) (simp add: replay_step_def then_add_def split: prod.splits)

lemma replay_edges_append:
  "replay_edges now hws uids fresh k (ds @ [d]) hg =
     replay_step now hws uids fresh (k + length ds) d (replay_edges now hws uids fresh k ds hg)"
proof (induction ds arbitrary: k hg)
  case Nil
  show ?case by (simp add: replay_edges_Cons del: replay_edges.simps(2))
next
  case (Cons x ds)
  show ?case
    using Cons.IH[of "Suc k"] by (simp add: replay_edges_Cons del: replay_edges.simps(2))
qed

lemma nx_add_node_nodes: "set (nodes (nx_add_node n g)) = insert n (set (nodes g))"
  by (auto simp: nx_add_node_def)

lemma nx_add_edge_nodes:
  "set (nodes (nx_add_edge u v k a now ctx g)) = insert u (insert v (set (nodes g)))"
  by (auto simp: nx_add_edge_def Let_def nx_add_node_nodes)

lemma nx_add_edge_all:
  assumes "list_all P (edges g)"
    "\<And>e. e_src e = u \<Longrightarrow> e_dst e = v \<Longrightarrow> e_tensor e = a \<Longrightarrow> e_context_id e = ctx \<Longrightarrow> P e"
  shows "list_all P (edges (nx_add_edge u v k a now ctx g))"
  using assms by (auto simp: nx_add_edge_def Let_def list_all_iff)

lemma insert_new_tensor_nodes:
  "set (nodes (insert_new_tensor now uid a ctx u v h g)) = insert u (insert v (set (nodes g)))"
  by (simp add: insert_new_tensor_def Let_def nx_add_edge_nodes)

lemma insert_new_tensor_all:
  assumes "list_all P (edges g)"
    "\<And>e. e_src e = u \<Longrightarrow> e_dst e = v \<Longrightarrow> e_tensor e = a \<Longrightarrow> e_context_id e = ctx \<Longrightarrow> P e"
  shows "list_all P (edges (insert_new_tensor now uid a ctx u v h g))"
  using nx_add_edge_all[OF assms] by (simp add: insert_new_tensor_def Let_def)

lemma then_add_graph:
  assumes "then_add now uid a ctx (h, g) = (h', g')"
  shows "set (nodes g') = insert (source (h a)) (insert (target (h a)) (set (nodes g)))"
    and "list_all P (edges g) \<Longrightarrow>
         (\<And>e. e_src e = source (h a) \<Longrightarrow> e_dst e = target (h a) \<Longrightarrow> e_tensor e = a
               \<Longrightarrow> e_context_id e = ctx \<Longrightarrow> P e) \<Longrightarrow> list_all P (edges g')"
proof -
  consider (merge) e0 where "find (matches h a) (edges_between g (source (h a)) (target (h a))) = Some e0"
    | (ins) "find (matches h a) (edges_between g (source (h a)) (target (h a))) = None"
    by (cases "find (matches h a) (edges_between g (source (h a)) (target (h a)))") auto
  then have g': "g' = prepare now a ctx h g
      \<or> g' = insert_new_tensor now uid a ctx (source (h a)) (target (h a)) (incoming now a ctx h)
               (prepare now a ctx h g)"
  proof cases
    case merge
    show ?thesis using assms unfolding then_add_def add_tensor_merge[OF TrueI merge] by simp
  next
    case ins
    then have "\<not> True \<or> find (matches h a) (edges_between g (source (h a)) (target (h a))) = None"
      by simp
    from add_tensor_insert[OF this] show ?thesis using assms unfolding then_add_def by auto
  qed
  then show "set (nodes g') = insert (source (h a)) (insert (target (h a)) (set (nodes g)))"
    by (auto simp: prepare_nodes insert_new_tensor_nodes)
  show "list_all P (edges g')"
    if "list_all P (edges g)"
      "\<And>e. e_src e = source (h a) \<Longrightarrow> e_dst e = target (h a) \<Longrightarrow> e_tensor e = a
               \<Longrightarrow> e_context_id e = ctx \<Longrightarrow> P e"
  proof -
    have "list_all P (edges (prepare now a ctx h g))" using that(1) by simp
    then show ?thesis using g' that(2) by (auto intro: insert_new_tensor_all)
  qed
qed

lemma fold_nx_add_node:
  "set (nodes (fold nx_add_node ns g)) = set ns \<union> set (nodes g)"
  "edges (fold nx_add_node ns g) = edges g"
  by (induction ns arbitrary: g) (auto simp: nx_add_node_nodes)

lemma fold_nx_add_node_queue:
  "dreaming_queue (fold nx_add_node ns g) = dreaming_queue g"
  by (induction ns arbitrary: g) (auto simp: nx_add_node_def)

lemma restored_edge_mono:
  "restored_edge fresh ds e \<Longrightarrow> restored_edge fresh (ds @ [d]) e"
  by (auto simp: restored_edge_def list_ex_iff nth_append)

lemma replay_edges_graph:
  assumes "replay_edges now hws uids fresh 0 ds (h, g) = (h', g')"
  shows "set (nodes g') = set (nodes g) \<union> source ` set ds \<union> target ` set ds
       \<and> (list_all (restored_edge fresh []) (edges g)
           \<longrightarrow> list_all (restored_edge fresh ds) (edges g'))"
  using assms
proof (induction ds arbitrary: h' g' rule: rev_induct)
  case Nil
  then show ?case by simp
next
  case (snoc d ds)
  obtain h1 g1 where r1: "replay_edges now hws uids fresh 0 ds (h, g) = (h1, g1)"
    by (cases "replay_edges now hws uids fresh 0 ds (h, g)")
  define h2 where "h2 = h1(fresh (length ds) := from_dict now (hws (length ds)) d)"
  have step: "then_add now (uids (length ds)) (fresh (length ds)) restored_context (h2, g1) = (h', g')"
    using snoc.prems r1 by (simp add: replay_edges_append replay_step_def h2_def)
  have st: "source (h2 (fresh (length ds))) = source d" "target (h2 (fresh (length ds))) = target d"
    by (simp_all add: h2_def)
  have n: "set (nodes g') = insert (source d) (insert (target d) (set (nodes g1)))"
    using then_add_graph(1)[OF step] st by simp
  have e: "list_all (restored_edge fresh (ds @ [d])) (edges g')"
    if "list_all (restored_edge fresh ds) (edges g1)"
  proof (rule then_add_graph(2)[OF step])
    show "list_all (restored_edge fresh (ds @ [d])) (edges g1)"
      using that by (auto simp: list_all_iff intro: restored_edge_mono)
    fix e :: edge assume "e_src e = source (h2 (fresh (length ds)))"
      "e_dst e = target (h2 (fresh (length ds)))" "e_tensor e = fresh (length ds)"
      "e_context_id e = restored_context"
    then show "restored_edge fresh (ds @ [d]) e"
      unfolding st by (auto simp: restored_edge_def list_ex_iff nth_append)
  qed
  show ?case using snoc.IH[OF r1] n e by auto
qed

lemma nx_add_edge_queue [simp]:
  "dreaming_queue (nx_add_edge u v k a now ctx g) = dreaming_queue g"
  by (simp add: nx_add_edge_def Let_def nx_add_node_def)

lemma load_from_yaml_graph:
  "load_from_yaml now hws uids fresh doc (h, g)
     = load_from_yaml now hws uids fresh doc (h, g\<lparr>nodes := [], edges := []\<rparr>)"
  "load_from_yaml now hws uids fresh (doc\<lparr>doc_edges := doc_edges doc @ [d]\<rparr>) (h, g)
     = replay_step now hws uids fresh (length (doc_edges doc)) d
         (load_from_yaml now hws uids fresh doc (h, g))"
  "load_from_yaml now hws uids fresh (doc\<lparr>doc_edges := []\<rparr>) (h, g)
     = (h, fold nx_add_node (doc_nodes doc) (g\<lparr>nodes := [], edges := []\<rparr>))"
  "case load_from_yaml now hws uids fresh doc (h, g) of (h', g') \<Rightarrow>
         set (nodes g')
           = set (doc_nodes doc) \<union> source ` set (doc_edges doc) \<union> target ` set (doc_edges doc)
         \<and> list_all (restored_edge fresh (doc_edges doc)) (edges g')"
proof -
  show "load_from_yaml now hws uids fresh doc (h, g)
     = load_from_yaml now hws uids fresh doc (h, g\<lparr>nodes := [], edges := []\<rparr>)"
    by (simp add: load_from_yaml_def)
  show "load_from_yaml now hws uids fresh (doc\<lparr>doc_edges := doc_edges doc @ [d]\<rparr>) (h, g)
     = replay_step now hws uids fresh (length (doc_edges doc)) d
         (load_from_yaml now hws uids fresh doc (h, g))"
    by (simp add: load_from_yaml_def replay_edges_append)
  show "load_from_yaml now hws uids fresh (doc\<lparr>doc_edges := []\<rparr>) (h, g)
     = (h, fold nx_add_node (doc_nodes doc) (g\<lparr>nodes := [], edges := []\<rparr>))"
    by (simp add: load_from_yaml_def)
  obtain h' g' where r: "replay_edges now hws uids fresh 0 (doc_edges doc)
         (h, fold nx_add_node (doc_nodes doc) (g\<lparr>nodes := [], edges := []\<rparr>)) = (h', g')"
    by (cases "replay_edges now hws uids fresh 0 (doc_edges doc)
         (h, fold nx_add_node (doc_nodes doc) (g\<lparr>nodes := [], edges := []\<rparr>))")
  show "case load_from_yaml now hws uids fresh doc (h, g) of (h', g') \<Rightarrow>
         set (nodes g')
           = set (doc_nodes doc) \<union> source ` set (doc_edges doc) \<union> target ` set (doc_edges doc)
         \<and> list_all (restored_edge fresh (doc_edges doc)) (edges g')"
    using replay_edges_graph[OF r]
    by (simp add: load_from_yaml_def r fold_nx_add_node)
qed

lemma insert_new_tensor_fields:
  "tensor_registry (insert_new_tensor now uid a ctx u v h g)
     = AList.update (habeas_weight_id (h a)) a (tensor_registry g)"
  "dreaming_queue (insert_new_tensor now uid a ctx u v h g)
     = heappush (dreaming_queue g) (- (certainty (h a) * (1 - tension (h a))), u, v)"
  "total_activations (insert_new_tensor now uid a ctx u v h g) = total_activations g + 1"
  "conflict_zones (insert_new_tensor now uid a ctx u v h g) = conflict_zones g"
  by (simp_all add: insert_new_tensor_def nx_add_edge_def nx_add_node_def Let_def)

lemma then_add_keeps:
  assumes "then_add now uid a ctx (h, g) = (h', g')"
  shows "set (keys (tensor_registry g)) \<subseteq> set (keys (tensor_registry g'))
       \<and> mset (dreaming_queue g) \<subseteq># mset (dreaming_queue g')"
proof (cases "find (matches h a) (edges_between g (source (h a)) (target (h a)))")
  case None
  then have "\<not> True \<or> find (matches h a) (edges_between g (source (h a)) (target (h a))) = None"
    by simp
  from add_tensor_insert[OF this] show ?thesis
    using assms unfolding then_add_def
    by (auto simp: insert_new_tensor_fields keys_update mset_heappush)
next
  case (Some e0)
  show ?thesis using assms unfolding then_add_def add_tensor_merge[OF TrueI Some] by auto
qed

lemma replay_edges_keeps:
  assumes "replay_edges now hws uids fresh k ds (h, g) = (h', g')"
  shows "set (keys (tensor_registry g)) \<subseteq> set (keys (tensor_registry g'))
       \<and> mset (dreaming_queue g) \<subseteq># mset (dreaming_queue g')"
  using assms
proof (induction ds arbitrary: k h g)
  case Nil then show ?case by simp
next
  case (Cons d ds)
  obtain h1 g1 where s: "replay_step now hws uids fresh k d (h, g) = (h1, g1)"
    by (cases "replay_step now hws uids fresh k d (h, g)")
  have 1: "set (keys (tensor_registry g)) \<subseteq> set (keys (tensor_registry g1))
       \<and> mset (dreaming_queue g) \<subseteq># mset (dreaming_queue g1)"
    using s then_add_keeps by (simp add: replay_step_def)
  have 2: "set (keys (tensor_registry g1)) \<subseteq> set (keys (tensor_registry g'))
       \<and> mset (dreaming_queue g1) \<subseteq># mset (dreaming_queue g')"
    using Cons.prems Cons.IH[of "Suc k" h1 g1] s
    by (simp add: replay_edges_Cons del: replay_edges.simps(2))
  show ?case using 1 2 by (meson subset_trans subset_mset.order_trans)
qed

lemma fold_nx_add_node_registry:
  "tensor_registry (fold nx_add_node ns g) = tensor_registry g"
  "context_registry (fold nx_add_node ns g) = context_registry g"
  "total_activations (fold nx_add_node ns g) = total_activations g"
  "conflict_zones (fold nx_add_node ns g) = conflict_zones g"
  by (induction ns arbitrary: g) (auto simp: nx_add_node_def)

lemma load_from_yaml_keeps:
  "case load_from_yaml now hws uids fresh doc (h, g) of (h', g') \<Rightarrow>
     set (keys (tensor_registry g)) \<subseteq> set (keys (tensor_registry g'))
     \<and> mset (dreaming_queue g) \<subseteq># mset (dreaming_queue g')"
proof -
  obtain h' g' where r: "replay_edges now hws uids fresh 0 (doc_edges doc)
         (h, fold nx_add_node (doc_nodes doc) (g\<lparr>nodes := [], edges := []\<rparr>)) = (h', g')"
    by (cases "replay_edges now hws uids fresh 0 (doc_edges doc)
         (h, fold nx_add_node (doc_nodes doc) (g\<lparr>nodes := [], edges := []\<rparr>))")
  show ?thesis
    using replay_edges_keeps[OF r]
    by (simp add: load_from_yaml_def r fold_nx_add_node_registry fold_nx_add_node_queue)
qed

lemma prepare_fields:
  "total_activations (prepare now a ctx h g) = total_activations g"
  "context_registry (prepare now a ctx h g) = context_registry (register_context now ctx g)"
  by (simp_all add: prepare_def Let_def add_node_def nx_add_node_def register_context_def)

lemma scenario_registry:
  "keys (tensor_registry (snd scenario)) = [ascii ''HW_ab'', ascii ''HW_bc'']"
  "dreaming_queue (snd scenario)
     = [(- 0.9045, ascii ''A'', ascii ''B''), (- 0.9045, ascii ''B'', ascii ''C'')]"
  "total_activations (snd scenario) = 2"
proof -
  have c: "certainty (incoming 0 10 (ascii ''global'') example_store 10) = 0.9045"
    "tension (incoming 0 10 (ascii ''global'') example_store 10) = 0"
    "certainty (incoming 0 20 (ascii ''global'') (incoming 0 10 (ascii ''global'') example_store) 20) = 0.9045"
    "tension (incoming 0 20 (ascii ''global'') (incoming 0 10 (ascii ''global'') example_store) 20) = 0"
    "habeas_weight_id (example_store 10) = ascii ''HW_ab''"
    "habeas_weight_id (example_store 20) = ascii ''HW_bc''"
    by (simp_all add: incoming_def example_store_def tensor_eval)
  show "keys (tensor_registry (snd scenario)) = [ascii ''HW_ab'', ascii ''HW_bc'']"
    unfolding scenario_graph
    by (simp add: insert_new_tensor_fields c add_node_def nx_add_node_def empty_graph_def keys_def)
       (simp add: ascii_def)
  show "dreaming_queue (snd scenario)
     = [(- 0.9045, ascii ''A'', ascii ''B''), (- 0.9045, ascii ''B'', ascii ''C'')]"
    unfolding scenario_graph
    by (simp add: insert_new_tensor_fields c add_node_def nx_add_node_def empty_graph_def)
       (simp add: heap_eval ascii_def)
  show "total_activations (snd scenario) = 2"
    unfolding scenario_graph
    by (simp add: insert_new_tensor_fields prepare_fields add_node_def nx_add_node_def empty_graph_def)
qed

lemma imported_state:
  "nodes (snd imported) = [ascii ''P'', ascii ''Q'', ascii ''R'']"
  "edges (snd imported) = [edge_pq]"
  "keys (tensor_registry (snd imported)) = [ascii ''HW_ab'', ascii ''HW_bc'', ascii ''HW_pq'']"
  "dreaming_queue (snd imported)
     = [(- 0.9045, ascii ''A'', ascii ''B''), (- 0.9045, ascii ''B'', ascii ''C''),
        (- 0.804, ascii ''P'', ascii ''Q'')]"
  "total_activations (snd imported) = 3"
proof -
  define h0 where "h0 = (fst scenario)(40 := from_dict 0 (ascii ''HW_new'') (example_tensor ''HW_pq'' ''P'' ''Q'' ''z'' 0.8))"
  define g0 where "g0 = fold nx_add_node [ascii ''P'', ascii ''Q'', ascii ''R'']
          ((snd scenario)\<lparr>nodes := [], edges := []\<rparr>)"
  define h1 where "h1 = incoming 0 40 restored_context h0"
  define g1 where "g1 = insert_new_tensor 0 (ascii ''0000000c'') 40 restored_context
       (ascii ''P'') (ascii ''Q'') h1 (prepare 0 40 restored_context h0 g0)"
  have f: "source (h0 40) = ascii ''P''" "target (h0 40) = ascii ''Q''" "rtype (h0 40) = lambda_type"
    "habeas_weight_id (h0 40) = ascii ''HW_pq''"
    by (simp_all add: h0_def from_dict_def example_tensor_def new_tensor_def tensor_fields_def
        post_init_def recalculate_metrics_def Let_def)
  have g0n: "nodes g0 = [ascii ''P'', ascii ''Q'', ascii ''R'']" "edges g0 = []"
    by (simp_all add: g0_def nx_add_node_def ascii_def)
  have g0r: "tensor_registry g0 = tensor_registry (snd scenario)"
    "dreaming_queue g0 = dreaming_queue (snd scenario)"
    "total_activations g0 = total_activations (snd scenario)"
    by (simp_all add: g0_def nx_add_node_def)
  have eb: "edges_between g0 (source (h0 40)) (target (h0 40)) = []"
    by (simp add: edges_between_def g0n)
  note fresh = add_tensor_fresh_edge[where g = g0 and h = h0 and a = 40 and now = 0
      and uid = "ascii ''0000000c''" and ctx = restored_context, OF eb]
  have l: "imported =
      (case add_tensor 0 (ascii ''0000000c'') 40 restored_context True (h0, g0) of
         (h', g', rid) \<Rightarrow> (h', g'))"
    by (simp add: imported_def load_from_yaml_def replacement_document_def case_prod_beta
        h0_def g0_def)
  have imp: "imported = (h1, g1)"
    unfolding l fresh(1) by (simp add: h1_def g1_def f)
  have c: "certainty (h1 40) = 0.804" "tension (h1 40) = 0"
    by (simp_all add: h1_def h0_def incoming_def from_dict_def restored_context_def tensor_eval)
  show "edges (snd imported) = [edge_pq]"
    using fresh(2)
    by (simp add: imp g1_def h1_def f g0n edge_pq_def)
  show "nodes (snd imported) = [ascii ''P'', ascii ''Q'', ascii ''R'']"
    by (simp add: imp g1_def insert_new_tensor_def nx_add_edge_def nx_add_node_def Let_def
        prepare_def add_node_def has_node_def f g0n register_context_def)
  show "keys (tensor_registry (snd imported)) = [ascii ''HW_ab'', ascii ''HW_bc'', ascii ''HW_pq'']"
    using scenario_registry(1)
    by (simp add: imp g1_def insert_new_tensor_fields g0r h1_def f keys_def)
       (auto simp: ascii_def)
  show "dreaming_queue (snd imported)
     = [(- 0.9045, ascii ''A'', ascii ''B''), (- 0.9045, ascii ''B'', ascii ''C''),
        (- 0.804, ascii ''P'', ascii ''Q'')]"
    by (simp add: imp g1_def insert_new_tensor_fields g0r scenario_registry c)
       (simp add: heap_eval ascii_def)
  show "total_activations (snd imported) = 3"
    by (simp add: imp g1_def insert_new_tensor_fields prepare_fields g0r scenario_registry)
qed


subsection \<open>Claim C7: load_from_yaml\<close>

text \<open>
  Claim C7, at the graph of the scenario and a document with the nodes P, Q and R and one
  edge from P to Q. The import replays the document: afterwards the nodes are P, Q and R
  and the one edge is the edge from P to Q, stored under the context
  \<open>restored_from_yaml\<close>. But \<open>load_from_yaml\<close> clears the multigraph only: the tensor
  registry still lists the records of the two removed edges beside the new one, the queue
  of \<open>dreaming_cycle\<close> still holds the pairs (A, B) and (B, C) before the new pair, and
  the count of activations has gone from 2 to 3. The state does not reflect the document
  alone, and the next \<open>dreaming_cycle\<close> raises \<open>NetworkXError\<close> when it asks for the
  successors of A, which is no longer a node.
\<close>

theorem load_from_yaml_keeps_registries:
  "nodes after_import = [ascii ''P'', ascii ''Q'', ascii ''R'']
   \<and> edges after_import = [edge_pq]
   \<and> keys (tensor_registry after_import) = [ascii ''HW_ab'', ascii ''HW_bc'', ascii ''HW_pq'']
   \<and> dreaming_queue after_import
       = [(- 0.9045, ascii ''A'', ascii ''B''), (- 0.9045, ascii ''B'', ascii ''C''),
          (- 0.804, ascii ''P'', ascii ''Q'')]
   \<and> total_activations after_import = 3
   \<and> dreaming_cycle 0 (\<lambda>k. []) 10 after_import = Inl NetworkXError"
proof -
  have "dreaming_cycle 0 (\<lambda>k. []) 10 after_import = Inl NetworkXError"
    by (simp add: after_import_def dreaming_cycle_def imported_state heap_order_first
        has_edge_def has_node_def edge_pq_def) (simp add: ascii_def)
  then show ?thesis by (simp add: after_import_def imported_state)
qed


section \<open>Properties of the path query\<close>

lemma execute_path_query_never_returns:
  "execute_path_query h g query =
     (if falsy (q_source query) \<or> falsy (q_target query) then Inl ValueError
      else Inl AttributeError)"
  by (simp add: execute_path_query_def find_paths_def)

lemma filter_paths_accepts:
  "list_all (\<lambda>fp. avg_certainty fp \<ge> min_coherence query
                   \<and> avg_certainty fp = path_average (path_edges fp))
     (paths (filter_paths query ps))"
  "length (paths (filter_paths query ps)) \<le> 5"
  by (auto simp: filter_paths_def Let_def list_all_iff found_def dest!: in_set_takeD)

subsection \<open>Claim C5: the path query\<close>

text \<open>
  Claim C5, at the graph of the scenario and the query from A to C with the bound 3 and
  the default threshold 0.5. The claim expects one path [A, B, C] of mean confidence
  0.9. The call raises \<open>AttributeError\<close>: \<open>_execute_path_query\<close> asks the graph for
  \<open>find_paths\<close>, which \<open>TensorSemanticGraph\<close> does not have. What follows the call does what
  the claim says: given the path of the two hops it returns that one path, its nodes A, B
  and C and its mean 0.9.
\<close>

theorem execute_path_query_raises:
  "execute_path_query (fst scenario) (snd scenario)
       (path_query (ascii ''A'') (ascii ''C'') 3 0.5) = Inl AttributeError
   \<and> filter_paths (path_query (ascii ''A'') (ascii ''C'') 3 0.5) [scenario_hops] =
       \<lparr>r_source = ascii ''A'', r_target = ascii ''C'', paths_found = 1,
        paths = [\<lparr>path = [ascii ''A'', ascii ''B'', ascii ''C''], path_edges = scenario_hops,
                  avg_certainty = 0.9\<rparr>],
        coherence_threshold = 0.5\<rparr>"
proof
  show "execute_path_query (fst scenario) (snd scenario)
       (path_query (ascii ''A'') (ascii ''C'') 3 0.5) = Inl AttributeError"
    unfolding execute_path_query_never_returns
    by (simp add: path_query_def falsy_def ascii_def)
  show "filter_paths (path_query (ascii ''A'') (ascii ''C'') 3 0.5) [scenario_hops] =
       \<lparr>r_source = ascii ''A'', r_target = ascii ''C'', paths_found = 1,
        paths = [\<lparr>path = [ascii ''A'', ascii ''B'', ascii ''C''], path_edges = scenario_hops,
                  avg_certainty = 0.9\<rparr>],
        coherence_threshold = 0.5\<rparr>"
    by (simp add: filter_paths_def path_query_def path_average_def found_def scenario_hops_def
        Let_def)
qed

end
